(* ===== verification/Tsn_Prelude.thy ===== *)
theory Tsn_Prelude
  imports "HOL-Library.Word" "HOL-Library.Monad_Syntax"
begin

text \<open>
  Shared vocabulary of the development.

  A C function that may trap, dereference a null pointer or index outside an array is a
  function into \<open>option\<close>: \<open>None\<close> stands for every execution the language leaves
  undefined (and for \<^verbatim>\<open>__builtin_trap\<close>), \<open>Some\<close> for a defined one. State is passed
  explicitly and sequencing is \<open>do\<close> notation over \<open>Option.bind\<close>.

  An array is a list whose length is the declared size of the array; \<open>rd\<close>, \<open>wr\<close>,
  \<open>copy_in\<close> and \<open>read_block\<close> are the checked element read, element write, block write and block
  read. A counting loop is \<open>for_each\<close> over the list of its indices.

  The theory also gives the two predicates the component proofs are phrased with: \<open>post m Q\<close> (if
  the computation \<open>m\<close> is defined, its result satisfies \<open>Q\<close>) and \<open>tot m Q\<close> (\<open>m\<close> is defined, and its
  result satisfies \<open>Q\<close>). The collections \<open>post_simps\<close> and \<open>tot_simps\<close> push them through the
  constructs of the models, so that only calls of other operations remain, for which the
  operation's own lemma is used through \<open>post_call\<close> and \<open>tot_call\<close>.
\<close>

unbundle bit_operations_syntax

type_synonym u8 = "8 word"
type_synonym u16 = "16 word"
type_synonym u32 = "32 word"
type_synonym u64 = "64 word"
type_synonym bytes = "u8 list"

named_theorems array_simps \<open>checked array accesses\<close>
named_theorems post_simps \<open>conditional postconditions of the constructs\<close>
named_theorems tot_simps \<open>guaranteed postconditions of the constructs\<close>

section \<open>Arrays\<close>

definition rd :: "'a list \<Rightarrow> nat \<Rightarrow> 'a option" where
  "rd xs i = (if i < length xs then Some (xs ! i) else None)"

definition wr :: "'a list \<Rightarrow> nat \<Rightarrow> 'a \<Rightarrow> 'a list option" where
  "wr xs i v = (if i < length xs then Some (xs[i := v]) else None)"

definition copy_in :: "'a list \<Rightarrow> nat \<Rightarrow> 'a list \<Rightarrow> 'a list option" where
  "copy_in xs i ys =
     (if i + length ys \<le> length xs
      then Some (take i xs @ ys @ drop (i + length ys) xs) else None)"

definition read_block :: "'a list \<Rightarrow> nat \<Rightarrow> nat \<Rightarrow> 'a list option" where
  "read_block xs i n = (if i + n \<le> length xs then Some (take n (drop i xs)) else None)"

lemma rd_Some_iff [array_simps]: "rd xs i = Some x \<longleftrightarrow> i < length xs \<and> x = xs ! i"
  by (auto simp: rd_def)

lemma rd_in [simp]: "i < length xs \<Longrightarrow> rd xs i = Some (xs ! i)"
  by (simp add: rd_def)

lemma rd_None_iff [array_simps]: "rd xs i = None \<longleftrightarrow> length xs \<le> i"
  by (auto simp: rd_def)

lemma wr_Some_iff [array_simps]: "wr xs i v = Some ys \<longleftrightarrow> i < length xs \<and> ys = xs[i := v]"
  by (auto simp: wr_def)

lemma wr_in [simp]: "i < length xs \<Longrightarrow> wr xs i v = Some (xs[i := v])"
  by (simp add: wr_def)

lemma copy_in_Some_iff [array_simps]:
  "copy_in xs i ys = Some zs \<longleftrightarrow>
     i + length ys \<le> length xs \<and> zs = take i xs @ ys @ drop (i + length ys) xs"
  by (auto simp: copy_in_def)

lemma copy_in_length: "copy_in xs i ys = Some zs \<Longrightarrow> length zs = length xs"
  by (auto simp: copy_in_Some_iff)

lemma read_block_Some_iff [array_simps]:
  "read_block xs i n = Some ys \<longleftrightarrow> i + n \<le> length xs \<and> ys = take n (drop i xs)"
  by (auto simp: read_block_def)

lemma read_block_length: "read_block xs i n = Some ys \<Longrightarrow> length ys = n"
  by (auto simp: read_block_Some_iff)

lemma read_block_copy_in_same:
  "copy_in xs i ys = Some zs \<Longrightarrow> read_block zs i (length ys) = Some ys"
  by (auto simp: array_simps)

lemma nth_copy_in:
  assumes "copy_in xs i ys = Some zs" and "j < length xs"
  shows "zs ! j = (if i \<le> j \<and> j < i + length ys then ys ! (j - i) else xs ! j)"
  using assms by (auto simp: array_simps nth_append min_def)

text \<open>Two block writes on disjoint ranges, and reads on either side of a write.\<close>

lemma read_block_copy_in_before:
  assumes "copy_in xs i ys = Some zs" and "j + n \<le> i"
  shows "read_block zs j n = read_block xs j n"
proof -
  have "take n (drop j (take i xs)) = take n (drop j xs)"
    using assms(2) by (simp add: drop_take min_def)
  with assms show ?thesis by (auto simp: read_block_def copy_in_Some_iff min_def)
qed

lemma read_block_copy_in_after:
  assumes "copy_in xs i ys = Some zs" and "i + length ys \<le> j"
  shows "read_block zs j n = read_block xs j n"
proof -
  from assms have "drop j zs = drop j xs" by (auto simp: copy_in_Some_iff)
  moreover have "length zs = length xs" by (rule copy_in_length [OF assms(1)])
  ultimately show ?thesis by (simp add: read_block_def)
qed

text \<open>
  The contents of an array after a block write that fits. The collection \<open>wire_simps\<close> reads the fields
  of a structure whose fields were written one after the other.
\<close>

named_theorems wire_simps \<open>fields of a structure after writes to others\<close>

definition overlay :: "nat \<Rightarrow> 'a list \<Rightarrow> 'a list \<Rightarrow> 'a list" where
  "overlay k bs w = take (length w) (take k w @ bs @ drop (k + length bs) w)"

lemma length_overlay [simp]: "length (overlay k bs w) = length w"
  by (simp add: overlay_def)

lemma overlay_eq: "k + length bs \<le> length w \<Longrightarrow> overlay k bs w = take k w @ bs @ drop (k + length bs) w"
  by (simp add: overlay_def)

lemma copy_in_overlay: "i + length ys \<le> length xs \<Longrightarrow> copy_in xs i ys = Some (overlay i ys xs)"
  by (simp add: copy_in_def overlay_eq)

lemma nth_overlay [wire_simps]:
  "j < length w \<Longrightarrow> overlay k bs w ! j = (if k \<le> j \<and> j < k + length bs then bs ! (j - k) else w ! j)"
  by (auto simp: overlay_def nth_append min_def)

lemma block_overlay_same [wire_simps]:
  "k + length bs \<le> length w \<Longrightarrow> n = length bs \<Longrightarrow> take n (drop k (overlay k bs w)) = bs"
  by (simp add: overlay_eq)

lemma block_overlay_other [wire_simps]:
  assumes "j + n \<le> k \<or> k + length bs \<le> j"
  shows "take n (drop j (overlay k bs w)) = take n (drop j w)"
  by (rule nth_equalityI) (use assms in \<open>auto simp: nth_overlay\<close>)

lemma block_update_other [wire_simps]:
  "i < j \<or> j + n \<le> i \<Longrightarrow> take n (drop j (xs[i := v])) = take n (drop j xs)"
  by (auto simp: drop_update_swap)

lemma nth_update_other [wire_simps]: "i \<noteq> j \<Longrightarrow> xs[i := v] ! j = xs ! j"
  by simp

section \<open>Loops\<close>

fun for_each :: "'a list \<Rightarrow> ('a \<Rightarrow> 's \<Rightarrow> 's option) \<Rightarrow> 's \<Rightarrow> 's option" where
  "for_each [] f s = Some s"
| "for_each (x # xs) f s = do { s \<leftarrow> f x s; for_each xs f s }"

lemma for_each_append:
  "for_each (xs @ ys) f s = do { s \<leftarrow> for_each xs f s; for_each ys f s }"
  by (induction xs arbitrary: s) (simp_all cong: Option.bind_cong)

section \<open>Postconditions\<close>

definition post :: "'a option \<Rightarrow> ('a \<Rightarrow> bool) \<Rightarrow> bool" where
  "post m Q \<longleftrightarrow> (\<forall>x. m = Some x \<longrightarrow> Q x)"

definition tot :: "'a option \<Rightarrow> ('a \<Rightarrow> bool) \<Rightarrow> bool" where
  "tot m Q \<longleftrightarrow> (\<exists>x. m = Some x \<and> Q x)"

lemma postI [intro?]: "(\<And>x. m = Some x \<Longrightarrow> Q x) \<Longrightarrow> post m Q"
  by (simp add: post_def)

lemma postD: "post m Q \<Longrightarrow> m = Some x \<Longrightarrow> Q x"
  by (simp add: post_def)

lemma totE: "tot m Q \<Longrightarrow> (\<And>x. m = Some x \<Longrightarrow> Q x \<Longrightarrow> thesis) \<Longrightarrow> thesis"
  by (auto simp: tot_def)

lemma tot_post: "tot m Q \<Longrightarrow> post m Q"
  by (auto simp: tot_def post_def)

lemma post_call: "post m P \<Longrightarrow> (\<And>x. P x \<Longrightarrow> Q x) \<Longrightarrow> post m Q"
  by (simp add: post_def)

lemma tot_call: "tot m P \<Longrightarrow> (\<And>x. P x \<Longrightarrow> Q x) \<Longrightarrow> tot m Q"
  by (auto simp: tot_def)

lemma post_any: "(\<And>x. Q x) \<Longrightarrow> post m Q"
  by (simp add: post_def)

lemma post_conj: "post m (\<lambda>x. P x \<and> Q x) \<longleftrightarrow> post m P \<and> post m Q"
  by (auto simp: post_def)

lemma post_construct [post_simps]:
  "post (Some x) Q \<longleftrightarrow> Q x"
  "post None Q"
  "post (w \<bind> g) Q \<longleftrightarrow> post w (\<lambda>y. post (g y) Q)"
  "post (if b then m else n) Q \<longleftrightarrow> (b \<longrightarrow> post m Q) \<and> (\<not> b \<longrightarrow> post n Q)"
  "post (case o1 of None \<Rightarrow> n | Some z \<Rightarrow> k z) Q \<longleftrightarrow> (o1 = None \<longrightarrow> post n Q) \<and> (\<forall>z. o1 = Some z \<longrightarrow> post (k z) Q)"
  "post (case p of (a, c) \<Rightarrow> h a c) Q \<longleftrightarrow> (\<forall>a c. p = (a, c) \<longrightarrow> post (h a c) Q)"
  by (auto simp: post_def bind_eq_Some_conv split: option.splits prod.splits)

lemma post_array [post_simps]:
  "post (rd xs i) Q \<longleftrightarrow> (i < length xs \<longrightarrow> Q (xs ! i))"
  "post (wr xs i v) R \<longleftrightarrow> (i < length xs \<longrightarrow> R (xs[i := v]))"
  by (auto simp: post_def array_simps)

lemma tot_construct [tot_simps]:
  "tot (Some x) Q \<longleftrightarrow> Q x"
  "\<not> tot None Q"
  "tot (w \<bind> g) Q \<longleftrightarrow> tot w (\<lambda>y. tot (g y) Q)"
  "tot (if b then m else n) Q \<longleftrightarrow> (b \<longrightarrow> tot m Q) \<and> (\<not> b \<longrightarrow> tot n Q)"
  "tot (case o1 of None \<Rightarrow> n | Some z \<Rightarrow> k z) Q \<longleftrightarrow> (o1 = None \<longrightarrow> tot n Q) \<and> (\<forall>z. o1 = Some z \<longrightarrow> tot (k z) Q)"
  "tot (case p of (a, c) \<Rightarrow> h a c) Q \<longleftrightarrow> (\<forall>a c. p = (a, c) \<longrightarrow> tot (h a c) Q)"
  by (auto simp: tot_def bind_eq_Some_conv split: option.splits prod.splits)

lemma tot_array [tot_simps]:
  "tot (rd xs i) Q \<longleftrightarrow> i < length xs \<and> Q (xs ! i)"
  "tot (wr xs i v) R \<longleftrightarrow> i < length xs \<and> R (xs[i := v])"
  "tot (read_block xs i n) R \<longleftrightarrow> i + n \<le> length xs \<and> R (take n (drop i xs))"
  by (auto simp: tot_def array_simps)

lemma post_for_each:
  assumes "P s" and "\<And>x s. x \<in> set xs \<Longrightarrow> P s \<Longrightarrow> post (f x s) P"
  shows "post (for_each xs f s) P"
  using assms
proof (induction xs arbitrary: s)
  case (Cons x xs)
  have "post (f x s) P" using Cons.prems by simp
  then have "post (f x s) (\<lambda>t. post (for_each xs f t) P)"
    by (rule post_call) (use Cons.IH Cons.prems(2) in simp)
  then show ?case by (simp add: post_simps)
qed (simp add: post_simps)

lemma tot_for_each:
  assumes "P s" and "\<And>x s. x \<in> set xs \<Longrightarrow> P s \<Longrightarrow> tot (f x s) P"
  shows "tot (for_each xs f s) P"
  using assms
proof (induction xs arbitrary: s)
  case (Cons x xs)
  have "tot (f x s) P" using Cons.prems by simp
  then have "tot (f x s) (\<lambda>t. tot (for_each xs f t) P)"
    by (rule tot_call) (use Cons.IH Cons.prems(2) in simp)
  then show ?case by (simp add: tot_simps)
qed (simp add: tot_simps)

section \<open>Lists\<close>

lemma list_update_map_same:
  "i < length xs \<Longrightarrow> f v = f (xs ! i) \<Longrightarrow> map f (xs[i := v]) = map f xs"
  by (simp add: map_update) (metis length_map list_update_id nth_map)

lemma ball_list_update:
  "(\<forall>x \<in> set xs. P x) \<Longrightarrow> P v \<Longrightarrow> \<forall>x \<in> set (xs[i := v]). P x"
  by (auto dest!: set_update_subset_insert [THEN subsetD])

text \<open>The first index that satisfies a predicate: every search loop of the sources.\<close>

definition find_index :: "('a \<Rightarrow> bool) \<Rightarrow> 'a list \<Rightarrow> nat option" where
  "find_index p xs = (case filter (\<lambda>i. p (xs ! i)) [0..<length xs] of [] \<Rightarrow> None | i # _ \<Rightarrow> Some i)"

lemma find_index_Some:
  assumes "find_index p xs = Some i"
  shows "i < length xs \<and> p (xs ! i)"
proof -
  from assms obtain r where "filter (\<lambda>i. p (xs ! i)) [0..<length xs] = i # r"
    by (auto simp: find_index_def split: list.splits)
  then have "i \<in> set (filter (\<lambda>i. p (xs ! i)) [0..<length xs])" by simp
  then show ?thesis by auto
qed

lemma find_index_None: "find_index p xs = None \<longleftrightarrow> (\<forall>i < length xs. \<not> p (xs ! i))"
proof -
  have "find_index p xs = None \<longleftrightarrow> filter (\<lambda>i. p (xs ! i)) [0..<length xs] = []"
    by (simp add: find_index_def split: list.splits)
  then show ?thesis by (auto simp: filter_empty_conv)
qed

lemma find_index_least:
  assumes "find_index p xs = Some i" and "j < i"
  shows "\<not> p (xs ! j)"
proof
  assume p: "p (xs ! j)"
  let ?l = "filter (\<lambda>i. p (xs ! i)) [0..<length xs]"
  from assms(1) obtain r where l: "?l = i # r"
    by (auto simp: find_index_def split: list.splits)
  have "sorted ?l" by (rule sorted_wrt_filter) simp
  moreover have "j \<in> set ?l"
    using p assms find_index_Some [OF assms(1)] by auto
  ultimately show False using l assms(2) by auto
qed

end
