(* ===== verification/Avb_Timer.thy ===== *)
theory Avb_Timer
  imports Tsn_Prelude
begin

text \<open>
  The software timeouts of \<^verbatim>\<open>src/util/misc_timer.xc\<close>. The hardware timer is an input of the
  model: \<open>clk n\<close> is what the \<open>n\<close>-th read of the 100 MHz reference timer returns, and
  \<open>clk_reads\<close> counts the reads made so far. Everything is polymorphic in the rest of the state
  record so that every task that polls timers can extend \<open>clock_env\<close>.
\<close>

record clock_env =
  clk :: "nat \<Rightarrow> u32"
  clk_reads :: nat

record avb_timer =
  tmr_timeout :: u32
  tmr_period :: u32
  tmr_active :: int
  tmr_multiplier :: int

definition TICKS_PER_CENTISECOND :: u32 where
  "TICKS_PER_CENTISECOND = 100000 * 10"

definition timeafter :: "u32 \<Rightarrow> u32 \<Rightarrow> bool" where
  "timeafter A B \<longleftrightarrow> sint (B - A) < 0"

definition get_local_time :: "'e clock_env_scheme \<Rightarrow> u32 \<times> 'e clock_env_scheme" where
  "get_local_time s = (clk s (clk_reads s), s\<lparr>clk_reads := clk_reads s + 1\<rparr>)"

definition init_avb_timer :: "avb_timer \<Rightarrow> int \<Rightarrow> avb_timer" where
  "init_avb_timer tmr mult = tmr\<lparr>tmr_active := 0, tmr_multiplier := mult\<rparr>"

definition start_avb_timer ::
    "avb_timer \<Rightarrow> u32 \<Rightarrow> 'e clock_env_scheme \<Rightarrow> avb_timer \<times> 'e clock_env_scheme" where
  "start_avb_timer tmr period_cs s =
     (let tmr = tmr\<lparr>tmr_period := period_cs * TICKS_PER_CENTISECOND\<rparr>;
          (now, s) = get_local_time s;
          tmr = tmr\<lparr>tmr_timeout := now + period_cs * TICKS_PER_CENTISECOND\<rparr>
      in (tmr\<lparr>tmr_active := tmr_multiplier tmr\<rparr>, s))"

definition avb_timer_expired ::
    "avb_timer \<Rightarrow> 'e clock_env_scheme \<Rightarrow> bool \<times> avb_timer \<times> 'e clock_env_scheme" where
  "avb_timer_expired tmr s =
     (let (now, s) = get_local_time s in
      if tmr_active tmr = 0 then (False, tmr, s)
      else
        let tmr = (if timeafter now (tmr_timeout tmr)
                   then tmr\<lparr>tmr_active := tmr_active tmr - 1, tmr_timeout := now + tmr_period tmr\<rparr>
                   else tmr)
        in (tmr_active tmr = 0, tmr, s))"

definition stop_avb_timer :: "avb_timer \<Rightarrow> avb_timer" where
  "stop_avb_timer tmr = tmr\<lparr>tmr_active := 0\<rparr>"

text \<open>Polling a timer \<open>k\<close> times, recording the answers.\<close>

fun poll_timer :: "nat \<Rightarrow> avb_timer \<Rightarrow> 'e clock_env_scheme \<Rightarrow> bool list \<times> avb_timer \<times> 'e clock_env_scheme" where
  "poll_timer 0 tmr s = ([], tmr, s)"
| "poll_timer (Suc k) tmr s =
     (let (b, tmr, s) = avb_timer_expired tmr s;
          (bs, tmr, s) = poll_timer k tmr s
      in (b # bs, tmr, s))"

section \<open>Wrapping time\<close>

text \<open>
  Real time is a natural number; the timer register is its remainder modulo \<open>2 ^ 32\<close>.
  Comparing registers is right as long as the instants are less than \<open>2 ^ 31\<close> ticks apart.
\<close>

lemma timeafter_of_nat:
  assumes "a < b + 2147483648" and "b < a + 2147483648"
  shows "timeafter (of_nat a) (of_nat b) \<longleftrightarrow> b < a"
proof -
  have "(of_nat b - of_nat a :: u32) = word_of_int (int b - int a)" by simp
  also have "sint \<dots> = int b - int a"
    unfolding sint_sbintrunc' by (rule signed_take_bit_int_eq_self) (use assms in simp_all)
  finally have "sint (of_nat b - of_nat a :: u32) = int b - int a" .
  then show ?thesis by (simp add: timeafter_def)
qed

lemma timer_frame [simp]:
  "clk (snd (get_local_time s)) = clk s"
  "clk_reads (snd (get_local_time s)) = clk_reads s + 1"
  "clk (snd (start_avb_timer tmr p s)) = clk s"
  "clk_reads (snd (start_avb_timer tmr p s)) = clk_reads s + 1"
  "clk (snd (snd (avb_timer_expired tmr s))) = clk s"
  "clk_reads (snd (snd (avb_timer_expired tmr s))) = clk_reads s + 1"
  by (simp_all add: get_local_time_def start_avb_timer_def avb_timer_expired_def Let_def)

lemma expired_inactive:
  "tmr_active tmr = 0 \<Longrightarrow> avb_timer_expired tmr s = (False, tmr, snd (get_local_time s))"
  by (simp add: avb_timer_expired_def get_local_time_def)

lemma poll_inactive:
  assumes "tmr_active tmr = 0"
  shows "fst (poll_timer k tmr s) = replicate k False"
  using assms
  by (induction k arbitrary: s)
    (simp_all add: expired_inactive case_prod_beta Let_def)

text \<open>
  Once a poll reports expiry, no later poll does: at most one report per start.
\<close>

lemma poll_after_report:
  assumes "fst (avb_timer_expired tmr s)"
  shows "tmr_active (fst (snd (avb_timer_expired tmr s))) = 0"
  using assms by (auto simp: avb_timer_expired_def get_local_time_def Let_def split: if_splits)

text \<open>
  \<open>armed\<close>: the invariant of a running timer against real time \<open>tt\<close> (\<open>t0\<close> when it was started,
  \<open>l\<close> when its current interval began): each of the \<open>m - active\<close> completed intervals took more
  than one period.
\<close>

definition armed :: "nat \<Rightarrow> nat \<Rightarrow> nat \<Rightarrow> nat \<Rightarrow> avb_timer \<Rightarrow> bool" where
  "armed m t0 p l tmr \<longleftrightarrow> (\<exists>k \<le> m. tmr_active tmr = int k \<and> t0 + (m - k) * p \<le> l
     \<and> tmr_timeout tmr = of_nat (l + p) \<and> tmr_period tmr = of_nat p)"

lemma armed_expired:
  assumes "armed m t0 p l tmr" and now: "clk s (clk_reads s) = of_nat now"
    and gap: "l \<le> now" "now < l + 2147483648" "p < 2147483648"
  shows "\<exists>l'. armed m t0 p l' (fst (snd (avb_timer_expired tmr s))) \<and> l' \<le> now
    \<and> (tmr_active (fst (snd (avb_timer_expired tmr s))) = 0 \<or> now \<le> l' + p)"
    and "fst (avb_timer_expired tmr s) \<Longrightarrow> t0 + m * p < now"
proof -
  from assms(1) obtain k where k: "k \<le> m" "tmr_active tmr = int k" "t0 + (m - k) * p \<le> l"
    "tmr_timeout tmr = of_nat (l + p)" "tmr_period tmr = of_nat p" by (auto simp: armed_def)
  have ta: "timeafter (of_nat now) (of_nat (l + p)) \<longleftrightarrow> l + p < now"
    by (rule timeafter_of_nat) (use gap in linarith)+
  show "\<exists>l'. armed m t0 p l' (fst (snd (avb_timer_expired tmr s))) \<and> l' \<le> now
    \<and> (tmr_active (fst (snd (avb_timer_expired tmr s))) = 0 \<or> now \<le> l' + p)"
  proof (cases "0 < k \<and> l + p < now")
    case True
    then have "m - (k - 1) = Suc (m - k)" using k(1) by linarith
    then have "(m - (k - 1)) * p = (m - k) * p + p" by simp
    with True k ta now show ?thesis
      by (intro exI [of _ now])
        (auto simp: avb_timer_expired_def get_local_time_def Let_def armed_def intro!: exI [of _ "k - 1"])
  next
    case False
    with k ta now assms(1) show ?thesis
      by (intro exI [of _ l]) (auto simp: avb_timer_expired_def get_local_time_def Let_def gap)
  qed
  assume "fst (avb_timer_expired tmr s)"
  with k ta now have "k = 1" "l + p < now"
    by (auto simp: avb_timer_expired_def get_local_time_def Let_def split: if_splits)
  with k show "t0 + m * p < now" by (cases m) auto
qed

section \<open>Properties\<close>

lemma poll_reports_late:
  assumes tt: "\<forall>n. clk s n = of_nat (tt n)" "\<forall>n. tt n \<le> tt (Suc n)" "\<forall>n. tt (Suc n) < tt n + 1073741824"
    and p: "p < 1073741824"
    and inv: "armed m t0 p l tmr" "l \<le> tt (clk_reads s - 1)"
      "tmr_active tmr = 0 \<or> tt (clk_reads s - 1) \<le> l + p" "0 < clk_reads s"
    and i: "i < k" "fst (poll_timer k tmr s) ! i"
  shows "t0 + m * p < tt (clk_reads s + i)"
  using tt inv i
proof (induction k arbitrary: s l tmr i)
  case (Suc k)
  let ?now = "tt (clk_reads s)"
  have act: "tmr_active tmr \<noteq> 0"
    using Suc.prems(8,9) poll_inactive [of tmr "Suc k" s] by (metis nth_replicate)
  obtain b tmr1 s1 where e: "avb_timer_expired tmr s = (b, tmr1, s1)" by (metis prod_cases3)
  from Suc.prems(7) have sn: "Suc (clk_reads s - 1) = clk_reads s" by simp
  have now: "tt (clk_reads s - 1) \<le> ?now" "?now < tt (clk_reads s - 1) + 1073741824"
    using Suc.prems(2,3) sn by metis+
  have g: "l \<le> ?now" "?now < l + 2147483648" "p < 2147483648"
    using now Suc.prems(5,6) p act by linarith+
  have c: "clk s (clk_reads s) = of_nat ?now" using Suc.prems(1) by simp
  note ex = armed_expired [OF Suc.prems(4) c g, unfolded e fst_conv snd_conv]
  have s1: "clk s1 = clk s" "clk_reads s1 = clk_reads s + 1"
    using timer_frame(5,6) [of tmr s] e by simp_all
  show ?case
  proof (cases i)
    case 0 with Suc.prems e ex(2) show ?thesis by (simp add: case_prod_beta Let_def)
  next
    case (Suc j)
    from ex(1) obtain l' where "armed m t0 p l' tmr1" "l' \<le> ?now" "tmr_active tmr1 = 0 \<or> ?now \<le> l' + p"
      by blast
    with Suc.IH [of s1 l' tmr1 j] Suc.prems Suc s1 e show ?thesis
      by (simp add: case_prod_beta Let_def)
  qed
qed simp

lemma poll_reports_once: "length (filter id (fst (poll_timer k tmr s))) \<le> 1"
proof (induction k arbitrary: tmr s)
  case (Suc k)
  obtain b tmr1 s1 where e: "avb_timer_expired tmr s = (b, tmr1, s1)" by (metis prod_cases3)
  have "b \<Longrightarrow> fst (poll_timer k tmr1 s1) = replicate k False"
    using poll_after_report [of tmr s] e by (simp add: poll_inactive)
  with Suc.IH [of tmr1 s1] show ?case by (cases b) (simp_all add: e case_prod_beta Let_def)
qed simp

text \<open>C25: a timer started for \<open>period_cs\<close> centiseconds with multiplier \<open>m\<close> is never reported
  expired before \<open>m\<close> whole periods of real time have passed since the start, and it is reported at
  most once, although the timer register wraps. The polls may be up to \<open>2 ^ 30\<close> ticks (10.7
  seconds) apart.\<close>

theorem timer_not_early:
  assumes "\<forall>n. clk s n = of_nat (tt n)" and "\<forall>n. tt n \<le> tt (Suc n)"
    and "\<forall>n. tt (Suc n) < tt n + 1073741824" and "period_cs < 1073"
    and "tmr_multiplier tmr = int m"
    and "start_avb_timer tmr (of_nat period_cs) s = (tmr', s')" and "i < k"
    and "fst (poll_timer k tmr' s') ! i"
  shows "tt (clk_reads s) + m * (period_cs * 1000000) < tt (clk_reads s + 1 + i)
     \<and> length (filter id (fst (poll_timer k tmr' s'))) \<le> 1"
proof -
  have s': "clk s' = clk s" "clk_reads s' = clk_reads s + 1"
    using timer_frame(3,4) [of tmr "of_nat period_cs" s] assms(6) by simp_all
  have a: "armed m (tt (clk_reads s)) (period_cs * 1000000) (tt (clk_reads s)) tmr'"
    using assms(1,5,6) unfolding armed_def
    by (intro exI [of _ m])
      (auto simp: start_avb_timer_def get_local_time_def Let_def TICKS_PER_CENTISECOND_def)
  have "tt (clk_reads s) + m * (period_cs * 1000000) < tt (clk_reads s' + i)"
    by (rule poll_reports_late [OF _ assms(2,3) _ a _ _ _ assms(7,8)]) (use assms(1,4) s' in auto)
  then show ?thesis using s' poll_reports_once by simp
qed

theorem timer_not_early_witness:
  "\<exists>s (tt :: nat \<Rightarrow> nat) tmr tmr' s'. start_avb_timer tmr (of_nat 1) (s :: clock_env) = (tmr', s')
     \<and> fst (poll_timer 1 tmr' s') ! 0 \<and> tt (clk_reads s) + 1 * (1 * 1000000) < tt (clk_reads s + 1 + 0)"
proof -
  let ?tt = "\<lambda>n::nat. n * 2000000"
  let ?s = "\<lparr>clk = \<lambda>n. of_nat (?tt n), clk_reads = 0\<rparr>"
  let ?t = "\<lparr>tmr_timeout = 0, tmr_period = 0, tmr_active = 0, tmr_multiplier = 1\<rparr>"
  obtain t' s' where r: "start_avb_timer ?t (of_nat 1) ?s = (t', s')" by (metis surj_pair)
  have "t' = \<lparr>tmr_timeout = 1000000, tmr_period = 1000000, tmr_active = 1, tmr_multiplier = 1\<rparr>"
    "clk_reads s' = 1" "clk s' 1 = 2000000"
    using r by (auto simp: start_avb_timer_def get_local_time_def TICKS_PER_CENTISECOND_def)
  then have x: "fst (poll_timer 1 t' s') ! 0"
    by (simp add: avb_timer_expired_def get_local_time_def Let_def case_prod_beta timeafter_def)
  have "?tt (clk_reads ?s) + 1 * (1 * 1000000) < ?tt (clk_reads ?s + 1 + 0)"
    by (rule timer_not_early [THEN conjunct1, OF _ _ _ _ _ r _ x]) simp_all
  with r x show ?thesis
    by (intro exI [of _ ?s] exI [of _ ?tt] exI [of _ ?t] exI [of _ t'] exI [of _ s'] conjI)
qed

end
