(* ===== verification/Avb_Manager.thy ===== *)
theory Avb_Manager
  imports Avb_Timer
begin

text \<open>
  The AVB manager: the stream tables of \<^verbatim>\<open>src/avb/avb.xc\<close> and the client functions of
  \<^verbatim>\<open>api/avb.h\<close> that read and change them.

  The state is the tables \<open>sources\<close>, \<open>sinks\<close>, \<open>inputs\<close>, \<open>outputs\<close> and \<open>clocks\<close> (the media
  clock server's records behind \<^verbatim>\<open>media_clock_if\<close>) and \<open>ctl_log\<close>, the list of the transactions
  sent so far to the talker and listener units, the MAC filter and the media clock server. The
  compile-time sizes \<^verbatim>\<open>AVB_NUM_SOURCES\<close> and so on are the lengths of the tables.

  A client function is a read of a table entry, a change of one field, and \<open>set_source_info\<close> or
  \<open>set_sink_info\<close>, which store the entry and run the transition between the previous and the new
  stream state. The manager calls the stream reservation task through \<open>srp_if\<close>, a record of
  functions on the same state; the reservation component provides an instance.
\<close>

section \<open>Data\<close>

datatype stream_state = STATE_DISABLED | STATE_POTENTIAL | STATE_ENABLED

datatype device_media_clock_type = INPUT_STREAM_DERIVED | LOCAL_CLOCK

type_synonym stream_id = "u32 \<times> u32"

record media_clock_info =
  mc_active :: bool
  mc_type :: device_media_clock_type
  mc_source :: int
  mc_rate :: int
  mc_lock_counter :: int
  mc_unlock_counter :: int

record avb_srp_info =
  stream_id :: stream_id
  dest_mac_addr :: bytes
  vlan_id :: u16
  tspec_max_frame_size :: u16
  tspec_max_interval :: u16
  tspec :: u8
  accumulated_latency :: u32
  failure_bridge_id :: bytes
  failure_code :: u8

record avb_stream_info =
  st_state :: stream_state
  st_tile_id :: u8
  st_local_id :: u8
  st_num_channels :: u8
  st_format :: u8
  st_rate :: int
  st_sync :: u8
  st_flags :: u16

record avb_source_info =
  src_reservation :: avb_srp_info
  src_stream :: avb_stream_info
  talker_ctl :: nat
  src_presentation :: int
  src_map :: "int list"

record avb_sink_info =
  snk_reservation :: avb_srp_info
  snk_stream :: avb_stream_info
  listener_ctl :: nat
  snk_map :: "int list"

record media_info =
  mi_clk_ctl :: u32
  mi_fifo :: u32
  mi_mapped_to :: int

definition UNMAPPED :: int where "UNMAPPED = - 1"

datatype ctl_msg =
    ConfigureListener nat u8 u8 int u8 "int list"
  | AdjustListenerMap nat u8 u8 "int list"
  | DisableListener nat u8
  | GetRouterLink nat
  | ConfigureTalker nat u8 u8 bytes nat u8 u32 "int list" int int
  | TalkerGo nat u8
  | TalkerStop nat u8
  | SetVlan nat u8 int
  | SetPort nat u8 int
  | RegisterClock u32 u8
  | AddMacFilter u8 bytes
  | DelMacFilter u8 bytes
  | SetSamplingRate int

record avb_state = clock_env +
  sources :: "avb_source_info list"
  sinks :: "avb_sink_info list"
  inputs :: "media_info list"
  outputs :: "media_info list"
  clocks :: "media_clock_info list"
  ctl_log :: "ctl_msg list"
  num_ports :: nat

record 's srp_if =
  register_stream_request :: "avb_srp_info \<Rightarrow> 's \<Rightarrow> (u16 \<times> 's) option"
  deregister_stream_request :: "stream_id \<Rightarrow> 's \<Rightarrow> 's option"
  register_attach_request :: "stream_id \<Rightarrow> u16 \<Rightarrow> 's \<Rightarrow> (u16 \<times> 's) option"
  deregister_attach_request :: "stream_id \<Rightarrow> 's \<Rightarrow> 's option"
  leave_vlan :: "int \<Rightarrow> 's \<Rightarrow> 's option"

type_synonym 'e mgr = "'e avb_state_scheme"

section \<open>State transitions of streams\<close>

definition emit :: "ctl_msg \<Rightarrow> 'e mgr \<Rightarrow> 'e mgr" where
  "emit m s = s\<lparr>ctl_log := ctl_log s @ [m]\<rparr>"

definition rd_int :: "'a list \<Rightarrow> int \<Rightarrow> 'a option" where
  "rd_int xs i = (if i < 0 then None else rd xs (nat i))"

definition wr_int :: "'a list \<Rightarrow> int \<Rightarrow> 'a \<Rightarrow> 'a list option" where
  "wr_int xs i v = (if i < 0 then None else wr xs (nat i) v)"

definition valid_to_leave_vlan :: "'e mgr \<Rightarrow> bool" where
  "valid_to_leave_vlan s \<longleftrightarrow>
     (\<forall>k \<in> set (sinks s). st_state (snk_stream k) = STATE_DISABLED)
     \<and> (\<forall>k \<in> set (sources s). st_state (src_stream k) = STATE_DISABLED)"

definition set_avb_sink_map :: "avb_sink_info \<Rightarrow> 'e mgr \<Rightarrow> 'e mgr option" where
  "set_avb_sink_map sink s = do {
     m \<leftarrow> read_block (snk_map sink) 0 (unat (st_num_channels (snk_stream sink)));
     Some (emit (AdjustListenerMap (listener_ctl sink) (st_local_id (snk_stream sink))
                   (st_sync (snk_stream sink)) m) s)
   }"

definition update_sink_state ::
    "'e mgr srp_if \<Rightarrow> nat \<Rightarrow> stream_state \<Rightarrow> stream_state \<Rightarrow> 'e mgr \<Rightarrow> 'e mgr option" where
  "update_sink_state srp sink_num prev state s = do {
     sink \<leftarrow> rd (sinks s) sink_num;
     let c = listener_ctl sink;
     let st = snk_stream sink;
     let resv = snk_reservation sink;
     if prev = STATE_DISABLED \<and> state = STATE_POTENTIAL then do {
       m0 \<leftarrow> rd (snk_map sink) 0;
       out \<leftarrow> rd_int (outputs s) m0;
       m \<leftarrow> read_block (snk_map sink) 0 (unat (st_num_channels st));
       let s = emit (ConfigureListener c (st_local_id st) (st_sync st) (st_rate st) (st_num_channels st) m) s;
       let s = emit (RegisterClock (mi_clk_ctl out) (st_sync st)) s;
       let s = emit (GetRouterLink c) s;
       let s = emit (AddMacFilter (st_local_id st) (dest_mac_addr resv)) s;
       (vid, s) \<leftarrow> register_attach_request srp (stream_id resv) (vlan_id resv) s;
       sink \<leftarrow> rd (sinks s) sink_num;
       sinks' \<leftarrow> wr (sinks s) sink_num (sink\<lparr>snk_reservation := (snk_reservation sink)\<lparr>vlan_id := vid\<rparr>\<rparr>);
       Some (s\<lparr>sinks := sinks'\<rparr>)
     }
     else if prev \<noteq> STATE_DISABLED \<and> state \<noteq> STATE_DISABLED then
       set_avb_sink_map sink s
     else if prev \<noteq> STATE_DISABLED \<and> state = STATE_DISABLED then do {
       let s = emit (DisableListener c (st_local_id st)) s;
       let s = emit (DelMacFilter (st_local_id st) (dest_mac_addr resv)) s;
       s \<leftarrow> deregister_attach_request srp (stream_id resv) s;
       sink \<leftarrow> rd (sinks s) sink_num;
       let vid = vlan_id (snk_reservation sink);
       if num_ports s = 1 \<and> vid \<noteq> 0 \<and> valid_to_leave_vlan s then leave_vlan srp (sint vid) s
       else Some s
     }
     else Some s
   }"

definition AVB_DEFAULT_PRESENTATION_TIME_DELAY_NS :: int where
  "AVB_DEFAULT_PRESENTATION_TIME_DELAY_NS = 2000000"

definition configure_talker_stream :: "avb_source_info \<Rightarrow> nat \<Rightarrow> 'e mgr \<Rightarrow> 'e mgr option" where
  "configure_talker_stream source source_num s = do {
     m \<leftarrow> read_block (src_map source) 0 (unat (st_num_channels (src_stream source)));
     (ins, fifo_mask) \<leftarrow> for_each m (\<lambda>f (ins, mask). do {
         inp \<leftarrow> rd_int ins f;
         ins \<leftarrow> wr_int ins f (inp\<lparr>mi_mapped_to := int source_num\<rparr>);
         Some (ins, mask OR push_bit (nat f) 1) }) (inputs s, 0 :: u32);
     let s = s\<lparr>inputs := ins\<rparr>;
     Some (emit (ConfigureTalker (talker_ctl source) (st_local_id (src_stream source))
             (st_format (src_stream source)) (dest_mac_addr (src_reservation source)) source_num
             (st_num_channels (src_stream source)) fifo_mask m (st_rate (src_stream source))
             (if src_presentation source \<noteq> 0 then src_presentation source
              else AVB_DEFAULT_PRESENTATION_TIME_DELAY_NS)) s)
   }"

definition AVB1722_PLUS_SIP_HEADER_SIZE :: u32 where "AVB1722_PLUS_SIP_HEADER_SIZE = 32"

definition avb_srp_calculate_max_framesize :: "avb_source_info \<Rightarrow> u32" where
  "avb_srp_calculate_max_framesize source =
     (let samples_per_packet = (48000 + (8000 - 1)) div 8000
      in AVB1722_PLUS_SIP_HEADER_SIZE + ucast (st_num_channels (src_stream source)) * samples_per_packet * 4)"

definition source_map_valid :: "avb_source_info \<Rightarrow> u32 \<Rightarrow> 'e mgr \<Rightarrow> bool option" where
  "source_map_valid source clk_ctl s = do {
     m \<leftarrow> read_block (src_map source) 0 (unat (st_num_channels (src_stream source)));
     for_each m (\<lambda>f valid. do {
       inp \<leftarrow> rd_int (inputs s) f;
       Some (valid \<and> mi_mapped_to inp = UNMAPPED \<and> mi_clk_ctl inp = clk_ctl) }) True
   }"

definition update_source_state ::
    "'e mgr srp_if \<Rightarrow> nat \<Rightarrow> stream_state \<Rightarrow> stream_state \<Rightarrow> 'e mgr \<Rightarrow> 'e mgr option" where
  "update_source_state srp source_num prev state s = do {
     source \<leftarrow> rd (sources s) source_num;
     let c = talker_ctl source;
     let st = src_stream source;
     if prev = STATE_DISABLED \<and> state = STATE_POTENTIAL then do {
       m0 \<leftarrow> rd (src_map source) 0;
       inp \<leftarrow> rd_int (inputs s) m0;
       let clk_ctl = mi_clk_ctl inp;
       ok \<leftarrow> source_map_valid source clk_ctl s;
       if ok \<and> 0 < st_num_channels st \<and> \<not> sint (vlan_id (src_reservation source)) < 0 then do {
         s \<leftarrow> configure_talker_stream source source_num s;
         let resv = (src_reservation source)\<lparr>tspec_max_frame_size := ucast (avb_srp_calculate_max_framesize source)\<rparr>;
         sources' \<leftarrow> wr (sources s) source_num (source\<lparr>src_reservation := resv\<rparr>);
         let s = s\<lparr>sources := sources'\<rparr>;
         (vid, s) \<leftarrow> register_stream_request srp resv s;
         source \<leftarrow> rd (sources s) source_num;
         sources' \<leftarrow> wr (sources s) source_num
           (source\<lparr>src_reservation := (src_reservation source)\<lparr>vlan_id := vid\<rparr>\<rparr>);
         let s = s\<lparr>sources := sources'\<rparr>;
         let s = emit (SetVlan c (st_local_id st) (sint vid)) s;
         Some (emit (RegisterClock clk_ctl (st_sync st)) s)
       }
       else Some s
     }
     else if prev = STATE_ENABLED \<and> state = STATE_POTENTIAL then
       Some (emit (TalkerStop c (st_local_id st)) s)
     else if prev = STATE_POTENTIAL \<and> state = STATE_ENABLED then do {
       s \<leftarrow> configure_talker_stream source source_num s;
       Some (emit (TalkerGo c (st_local_id st)) s)
     }
     else if prev \<noteq> STATE_DISABLED \<and> state = STATE_DISABLED then do {
       m \<leftarrow> read_block (src_map source) 0 (unat (st_num_channels st));
       ins \<leftarrow> for_each m (\<lambda>f ins. do {
         inp \<leftarrow> rd_int ins f; wr_int ins f (inp\<lparr>mi_mapped_to := UNMAPPED\<rparr>) }) (inputs s);
       let s = emit (TalkerStop c (st_local_id st)) (s\<lparr>inputs := ins\<rparr>);
       let vid = vlan_id (src_reservation source);
       s \<leftarrow> (if num_ports s = 1 \<and> vid \<noteq> 0 \<and> valid_to_leave_vlan s then leave_vlan srp (sint vid) s
            else Some s);
       deregister_stream_request srp (stream_id (src_reservation source)) s
     }
     else Some s
   }"

definition get_source_info :: "nat \<Rightarrow> 'e mgr \<Rightarrow> avb_source_info option" where
  "get_source_info n s = rd (sources s) n"

definition set_source_info :: "'e mgr srp_if \<Rightarrow> nat \<Rightarrow> avb_source_info \<Rightarrow> 'e mgr \<Rightarrow> 'e mgr option" where
  "set_source_info srp n info s = do {
     old \<leftarrow> rd (sources s) n;
     let prev_state = st_state (src_stream old);
     sources' \<leftarrow> wr (sources s) n info;
     update_source_state srp n prev_state (st_state (src_stream info)) (s\<lparr>sources := sources'\<rparr>)
   }"

definition get_sink_info :: "nat \<Rightarrow> 'e mgr \<Rightarrow> avb_sink_info option" where
  "get_sink_info n s = rd (sinks s) n"

definition set_sink_info :: "'e mgr srp_if \<Rightarrow> nat \<Rightarrow> avb_sink_info \<Rightarrow> 'e mgr \<Rightarrow> 'e mgr option" where
  "set_sink_info srp n info s = do {
     old \<leftarrow> rd (sinks s) n;
     let prev_state = st_state (snk_stream old);
     sinks' \<leftarrow> wr (sinks s) n info;
     update_sink_state srp n prev_state (st_state (snk_stream info)) (s\<lparr>sinks := sinks'\<rparr>)
   }"

definition get_media_clock_info :: "nat \<Rightarrow> 'e mgr \<Rightarrow> media_clock_info option" where
  "get_media_clock_info n s = rd (clocks s) n"

definition set_media_clock_info :: "nat \<Rightarrow> media_clock_info \<Rightarrow> 'e mgr \<Rightarrow> 'e mgr option" where
  "set_media_clock_info n info s = do {
     old \<leftarrow> rd (clocks s) n;
     let s = (if mc_rate old \<noteq> mc_rate info then emit (SetSamplingRate (mc_rate info)) s else s);
     clocks' \<leftarrow> wr (clocks s) n info;
     Some (s\<lparr>clocks := clocks'\<rparr>)
   }"

definition set_avb_source_port :: "nat \<Rightarrow> int \<Rightarrow> 'e mgr \<Rightarrow> 'e mgr" where
  "set_avb_source_port n srcport s =
     (if n < length (sources s)
      then emit (SetPort (talker_ctl (sources s ! n)) (st_local_id (src_stream (sources s ! n))) srcport) s
      else s)"

definition avb_get_source_stream_index_from_stream_id :: "stream_id \<Rightarrow> 'e mgr \<Rightarrow> nat option" where
  "avb_get_source_stream_index_from_stream_id sid s =
     find_index (\<lambda>x. stream_id (src_reservation x) = sid) (sources s)"

definition avb_get_sink_stream_index_from_stream_id :: "stream_id \<Rightarrow> 'e mgr \<Rightarrow> nat option" where
  "avb_get_sink_stream_index_from_stream_id sid s =
     find_index (\<lambda>x. stream_id (snk_reservation x) = sid) (sinks s)"

end
