(* ===== verification/Avb_Api.thy ===== *)
theory Avb_Api
  imports Avb_Manager
begin

text \<open>
  The client side of the manager interface, \<^verbatim>\<open>api/avb.h\<close>: one definition per get or set
  function. A getter gives \<open>None\<close> where the function returns 0; a setter gives the returned flag
  and the new state. Where a getter can also read outside a table (the channel maps, and the media
  clocks, whose number is signed and only bounded above) the outer option is the fault and the
  inner one the 0 result. The locale \<open>guarded_setting\<close> is the contract of a setting that may change
  only while its stream is disabled; each such get and set pair is an instance of it.
\<close>

section \<open>Sources\<close>

definition put_source :: "'e mgr srp_if \<Rightarrow> nat \<Rightarrow> avb_source_info \<Rightarrow> 'e mgr \<Rightarrow> (bool \<times> 'e mgr) option" where
  "put_source srp n source s = do { s \<leftarrow> set_source_info srp n source s; Some (True, s) }"

definition get_source_format :: "nat \<Rightarrow> 'e mgr \<Rightarrow> (u8 \<times> int) option" where
  "get_source_format n s = (if n \<ge> length (sources s) then None
     else do { source \<leftarrow> get_source_info n s; Some (st_format (src_stream source), st_rate (src_stream source)) })"

definition set_source_format :: "'e mgr srp_if \<Rightarrow> nat \<Rightarrow> u8 \<times> int \<Rightarrow> 'e mgr \<Rightarrow> (bool \<times> 'e mgr) option" where
  "set_source_format srp n v s = (if n \<ge> length (sources s) then Some (False, s)
     else do {
       source \<leftarrow> get_source_info n s;
       if st_state (src_stream source) \<noteq> STATE_DISABLED then Some (False, s)
       else put_source srp n
         (source\<lparr>src_stream := (src_stream source)\<lparr>st_format := fst v, st_rate := snd v\<rparr>\<rparr>) s })"

definition get_source_channels :: "nat \<Rightarrow> 'e mgr \<Rightarrow> u8 option" where
  "get_source_channels n s = (if n \<ge> length (sources s) then None
     else do { source \<leftarrow> get_source_info n s; Some (st_num_channels (src_stream source)) })"

definition set_source_channels :: "'e mgr srp_if \<Rightarrow> nat \<Rightarrow> u8 \<Rightarrow> 'e mgr \<Rightarrow> (bool \<times> 'e mgr) option" where
  "set_source_channels srp n v s = (if n \<ge> length (sources s) then Some (False, s)
     else do {
       source \<leftarrow> get_source_info n s;
       if st_state (src_stream source) \<noteq> STATE_DISABLED then Some (False, s)
       else put_source srp n (source\<lparr>src_stream := (src_stream source)\<lparr>st_num_channels := v\<rparr>\<rparr>) s })"

definition get_source_sync :: "nat \<Rightarrow> 'e mgr \<Rightarrow> u8 option" where
  "get_source_sync n s = (if n \<ge> length (sources s) then None
     else do { source \<leftarrow> get_source_info n s; Some (st_sync (src_stream source)) })"

definition set_source_sync :: "'e mgr srp_if \<Rightarrow> nat \<Rightarrow> u8 \<Rightarrow> 'e mgr \<Rightarrow> (bool \<times> 'e mgr) option" where
  "set_source_sync srp n v s = (if n \<ge> length (sources s) then Some (False, s)
     else do {
       source \<leftarrow> get_source_info n s;
       if st_state (src_stream source) \<noteq> STATE_DISABLED then Some (False, s)
       else put_source srp n (source\<lparr>src_stream := (src_stream source)\<lparr>st_sync := v\<rparr>\<rparr>) s })"

definition get_source_presentation :: "nat \<Rightarrow> 'e mgr \<Rightarrow> int option" where
  "get_source_presentation n s = (if n \<ge> length (sources s) then None
     else do { source \<leftarrow> get_source_info n s; Some (src_presentation source) })"

definition set_source_presentation :: "'e mgr srp_if \<Rightarrow> nat \<Rightarrow> int \<Rightarrow> 'e mgr \<Rightarrow> (bool \<times> 'e mgr) option" where
  "set_source_presentation srp n v s = (if n \<ge> length (sources s) then Some (False, s)
     else do {
       source \<leftarrow> get_source_info n s;
       if st_state (src_stream source) \<noteq> STATE_DISABLED then Some (False, s)
       else put_source srp n (source\<lparr>src_presentation := v\<rparr>) s })"

definition get_source_vlan :: "nat \<Rightarrow> 'e mgr \<Rightarrow> int option" where
  "get_source_vlan n s = (if n \<ge> length (sources s) then None
     else do { source \<leftarrow> get_source_info n s; Some (sint (vlan_id (src_reservation source))) })"

definition set_source_vlan :: "'e mgr srp_if \<Rightarrow> nat \<Rightarrow> int \<Rightarrow> 'e mgr \<Rightarrow> (bool \<times> 'e mgr) option" where
  "set_source_vlan srp n v s = (if n \<ge> length (sources s) then Some (False, s)
     else do {
       source \<leftarrow> get_source_info n s;
       put_source srp n (source\<lparr>src_reservation := (src_reservation source)\<lparr>vlan_id := word_of_int v\<rparr>\<rparr>) s })"

definition get_source_state :: "nat \<Rightarrow> 'e mgr \<Rightarrow> stream_state option" where
  "get_source_state n s = (if n \<ge> length (sources s) then None
     else do { source \<leftarrow> get_source_info n s; Some (st_state (src_stream source)) })"

definition set_source_state :: "'e mgr srp_if \<Rightarrow> nat \<Rightarrow> stream_state \<Rightarrow> 'e mgr \<Rightarrow> (bool \<times> 'e mgr) option" where
  "set_source_state srp n v s = (if n \<ge> length (sources s) then Some (False, s)
     else do {
       source \<leftarrow> get_source_info n s;
       put_source srp n (source\<lparr>src_stream := (src_stream source)\<lparr>st_state := v\<rparr>\<rparr>) s })"

definition get_source_map :: "nat \<Rightarrow> 'e mgr \<Rightarrow> int list option option" where
  "get_source_map n s = (if n \<ge> length (sources s) then Some None
     else do {
       source \<leftarrow> get_source_info n s;
       m \<leftarrow> read_block (src_map source) 0 (unat (st_num_channels (src_stream source)));
       Some (Some m) })"

definition set_source_map :: "'e mgr srp_if \<Rightarrow> nat \<Rightarrow> int list \<Rightarrow> 'e mgr \<Rightarrow> (bool \<times> 'e mgr) option" where
  "set_source_map srp n v s = (if n \<ge> length (sources s) then Some (False, s)
     else do {
       source \<leftarrow> get_source_info n s;
       if st_state (src_stream source) \<noteq> STATE_DISABLED then Some (False, s)
       else if length v > 8 then Some (False, s)
       else do {
         m \<leftarrow> copy_in (src_map source) 0 v;
         put_source srp n (source\<lparr>src_map := m\<rparr>) s } })"

definition get_source_dest :: "nat \<Rightarrow> 'e mgr \<Rightarrow> bytes option" where
  "get_source_dest n s = (if n \<ge> length (sources s) then None
     else do { source \<leftarrow> get_source_info n s; read_block (dest_mac_addr (src_reservation source)) 0 6 })"

definition set_source_dest :: "'e mgr srp_if \<Rightarrow> nat \<Rightarrow> bytes \<Rightarrow> 'e mgr \<Rightarrow> (bool \<times> 'e mgr) option" where
  "set_source_dest srp n v s = (if n \<ge> length (sources s) then Some (False, s)
     else do {
       source \<leftarrow> get_source_info n s;
       if st_state (src_stream source) \<noteq> STATE_DISABLED then Some (False, s)
       else if length v \<noteq> 6 then Some (False, s)
       else put_source srp n (source\<lparr>src_reservation := (src_reservation source)\<lparr>dest_mac_addr := v\<rparr>\<rparr>) s })"

definition get_source_id :: "nat \<Rightarrow> 'e mgr \<Rightarrow> stream_id option" where
  "get_source_id n s = (if n \<ge> length (sources s) then None
     else do { source \<leftarrow> get_source_info n s; Some (stream_id (src_reservation source)) })"

section \<open>Sinks\<close>

definition put_sink :: "'e mgr srp_if \<Rightarrow> nat \<Rightarrow> avb_sink_info \<Rightarrow> 'e mgr \<Rightarrow> (bool \<times> 'e mgr) option" where
  "put_sink srp n sink s = do { s \<leftarrow> set_sink_info srp n sink s; Some (True, s) }"

definition get_sink_id :: "nat \<Rightarrow> 'e mgr \<Rightarrow> stream_id option" where
  "get_sink_id n s = (if n \<ge> length (sinks s) then None
     else do { sink \<leftarrow> get_sink_info n s; Some (stream_id (snk_reservation sink)) })"

definition set_sink_id :: "'e mgr srp_if \<Rightarrow> nat \<Rightarrow> stream_id \<Rightarrow> 'e mgr \<Rightarrow> (bool \<times> 'e mgr) option" where
  "set_sink_id srp n v s = (if n \<ge> length (sinks s) then Some (False, s)
     else do {
       sink \<leftarrow> get_sink_info n s;
       if st_state (snk_stream sink) \<noteq> STATE_DISABLED then Some (False, s)
       else put_sink srp n (sink\<lparr>snk_reservation := (snk_reservation sink)\<lparr>stream_id := v\<rparr>\<rparr>) s })"

definition get_sink_format :: "nat \<Rightarrow> 'e mgr \<Rightarrow> (u8 \<times> int) option" where
  "get_sink_format n s = (if n \<ge> length (sinks s) then None
     else do { sink \<leftarrow> get_sink_info n s; Some (st_format (snk_stream sink), st_rate (snk_stream sink)) })"

definition set_sink_format :: "'e mgr srp_if \<Rightarrow> nat \<Rightarrow> u8 \<times> int \<Rightarrow> 'e mgr \<Rightarrow> (bool \<times> 'e mgr) option" where
  "set_sink_format srp n v s = (if n \<ge> length (sinks s) then Some (False, s)
     else do {
       sink \<leftarrow> get_sink_info n s;
       if st_state (snk_stream sink) \<noteq> STATE_DISABLED then Some (False, s)
       else put_sink srp n (sink\<lparr>snk_stream := (snk_stream sink)\<lparr>st_format := fst v, st_rate := snd v\<rparr>\<rparr>) s })"

definition get_sink_channels :: "nat \<Rightarrow> 'e mgr \<Rightarrow> u8 option" where
  "get_sink_channels n s = (if n \<ge> length (sinks s) then None
     else do { sink \<leftarrow> get_sink_info n s; Some (st_num_channels (snk_stream sink)) })"

definition set_sink_channels :: "'e mgr srp_if \<Rightarrow> nat \<Rightarrow> u8 \<Rightarrow> 'e mgr \<Rightarrow> (bool \<times> 'e mgr) option" where
  "set_sink_channels srp n v s = (if n \<ge> length (sinks s) then Some (False, s)
     else do {
       sink \<leftarrow> get_sink_info n s;
       if st_state (snk_stream sink) \<noteq> STATE_DISABLED then Some (False, s)
       else put_sink srp n (sink\<lparr>snk_stream := (snk_stream sink)\<lparr>st_num_channels := v\<rparr>\<rparr>) s })"

definition get_sink_sync :: "nat \<Rightarrow> 'e mgr \<Rightarrow> u8 option" where
  "get_sink_sync n s = (if n \<ge> length (sinks s) then None
     else do { sink \<leftarrow> get_sink_info n s; Some (st_sync (snk_stream sink)) })"

definition set_sink_sync :: "'e mgr srp_if \<Rightarrow> nat \<Rightarrow> u8 \<Rightarrow> 'e mgr \<Rightarrow> (bool \<times> 'e mgr) option" where
  "set_sink_sync srp n v s = (if n \<ge> length (sinks s) then Some (False, s)
     else do {
       sink \<leftarrow> get_sink_info n s;
       if st_state (snk_stream sink) \<noteq> STATE_DISABLED then Some (False, s)
       else put_sink srp n (sink\<lparr>snk_stream := (snk_stream sink)\<lparr>st_sync := v\<rparr>\<rparr>) s })"

definition get_sink_vlan :: "nat \<Rightarrow> 'e mgr \<Rightarrow> int option" where
  "get_sink_vlan n s = (if n \<ge> length (sinks s) then None
     else do { sink \<leftarrow> get_sink_info n s; Some (sint (vlan_id (snk_reservation sink))) })"

definition set_sink_vlan :: "'e mgr srp_if \<Rightarrow> nat \<Rightarrow> int \<Rightarrow> 'e mgr \<Rightarrow> (bool \<times> 'e mgr) option" where
  "set_sink_vlan srp n v s = (if n \<ge> length (sinks s) then Some (False, s)
     else do {
       sink \<leftarrow> get_sink_info n s;
       if st_state (snk_stream sink) \<noteq> STATE_DISABLED then Some (False, s)
       else put_sink srp n (sink\<lparr>snk_reservation := (snk_reservation sink)\<lparr>vlan_id := word_of_int v\<rparr>\<rparr>) s })"

definition get_sink_addr :: "nat \<Rightarrow> 'e mgr \<Rightarrow> bytes option" where
  "get_sink_addr n s = (if n \<ge> length (sinks s) then None
     else do { sink \<leftarrow> get_sink_info n s; read_block (dest_mac_addr (snk_reservation sink)) 0 6 })"

definition set_sink_addr :: "'e mgr srp_if \<Rightarrow> nat \<Rightarrow> bytes \<Rightarrow> 'e mgr \<Rightarrow> (bool \<times> 'e mgr) option" where
  "set_sink_addr srp n v s = (if n \<ge> length (sinks s) then Some (False, s)
     else do {
       sink \<leftarrow> get_sink_info n s;
       if st_state (snk_stream sink) \<noteq> STATE_DISABLED then Some (False, s)
       else if length v \<noteq> 6 then Some (False, s)
       else put_sink srp n (sink\<lparr>snk_reservation := (snk_reservation sink)\<lparr>dest_mac_addr := v\<rparr>\<rparr>) s })"

definition get_sink_state :: "nat \<Rightarrow> 'e mgr \<Rightarrow> stream_state option" where
  "get_sink_state n s = (if n \<ge> length (sinks s) then None
     else do { sink \<leftarrow> get_sink_info n s; Some (st_state (snk_stream sink)) })"

definition set_sink_state :: "'e mgr srp_if \<Rightarrow> nat \<Rightarrow> stream_state \<Rightarrow> 'e mgr \<Rightarrow> (bool \<times> 'e mgr) option" where
  "set_sink_state srp n v s = (if n \<ge> length (sinks s) then Some (False, s)
     else do {
       sink \<leftarrow> get_sink_info n s;
       put_sink srp n (sink\<lparr>snk_stream := (snk_stream sink)\<lparr>st_state := v\<rparr>\<rparr>) s })"

definition get_sink_map :: "nat \<Rightarrow> 'e mgr \<Rightarrow> int list option option" where
  "get_sink_map n s = (if n \<ge> length (sinks s) then Some None
     else do {
       sink \<leftarrow> get_sink_info n s;
       m \<leftarrow> read_block (snk_map sink) 0 (unat (st_num_channels (snk_stream sink)));
       Some (Some m) })"

definition set_sink_map :: "'e mgr srp_if \<Rightarrow> nat \<Rightarrow> int list \<Rightarrow> 'e mgr \<Rightarrow> (bool \<times> 'e mgr) option" where
  "set_sink_map srp n v s = (if n \<ge> length (sinks s) then Some (False, s)
     else do {
       sink \<leftarrow> get_sink_info n s;
       if length v > 8 then Some (False, s)
       else do {
         m \<leftarrow> copy_in (snk_map sink) 0 v;
         put_sink srp n (sink\<lparr>snk_map := m\<rparr>) s } })"

section \<open>Media clocks\<close>

definition put_clock :: "nat \<Rightarrow> media_clock_info \<Rightarrow> 'e mgr \<Rightarrow> (bool \<times> 'e mgr) option" where
  "put_clock n info s = do { s \<leftarrow> set_media_clock_info n info s; Some (True, s) }"

definition get_device_media_clock_rate :: "int \<Rightarrow> 'e mgr \<Rightarrow> int option option" where
  "get_device_media_clock_rate n s = (if n \<ge> int (length (clocks s)) then Some None
     else if n < 0 then None
     else do { info \<leftarrow> get_media_clock_info (nat n) s; Some (Some (mc_rate info)) })"

definition set_device_media_clock_rate :: "int \<Rightarrow> int \<Rightarrow> 'e mgr \<Rightarrow> (bool \<times> 'e mgr) option" where
  "set_device_media_clock_rate n v s = (if n \<ge> int (length (clocks s)) then Some (False, s)
     else if n < 0 then None
     else do { info \<leftarrow> get_media_clock_info (nat n) s; put_clock (nat n) (info\<lparr>mc_rate := v\<rparr>) s })"

definition get_device_media_clock_state :: "int \<Rightarrow> 'e mgr \<Rightarrow> bool option option" where
  "get_device_media_clock_state n s = (if n \<ge> int (length (clocks s)) then Some None
     else if n < 0 then None
     else do { info \<leftarrow> get_media_clock_info (nat n) s; Some (Some (mc_active info)) })"

definition set_device_media_clock_state :: "int \<Rightarrow> bool \<Rightarrow> 'e mgr \<Rightarrow> (bool \<times> 'e mgr) option" where
  "set_device_media_clock_state n v s = (if n \<ge> int (length (clocks s)) then Some (False, s)
     else if n < 0 then None
     else do { info \<leftarrow> get_media_clock_info (nat n) s; put_clock (nat n) (info\<lparr>mc_active := v\<rparr>) s })"

definition get_device_media_clock_source :: "int \<Rightarrow> 'e mgr \<Rightarrow> int option option" where
  "get_device_media_clock_source n s = (if n \<ge> int (length (clocks s)) then Some None
     else if n < 0 then None
     else do { info \<leftarrow> get_media_clock_info (nat n) s; Some (Some (mc_source info)) })"

definition set_device_media_clock_source :: "int \<Rightarrow> int \<Rightarrow> 'e mgr \<Rightarrow> (bool \<times> 'e mgr) option" where
  "set_device_media_clock_source n v s = (if n \<ge> int (length (clocks s)) then Some (False, s)
     else if n < 0 then None
     else do { info \<leftarrow> get_media_clock_info (nat n) s; put_clock (nat n) (info\<lparr>mc_source := v\<rparr>) s })"

definition get_device_media_clock_type :: "int \<Rightarrow> 'e mgr \<Rightarrow> device_media_clock_type option option" where
  "get_device_media_clock_type n s = (if n \<ge> int (length (clocks s)) then Some None
     else if n < 0 then None
     else do { info \<leftarrow> get_media_clock_info (nat n) s; Some (Some (mc_type info)) })"

definition set_device_media_clock_type :: "int \<Rightarrow> device_media_clock_type \<Rightarrow> 'e mgr \<Rightarrow> (bool \<times> 'e mgr) option" where
  "set_device_media_clock_type n v s = (if n \<ge> int (length (clocks s)) then Some (False, s)
     else if n < 0 then None
     else do { info \<leftarrow> get_media_clock_info (nat n) s; put_clock (nat n) (info\<lparr>mc_type := v\<rparr>) s })"

section \<open>Settings of an idle stream\<close>

locale guarded_setting =
  fixes get_setting :: "nat \<Rightarrow> 's \<Rightarrow> 'v option"
    and set_setting :: "nat \<Rightarrow> 'v \<Rightarrow> 's \<Rightarrow> (bool \<times> 's) option"
    and present :: "nat \<Rightarrow> 's \<Rightarrow> bool"
    and idle :: "nat \<Rightarrow> 's \<Rightarrow> bool"
  assumes absent: "\<not> present n s \<Longrightarrow> set_setting n v s = Some (False, s)"
    and busy: "present n s \<Longrightarrow> \<not> idle n s \<Longrightarrow> set_setting n v s = Some (False, s)"
    and stored: "present n s \<Longrightarrow> idle n s \<Longrightarrow> \<exists>s'. set_setting n v s = Some (True, s')
        \<and> get_setting n s' = Some v \<and> (\<forall>m. m \<noteq> n \<longrightarrow> get_setting m s' = get_setting m s)
        \<and> (\<forall>m. present m s' = present m s \<and> idle m s' = idle m s)"
begin

lemma set_total: "\<exists>b s'. set_setting n v s = Some (b, s')"
  using absent busy stored by metis

lemma get_after_set:
  assumes "set_setting n v s = Some (True, s')"
  shows "get_setting n s' = Some v"
  using assms absent [of n s v] busy [of n s v] stored [of n s v] by fastforce

lemma set_refused_iff:
  assumes "set_setting n v s = Some (b, s')"
  shows "b \<longleftrightarrow> present n s \<and> idle n s"
  using assms absent [of n s v] busy [of n s v] stored [of n s v] by fastforce

lemma refused_unchanged: "set_setting n v s = Some (False, s') \<Longrightarrow> s' = s"
  using absent [of n s v] busy [of n s v] stored [of n s v] by fastforce

lemma last_set_wins:
  assumes "set_setting n v s = Some (True, s1)"
  shows "\<exists>s2. set_setting n w s1 = Some (True, s2) \<and> get_setting n s2 = Some w"
proof -
  have "present n s" "idle n s" using set_refused_iff [OF assms] by auto
  with stored [of n s v] assms have "present n s1" "idle n s1" by auto
  with stored [of n s1 w] show ?thesis by auto
qed

end

definition source_present :: "nat \<Rightarrow> 'e mgr \<Rightarrow> bool" where
  "source_present n s \<longleftrightarrow> n < length (sources s)"

definition source_idle :: "nat \<Rightarrow> 'e mgr \<Rightarrow> bool" where
  "source_idle n s \<longleftrightarrow> st_state (src_stream (sources s ! n)) = STATE_DISABLED"

definition sink_present :: "nat \<Rightarrow> 'e mgr \<Rightarrow> bool" where
  "sink_present n s \<longleftrightarrow> n < length (sinks s)"

definition sink_idle :: "nat \<Rightarrow> 'e mgr \<Rightarrow> bool" where
  "sink_idle n s \<longleftrightarrow> st_state (snk_stream (sinks s ! n)) = STATE_DISABLED"

lemma put_source_idle:
  assumes "source_present n s" and "source_idle n s" and "st_state (src_stream x) = STATE_DISABLED"
  shows "put_source srp n x s = Some (True, s\<lparr>sources := (sources s)[n := x]\<rparr>)"
  using assms
  by (simp add: put_source_def set_source_info_def update_source_state_def source_present_def source_idle_def)

lemma put_sink_idle:
  assumes "sink_present n s" and "sink_idle n s" and "st_state (snk_stream x) = STATE_DISABLED"
  shows "put_sink srp n x s = Some (True, s\<lparr>sinks := (sinks s)[n := x]\<rparr>)"
  using assms
  by (simp add: put_sink_def set_sink_info_def update_sink_state_def sink_present_def sink_idle_def)

lemmas source_access = put_source_idle source_present_def source_idle_def get_source_info_def nth_list_update
lemmas sink_access = put_sink_idle sink_present_def sink_idle_def get_sink_info_def nth_list_update

interpretation source_format: guarded_setting get_source_format "set_source_format srp" source_present source_idle
  for srp :: "'e mgr srp_if"
  by unfold_locales (auto simp: get_source_format_def set_source_format_def source_access rd_def)

interpretation source_channels: guarded_setting get_source_channels "set_source_channels srp" source_present source_idle
  for srp :: "'e mgr srp_if"
  by unfold_locales (auto simp: get_source_channels_def set_source_channels_def source_access rd_def)

interpretation source_sync: guarded_setting get_source_sync "set_source_sync srp" source_present source_idle
  for srp :: "'e mgr srp_if"
  by unfold_locales (auto simp: get_source_sync_def set_source_sync_def source_access rd_def)

interpretation source_presentation: guarded_setting get_source_presentation "set_source_presentation srp" source_present source_idle
  for srp :: "'e mgr srp_if"
  by unfold_locales (auto simp: get_source_presentation_def set_source_presentation_def source_access rd_def)

interpretation sink_id: guarded_setting get_sink_id "set_sink_id srp" sink_present sink_idle
  for srp :: "'e mgr srp_if"
  by unfold_locales (auto simp: get_sink_id_def set_sink_id_def sink_access rd_def)

interpretation sink_format: guarded_setting get_sink_format "set_sink_format srp" sink_present sink_idle
  for srp :: "'e mgr srp_if"
  by unfold_locales (auto simp: get_sink_format_def set_sink_format_def sink_access rd_def)

interpretation sink_channels: guarded_setting get_sink_channels "set_sink_channels srp" sink_present sink_idle
  for srp :: "'e mgr srp_if"
  by unfold_locales (auto simp: get_sink_channels_def set_sink_channels_def sink_access rd_def)

interpretation sink_sync: guarded_setting get_sink_sync "set_sink_sync srp" sink_present sink_idle
  for srp :: "'e mgr srp_if"
  by unfold_locales (auto simp: get_sink_sync_def set_sink_sync_def sink_access rd_def)

section \<open>Starting and stopping a talker\<close>

lemma configure_talker_log:
  assumes "configure_talker_stream x n s = Some s'"
  shows "\<exists>mask m. ctl_log s' = ctl_log s @ [ConfigureTalker (talker_ctl x) (st_local_id (src_stream x))
      (st_format (src_stream x)) (dest_mac_addr (src_reservation x)) n (st_num_channels (src_stream x))
      mask m (st_rate (src_stream x)) (if src_presentation x \<noteq> 0 then src_presentation x
        else AVB_DEFAULT_PRESENTATION_TIME_DELAY_NS)] \<and> sources s' = sources s"
  using assms by (auto simp: configure_talker_stream_def emit_def bind_eq_Some_conv)

text \<open>The channel count of a source can be changed exactly while the source exists and is
  disabled; an accepted change is what the next read returns, a refused one changes nothing.\<close>

theorem source_channels_guarded:
  fixes srp :: "'e mgr srp_if"
  shows "\<exists>b s'. set_source_channels srp n v s = Some (b, s')
     \<and> (b \<longleftrightarrow> n < length (sources s) \<and> st_state (src_stream (sources s ! n)) = STATE_DISABLED)
     \<and> (if b then get_source_channels n s' = Some v else s' = s)"
proof -
  obtain b s' where r: "set_source_channels srp n v s = Some (b, s')"
    using source_channels.set_total by blast
  have "b \<longleftrightarrow> n < length (sources s) \<and> st_state (src_stream (sources s ! n)) = STATE_DISABLED"
    using source_channels.set_refused_iff [OF r] by (simp add: source_present_def source_idle_def)
  with r show ?thesis
    using source_channels.get_after_set [of srp n v s s'] source_channels.refused_unchanged [of srp n v s s']
    by (cases b) auto
qed

text \<open>Moving a source from potential to enabled configures its talker and then starts it, and
  moving it back from enabled to potential only stops it; neither calls the reservation
  task, which is the caller of both.\<close>

theorem talker_start_stop:
  assumes "n < length (sources s)"
  shows "(st_state (src_stream (sources s ! n)) = STATE_POTENTIAL
      \<longrightarrow> set_source_state srp n STATE_ENABLED s = Some (b, s')
      \<longrightarrow> b \<and> (\<exists>c. ctl_log s' = ctl_log s @ [c, TalkerGo (talker_ctl (sources s ! n))
            (st_local_id (src_stream (sources s ! n)))])
          \<and> get_source_state n s' = Some STATE_ENABLED)
    \<and> (st_state (src_stream (sources s ! n)) = STATE_ENABLED
      \<longrightarrow> (\<exists>t. set_source_state srp n STATE_POTENTIAL s = Some (True, t)
          \<and> ctl_log t = ctl_log s @ [TalkerStop (talker_ctl (sources s ! n))
            (st_local_id (src_stream (sources s ! n)))]
          \<and> get_source_state n t = Some STATE_POTENTIAL))"
  using assms
  by (auto simp: set_source_state_def put_source_def set_source_info_def update_source_state_def
      get_source_state_def get_source_info_def bind_eq_Some_conv emit_def Let_def
      dest!: configure_talker_log)

text \<open>A small configuration: two sources, one sink, two media inputs and outputs, one clock.\<close>

definition example_resv :: "u32 \<Rightarrow> avb_srp_info" where
  "example_resv k = \<lparr>stream_id = (0x00229700, k), dest_mac_addr = [0x91, 0xE0, 0xF0, 0, 0, 1],
     vlan_id = 2, tspec_max_frame_size = 56, tspec_max_interval = 1, tspec = 0x70,
     accumulated_latency = 150000, failure_bridge_id = replicate 8 0, failure_code = 0\<rparr>"

definition example_source :: "u32 \<Rightarrow> stream_state \<Rightarrow> avb_source_info" where
  "example_source k st = \<lparr>src_reservation = example_resv k,
     src_stream = \<lparr>st_state = st, st_tile_id = 0, st_local_id = 0, st_num_channels = 1, st_format = 0,
        st_rate = 48000, st_sync = 0, st_flags = 0\<rparr>,
     talker_ctl = 0, src_presentation = 0, src_map = [0, 1, 0, 0, 0, 0, 0, 0]\<rparr>"

definition example_sink :: "u32 \<Rightarrow> stream_state \<Rightarrow> avb_sink_info" where
  "example_sink k st = \<lparr>snk_reservation = example_resv k,
     snk_stream = \<lparr>st_state = st, st_tile_id = 0, st_local_id = 0, st_num_channels = 1, st_format = 0,
        st_rate = 48000, st_sync = 0, st_flags = 0\<rparr>,
     listener_ctl = 0, snk_map = [0, 1, 0, 0, 0, 0, 0, 0]\<rparr>"

definition example_mgr :: "stream_state \<Rightarrow> avb_state" where
  "example_mgr st = \<lparr>clk = (\<lambda>n. of_nat (n * 5000)), clk_reads = 0,
     sources = [example_source 1 st, example_source 2 STATE_DISABLED],
     sinks = [example_sink 7 STATE_DISABLED],
     inputs = replicate 2 \<lparr>mi_clk_ctl = 0, mi_fifo = 0, mi_mapped_to = UNMAPPED\<rparr>,
     outputs = replicate 2 \<lparr>mi_clk_ctl = 0, mi_fifo = 0, mi_mapped_to = UNMAPPED\<rparr>,
     clocks = [\<lparr>mc_active = True, mc_type = LOCAL_CLOCK, mc_source = 0, mc_rate = 48000,
        mc_lock_counter = 0, mc_unlock_counter = 0\<rparr>],
     ctl_log = [], num_ports = 1\<rparr>"

definition idle_srp :: "'e mgr srp_if" where
  "idle_srp = \<lparr>register_stream_request = (\<lambda>r s. Some (2, s)), deregister_stream_request = (\<lambda>i s. Some s),
     register_attach_request = (\<lambda>i v s. Some (v, s)), deregister_attach_request = (\<lambda>i s. Some s),
     leave_vlan = (\<lambda>v s. Some s)\<rparr>"

theorem talker_start_stop_witness:
  "\<exists>t. set_source_state idle_srp 0 STATE_POTENTIAL (example_mgr STATE_ENABLED) = Some (True, t)
     \<and> ctl_log t = [TalkerStop 0 0]"
  using talker_start_stop [of 0 "example_mgr STATE_ENABLED" idle_srp]
  by (auto simp: example_mgr_def example_source_def)

text \<open>An input that is mapped to a running source is released when another source that also
  names it is disabled, although that source never acquired it: the manager records the second
  source as potential even when its channel map was refused.\<close>

theorem refused_map_releases_input:
  "do { (b1, s1) \<leftarrow> set_source_state idle_srp 0 STATE_POTENTIAL (example_mgr STATE_DISABLED);
        (b2, s2) \<leftarrow> set_source_state idle_srp 1 STATE_POTENTIAL s1;
        (b3, s3) \<leftarrow> set_source_state idle_srp 1 STATE_DISABLED s2;
        Some (b1 \<and> b2 \<and> b3, mi_mapped_to (inputs s1 ! 0), ctl_log s2 = ctl_log s1,
              get_source_state 0 s3, mi_mapped_to (inputs s3 ! 0)) }
   = Some (True, 0, True, Some STATE_POTENTIAL, UNMAPPED)"
  by code_simp

end
