(* ===== verification/Net_Bytes.thy ===== *)
theory Net_Bytes
  imports Tsn_Prelude
begin

text \<open>
  Byte order. Models \<^verbatim>\<open>src/util/nettypes.h\<close> (the value-returning conversions on the network
  structs, here tuples or lists of their bytes) and \<^verbatim>\<open>src/1722/avb_1722_common.c\<close> (the
  conversions that store through a pointer, here functions giving the bytes stored).
  The host is little endian, so a 64-bit identifier kept as the byte array of a union lists
  its least significant byte first.

  The round trips are stated once, in the locale \<open>wire_format\<close>, and instantiated for each pair
  of conversions.
\<close>

section \<open>Conversions\<close>

definition hton16 :: "u16 \<Rightarrow> u8 \<times> u8" where
  "hton16 x = (ucast (drop_bit 8 x), ucast (x AND 0xff))"

definition ntoh16 :: "u8 \<times> u8 \<Rightarrow> u16" where
  "ntoh16 d = (case d of (d0, d1) \<Rightarrow> push_bit 8 (ucast d0) OR ucast d1)"

definition ntoh32 :: "u8 \<times> u8 \<times> u8 \<times> u8 \<Rightarrow> u32" where
  "ntoh32 d = (case d of (d0, d1, d2, d3) \<Rightarrow>
     push_bit 24 (ucast d0) OR push_bit 16 (ucast d1) OR push_bit 8 (ucast d2) OR ucast d3)"

definition hton32 :: "u32 \<Rightarrow> u8 \<times> u8 \<times> u8 \<times> u8" where
  "hton32 x = (ucast (drop_bit 24 x AND 0xff), ucast (drop_bit 16 x AND 0xff),
               ucast (drop_bit 8 x AND 0xff), ucast (drop_bit 0 x AND 0xff))"

definition ntoh64 :: "bytes \<Rightarrow> u64" where
  "ntoh64 d = foldl (\<lambda>ret b. push_bit 8 ret + ucast b) 0 (take 8 d)"

definition hton80 :: "bytes \<Rightarrow> bytes option" where
  "hton80 x = for_each [0..<10] (\<lambda>i ret. do { b \<leftarrow> rd x (9 - i); wr ret i b }) (replicate 10 0)"

definition ntoh_16 :: "u8 \<times> u8 \<Rightarrow> u16" where
  "ntoh_16 x = (case x of (x0, x1) \<Rightarrow> push_bit 8 (ucast x0) OR ucast x1)"

definition ntoh_32 :: "u8 \<times> u8 \<times> u8 \<times> u8 \<Rightarrow> u32" where
  "ntoh_32 x = (case x of (x0, x1, x2, x3) \<Rightarrow>
     push_bit 24 (ucast x0) OR push_bit 16 (ucast x1) OR push_bit 8 (ucast x2) OR ucast x3)"

definition get_64 :: "bytes \<Rightarrow> bytes \<Rightarrow> bytes option" where
  "get_64 g c = for_each [0..<8] (\<lambda>i g. do { b \<leftarrow> rd c i; wr g (7 - i) b }) g"

definition set_64 :: "bytes \<Rightarrow> bytes \<Rightarrow> bytes option" where
  "set_64 g c = for_each [0..<8] (\<lambda>i g. do { b \<leftarrow> rd c (7 - i); wr g i b }) g"

definition hton_16 :: "u16 \<Rightarrow> u8 \<times> u8" where
  "hton_16 v = (ucast (drop_bit 8 v AND 0xFF), ucast (v AND 0xFF))"

definition hton_32 :: "u32 \<Rightarrow> u8 \<times> u8 \<times> u8 \<times> u8" where
  "hton_32 v = (ucast (drop_bit 24 v), ucast (drop_bit 16 v), ucast (drop_bit 8 v), ucast v)"

definition hton_32_inline :: "u32 \<Rightarrow> u8 \<times> u8 \<times> u8 \<times> u8" where
  "hton_32_inline v =
     (ucast (drop_bit 24 v), ucast (drop_bit 16 v), ucast (drop_bit 8 v), ucast v)"

text \<open>
  \<^verbatim>\<open>byterev\<close> reverses the bytes of a word, and a word that is stored through a pointer has its bytes least significant first.
\<close>

definition le_bytes32 :: "u32 \<Rightarrow> bytes" where
  "le_bytes32 w = [ucast w, ucast (drop_bit 8 w), ucast (drop_bit 16 w), ucast (drop_bit 24 w)]"

definition byterev :: "u32 \<Rightarrow> u32" where
  "byterev w = push_bit 24 (w AND 0xff) OR push_bit 16 (drop_bit 8 w AND 0xff)
     OR push_bit 8 (drop_bit 16 w AND 0xff) OR drop_bit 24 w"

section \<open>Splitting and joining words\<close>

lemma bit_u8_beyond [simp]: "8 \<le> n \<Longrightarrow> \<not> bit (b :: u8) n"
  using bit_imp_le_length [of b n] by auto

lemma bit_u32_beyond [simp]: "32 \<le> n \<Longrightarrow> \<not> bit (w :: u32) n"
  using bit_imp_le_length [of w n] by auto

lemma mask8_ucast [simp]: "ucast (x AND 0xff) = (ucast (x :: 'a::len word) :: u8)"
proof -
  have "(0xff :: 'a word) = mask 8" by (simp add: mask_eq_exp_minus_1)
  moreover have "ucast (x AND mask 8) = (ucast x :: u8)"
    unfolding take_bit_eq_mask [symmetric] by (rule bit_word_eqI) (auto simp: bit_simps)
  ultimately show ?thesis by simp
qed

lemma join16_split: "push_bit 8 (ucast (ucast (drop_bit 8 x) :: u8)) OR ucast (ucast x :: u8) = (x :: u16)"
  by (rule bit_word_eqI) (auto simp: bit_simps)

lemma split16_join:
  "ucast (drop_bit 8 (push_bit 8 (ucast a) OR ucast (b :: u8) :: u16)) = (a :: u8)"
  "ucast (push_bit 8 (ucast a) OR ucast (b :: u8) :: u16) = b"
  by (rule bit_word_eqI, auto simp: bit_simps dest: bit_imp_le_length)+

lemma join32_split:
  "push_bit 24 (ucast (ucast (drop_bit 24 x) :: u8)) OR push_bit 16 (ucast (ucast (drop_bit 16 x) :: u8))
     OR push_bit 8 (ucast (ucast (drop_bit 8 x) :: u8)) OR ucast (ucast x :: u8) = (x :: u32)"
  (is "?l = x")
proof (rule bit_word_eqI)
  fix n assume "n < LENGTH(32)"
  then consider "n < 8" | "8 \<le> n" "n < 16" | "16 \<le> n" "n < 24" | "24 \<le> n" "n < 32"
    by fastforce
  then show "bit ?l n = bit x n" by cases (auto simp: bit_simps less_diff_conv2)
qed

lemma split32_join:
  fixes a b c d :: u8
  defines "w \<equiv> push_bit 24 (ucast a) OR push_bit 16 (ucast b) OR push_bit 8 (ucast c) OR ucast d :: u32"
  shows "ucast (drop_bit 24 w) = a" "ucast (drop_bit 16 w) = b"
    "ucast (drop_bit 8 w) = c" "ucast w = d"
  unfolding w_def
  by (rule bit_word_eqI, auto simp: bit_simps dest: bit_imp_le_length)+

lemma length_le_bytes32 [simp]: "length (le_bytes32 x) = 4"
  by (simp add: le_bytes32_def)

lemma le_bytes32_byterev:
  "le_bytes32 (byterev w) = [ucast (drop_bit 24 w), ucast (drop_bit 16 w), ucast (drop_bit 8 w), ucast w]"
proof -
  have m: "(0xff :: u32) = mask 8" by (simp add: mask_eq_exp_minus_1)
  show ?thesis
    unfolding le_bytes32_def byterev_def m
    by (intro arg_cong2 [where f = Cons] refl bit_word_eqI)
      (auto simp: bit_simps simp del: drop_bit_or push_bit_or)
qed

section \<open>A pair of mutually inverse conversions\<close>

locale wire_format =
  fixes enc :: "'a \<Rightarrow> 'b" and dec :: "'b \<Rightarrow> 'a"
  assumes dec_enc [simp]: "dec (enc x) = x"
    and enc_dec [simp]: "enc (dec y) = y"
begin

lemma enc_eq_iff: "enc x = enc y \<longleftrightarrow> x = y"
  by (metis dec_enc)

lemma dec_eq_iff: "dec x = dec y \<longleftrightarrow> x = y"
  by (metis enc_dec)

lemma enc_bij: "bij enc"
  by (metis bijI' dec_enc enc_dec)

end

interpretation net16: wire_format hton16 ntoh16
  by unfold_locales
    (auto simp: hton16_def ntoh16_def join16_split split16_join simp del: drop_bit_or split: prod.splits)

interpretation net32: wire_format hton32 ntoh32
  by unfold_locales
    (auto simp: hton32_def ntoh32_def join32_split split32_join simp del: drop_bit_or split: prod.splits)

interpretation ptr16: wire_format hton_16 ntoh_16
  by unfold_locales
    (auto simp: hton_16_def ntoh_16_def join16_split split16_join simp del: drop_bit_or split: prod.splits)

interpretation ptr32: wire_format hton_32 ntoh_32
  by unfold_locales
    (auto simp: hton_32_def ntoh_32_def join32_split split32_join simp del: drop_bit_or split: prod.splits)

lemma hton_32_inline_same: "hton_32_inline = hton_32"
  by (simp add: hton_32_inline_def hton_32_def fun_eq_iff)

section \<open>Byte reversal of 64-bit identifiers\<close>

lemma upt_8: "[0..<8] = [0, 1, 2, 3, 4, 5, 6, 7::nat]"
  by (simp add: upt_rec)

lemma length_8_conv:
  "length xs = 8 \<longleftrightarrow> (\<exists>a b c d e f g h. xs = [a, b, c, d, e, f, g, h])"
  by (auto simp: length_Suc_conv eval_nat_numeral)

lemma set_64_rev: "length c = 8 \<Longrightarrow> length g = 8 \<Longrightarrow> set_64 g c = Some (rev c)"
  by (auto simp: set_64_def upt_8 length_8_conv)

lemma get_64_rev: "length c = 8 \<Longrightarrow> length g = 8 \<Longrightarrow> get_64 g c = Some (rev c)"
  by (auto simp: get_64_def upt_8 length_8_conv)

text \<open>A 64-bit number as the bytes the wire carries, most significant first.\<close>

definition bytes64 :: "u64 \<Rightarrow> bytes" where
  "bytes64 x = map (\<lambda>i. ucast (drop_bit (8 * (7 - i)) x)) [0..<8]"

lemma length_bytes64 [simp]: "length (bytes64 x) = 8"
  by (simp add: bytes64_def)

lemma shift_in_byte: "push_bit 8 r + ucast (b :: u8) = push_bit 8 r OR (ucast b :: u64)"
  by (rule disjunctive_add_eq_or) (auto intro!: bit_word_eqI simp: bit_simps)

lemma ntoh64_unfold:
  "ntoh64 [a, b, c, d, e, f, g, h] =
     push_bit 56 (ucast a) OR push_bit 48 (ucast b) OR push_bit 40 (ucast c)
     OR push_bit 32 (ucast d) OR push_bit 24 (ucast e) OR push_bit 16 (ucast f)
     OR push_bit 8 (ucast g) OR ucast h"
  by (simp add: ntoh64_def shift_in_byte push_bit_or or.assoc)

lemma ntoh64_bytes64: "ntoh64 (bytes64 x) = x"
proof (rule bit_word_eqI)
  fix n assume "n < LENGTH(64)"
  then consider "n < 8" | "8 \<le> n" "n < 16" | "16 \<le> n" "n < 24" | "24 \<le> n" "n < 32"
    | "32 \<le> n" "n < 40" | "40 \<le> n" "n < 48" | "48 \<le> n" "n < 56" | "56 \<le> n" "n < 64"
    by fastforce
  then show "bit (ntoh64 (bytes64 x)) n = bit x n"
    unfolding bytes64_def upt_8 list.map ntoh64_unfold
    by cases (auto simp: bit_simps less_diff_conv2)
qed

lemma bytes64_ntoh64: "length bs = 8 \<Longrightarrow> bytes64 (ntoh64 bs) = bs"
proof -
  have "ucast (drop_bit (8 * (7 - i)) (ntoh64 bs)) = bs ! i" if "length bs = 8" "i < 8" for i
  proof (rule bit_word_eqI)
    from that(2) have i: "i = 0 \<or> i = 1 \<or> i = 2 \<or> i = 3 \<or> i = 4 \<or> i = 5 \<or> i = 6 \<or> i = 7"
      by auto
    fix n assume "n < LENGTH(8)"
    with i that(1) show "bit (ucast (drop_bit (8 * (7 - i)) (ntoh64 bs)) :: u8) n = bit (bs ! i) n"
      unfolding length_8_conv
      by (auto simp: ntoh64_unfold bit_simps simp del: drop_bit_or)
  qed
  moreover assume "length bs = 8"
  ultimately show ?thesis by (simp add: bytes64_def list_eq_iff_nth_eq)
qed

lemma hton80_rev: "length x = 10 \<Longrightarrow> hton80 x = Some (rev x)"
  by (auto simp: hton80_def upt_rec eval_nat_numeral length_Suc_conv)

end
