(* ===== verification/Mrp_Types.thy ===== *)
theory Mrp_Types
  imports Avb_Api Net_Bytes
begin

text \<open>
  Data of the reservation protocols: the enumerations and the attribute record of
  \<^verbatim>\<open>src/srp/avb_mrp_types.h\<close>, the PDU layout of \<^verbatim>\<open>avb_mrp_pdu.h\<close> and \<^verbatim>\<open>avb_srp_pdu.h\<close>, the stream
  table entry of \<^verbatim>\<open>avb_srp.h\<close>, and the one state record \<open>mrp_state\<close> that gathers the static
  variables of \<^verbatim>\<open>avb_mrp.c\<close>, \<^verbatim>\<open>avb_srp.c\<close> and \<^verbatim>\<open>avb_mvrp.c\<close> on top of the manager's state.

  A pointer to an attribute is its index in \<open>attrs\<close>, with \<open>None\<close> for the null pointer. The untyped
  \<^verbatim>\<open>attribute_info\<close> pointer is the datatype \<open>attribute_info\<close>: null, an entry of the stream table,
  or the \<^verbatim>\<open>vlan\<close> field of an entry of the MVRP table. \<^verbatim>\<open>MRP_MAX_ATTRS\<close>,
  \<^verbatim>\<open>AVB_STREAM_TABLE_ENTRIES\<close> and the number of MVRP entries are the lengths of the arrays, and
  \<^verbatim>\<open>MRP_NUM_PORTS\<close> is the field \<open>num_ports\<close>, so that both the one-port and the two-port variants of
  the conditionally compiled code are covered.
\<close>

section \<open>Enumerations\<close>

datatype mrp_applicant_state =
    MRP_UNUSED | MRP_DISABLED | MRP_VO | MRP_VP | MRP_VN | MRP_AN | MRP_AA | MRP_QA
  | MRP_LA | MRP_AO | MRP_QO | MRP_AP | MRP_QP | MRP_LO

datatype mrp_registrar_state = MRP_IN | MRP_LV | MRP_MT

datatype mrp_event =
    MRP_EVENT_BEGIN | MRP_EVENT_NEW | MRP_EVENT_FLUSH | MRP_EVENT_JOIN | MRP_EVENT_LV
  | MRP_EVENT_RECEIVE_NEW | MRP_EVENT_RECEIVE_JOININ | MRP_EVENT_RECEIVE_IN
  | MRP_EVENT_RECEIVE_JOINMT | MRP_EVENT_RECEIVE_MT | MRP_EVENT_RECEIVE_LEAVE
  | MRP_EVENT_RECEIVE_LEAVE_ALL | MRP_EVENT_REDECLARE | MRP_EVENT_PERIODIC | MRP_EVENT_TX
  | MRP_EVENT_TX_LEAVE_ALL | MRP_EVENT_TX_LEAVE_ALL_FULL | MRP_EVENT_LEAVETIMER | MRP_EVENT_DUMMY

datatype mrp_attribute_type =
    MSRP_TALKER_ADVERTISE | MSRP_TALKER_FAILED | MSRP_LISTENER | MSRP_DOMAIN_VECTOR
  | MMRP_MAC_VECTOR | MVRP_VID_VECTOR

datatype mrp_attribute_event =
    MRP_ATTRIBUTE_EVENT_NEW | MRP_ATTRIBUTE_EVENT_JOININ | MRP_ATTRIBUTE_EVENT_IN
  | MRP_ATTRIBUTE_EVENT_JOINMT | MRP_ATTRIBUTE_EVENT_MT | MRP_ATTRIBUTE_EVENT_LV

fun attr_event_code :: "mrp_attribute_event \<Rightarrow> nat" where
  "attr_event_code MRP_ATTRIBUTE_EVENT_NEW = 0"
| "attr_event_code MRP_ATTRIBUTE_EVENT_JOININ = 1"
| "attr_event_code MRP_ATTRIBUTE_EVENT_IN = 2"
| "attr_event_code MRP_ATTRIBUTE_EVENT_JOINMT = 3"
| "attr_event_code MRP_ATTRIBUTE_EVENT_MT = 4"
| "attr_event_code MRP_ATTRIBUTE_EVENT_LV = 5"

fun attr_type_code :: "mrp_attribute_type \<Rightarrow> nat" where
  "attr_type_code MSRP_TALKER_ADVERTISE = 0"
| "attr_type_code MSRP_TALKER_FAILED = 1"
| "attr_type_code MSRP_LISTENER = 2"
| "attr_type_code MSRP_DOMAIN_VECTOR = 3"
| "attr_type_code MMRP_MAC_VECTOR = 4"
| "attr_type_code MVRP_VID_VECTOR = 5"

lemma attr_type_code_inj: "attr_type_code a = attr_type_code b \<longleftrightarrow> a = b"
  by (cases a; cases b) simp_all

instantiation mrp_attribute_type :: linorder
begin

definition less_eq_mrp_attribute_type :: "mrp_attribute_type \<Rightarrow> mrp_attribute_type \<Rightarrow> bool" where
  "less_eq_mrp_attribute_type a b \<longleftrightarrow> attr_type_code a \<le> attr_type_code b"

definition less_mrp_attribute_type :: "mrp_attribute_type \<Rightarrow> mrp_attribute_type \<Rightarrow> bool" where
  "less_mrp_attribute_type a b \<longleftrightarrow> attr_type_code a < attr_type_code b"

instance
  by standard
    (auto simp: less_eq_mrp_attribute_type_def less_mrp_attribute_type_def attr_type_code_inj)

end

section \<open>Layout of the PDUs\<close>

text \<open>Sizes and offsets of the packed structs, in bytes.\<close>

definition ETH_HDR :: nat where "ETH_HDR = 14"
definition MRP_HDR :: nat where "MRP_HDR = 1"
definition MSG_HDR :: nat where "MSG_HDR = 4"
definition VEC_HDR :: nat where "VEC_HDR = 2"
definition FOOTER :: nat where "FOOTER = 2"

fun first_value_lengths :: "mrp_attribute_type \<Rightarrow> nat" where
  "first_value_lengths MSRP_TALKER_ADVERTISE = 25"
| "first_value_lengths MSRP_TALKER_FAILED = 34"
| "first_value_lengths MSRP_LISTENER = 8"
| "first_value_lengths MSRP_DOMAIN_VECTOR = 4"
| "first_value_lengths MMRP_MAC_VECTOR = 6"
| "first_value_lengths MVRP_VID_VECTOR = 2"

definition MRP_SEND_BUFFER_SIZE :: nat where "MRP_SEND_BUFFER_SIZE = 500"

definition MAX_MRP_MSG_SIZE :: nat where
  "MAX_MRP_MSG_SIZE = MSG_HDR + first_value_lengths MSRP_TALKER_ADVERTISE + 1 + FOOTER"

definition AVB_SRP_ETHERTYPE :: nat where "AVB_SRP_ETHERTYPE = 0x22ea"
definition AVB_MVRP_ETHERTYPE :: nat where "AVB_MVRP_ETHERTYPE = 0x88f5"

definition srp_dest_mac :: bytes where "srp_dest_mac = [0x01, 0x80, 0xc2, 0x00, 0x00, 0x0e]"
definition mvrp_dest_mac :: bytes where "mvrp_dest_mac = [0x01, 0x80, 0xc2, 0x00, 0x00, 0x21]"

definition AVB_SRP_FOUR_PACKED_EVENT_IGNORE :: nat where "AVB_SRP_FOUR_PACKED_EVENT_IGNORE = 0"
definition AVB_SRP_FOUR_PACKED_EVENT_ASKING_FAILED :: nat where
  "AVB_SRP_FOUR_PACKED_EVENT_ASKING_FAILED = 1"
definition AVB_SRP_FOUR_PACKED_EVENT_READY :: nat where "AVB_SRP_FOUR_PACKED_EVENT_READY = 2"
definition AVB_SRP_FOUR_PACKED_EVENT_READY_FAILED :: nat where
  "AVB_SRP_FOUR_PACKED_EVENT_READY_FAILED = 3"

definition AVB_SRP_SRCLASS_DEFAULT :: u8 where "AVB_SRP_SRCLASS_DEFAULT = 6"
definition AVB_SRP_TSPEC_PRIORITY_DEFAULT :: u8 where "AVB_SRP_TSPEC_PRIORITY_DEFAULT = 3"
definition AVB_DEFAULT_VLAN :: u32 where "AVB_DEFAULT_VLAN = 2"

definition PENDING_JOIN_NEW :: u16 where "PENDING_JOIN_NEW = 0x01"
definition PENDING_JOIN :: u16 where "PENDING_JOIN = 0x02"
definition PENDING_LEAVE :: u16 where "PENDING_LEAVE = 0x04"

definition MRP_JOINTIMER_PERIOD_CENTISECONDS :: u32 where "MRP_JOINTIMER_PERIOD_CENTISECONDS = 20"
definition MRP_LEAVETIMER_PERIOD_CENTISECONDS :: u32 where "MRP_LEAVETIMER_PERIOD_CENTISECONDS = 80"
definition MRP_LEAVEALL_TIMER_PERIOD_CENTISECONDS :: u32 where
  "MRP_LEAVEALL_TIMER_PERIOD_CENTISECONDS = 1000"
definition MRP_LEAVEALL_TIMER_MULTIPLIER :: nat where "MRP_LEAVEALL_TIMER_MULTIPLIER = 100"
definition MRP_PERIODIC_TIMER_PERIOD_CENTISECONDS :: u32 where
  "MRP_PERIODIC_TIMER_PERIOD_CENTISECONDS = 100"
definition MRP_PERIODIC_TIMER_MULTIPLIER :: nat where "MRP_PERIODIC_TIMER_MULTIPLIER = 10"

section \<open>State\<close>

datatype attribute_info = InfoNull | InfoStream nat | InfoVlan nat

record mrp_attribute_state =
  port_num :: nat
  attribute_type :: mrp_attribute_type
  applicant_state :: mrp_applicant_state
  remove_after_next_tx :: bool
  registrar_state :: mrp_registrar_state
  leaveTimer :: avb_timer
  pending_indications :: u16
  four_vector_parameter :: nat
  next_attr :: "nat option"
  here :: bool
  propagated :: bool
  attribute_info :: attribute_info

record avb_stream_entry =
  reservation :: avb_srp_info
  listener_present :: bool
  talker_present :: bool
  bw_reserved :: "bool list"
  reservation_failed :: bool

record mvrp_entry =
  mv_active :: bool
  mv_attr :: "nat option"
  mv_vlan :: int

record mrp_state = avb_state +
  send_buf :: bytes
  attrs :: "mrp_attribute_state list"
  first_attr :: "nat option"
  send_ptr :: nat
  current_etype :: int
  periodic_timer :: "avb_timer list"
  joinTimer :: "avb_timer list"
  msrp_leaveall_timer :: "avb_timer list"
  mvrp_leaveall_timer :: "avb_timer list"
  msrp_leaveall_active :: "bool list"
  mvrp_leaveall_active :: "bool list"
  stream_table :: "avb_stream_entry list"
  port_bandwidth :: "u32 list"
  domain_attr :: "nat option list"
  srp_domain_boundary_port :: "bool list"
  current_vlan_id_from_domain :: u32
  mvrp_entries :: "mvrp_entry list"
  max_num_vlan :: nat
  tx_log :: "(bytes \<times> nat) list"

type_synonym ms = mrp_state

definition put_attr :: "nat \<Rightarrow> (mrp_attribute_state \<Rightarrow> mrp_attribute_state) \<Rightarrow> ms \<Rightarrow> ms option" where
  "put_attr j f s = do { a \<leftarrow> rd (attrs s) j; Some (s\<lparr>attrs := (attrs s)[j := f a]\<rparr>) }"

definition opposite_port :: "nat \<Rightarrow> nat" where
  "opposite_port p = (if p = 0 then 1 else 0)"

text \<open>The stream table entry an attribute points to; a fault for any other pointer.\<close>

definition stream_of :: "ms \<Rightarrow> attribute_info \<Rightarrow> (nat \<times> avb_stream_entry) option" where
  "stream_of s i = (case i of InfoStream k \<Rightarrow> do { e \<leftarrow> rd (stream_table s) k; Some (k, e) } | _ \<Rightarrow> None)"

definition put_stream :: "nat \<Rightarrow> (avb_stream_entry \<Rightarrow> avb_stream_entry) \<Rightarrow> ms \<Rightarrow> ms option" where
  "put_stream k f s = do { e \<leftarrow> rd (stream_table s) k; Some (s\<lparr>stream_table := (stream_table s)[k := f e]\<rparr>) }"

section \<open>Memory at start-up\<close>

definition zero_srp_info :: avb_srp_info where
  "zero_srp_info = \<lparr>stream_id = (0, 0), dest_mac_addr = replicate 6 0, vlan_id = 0,
     tspec_max_frame_size = 0, tspec_max_interval = 0, tspec = 0, accumulated_latency = 0,
     failure_bridge_id = replicate 8 0, failure_code = 0\<rparr>"

definition zero_stream_entry :: "nat \<Rightarrow> avb_stream_entry" where
  "zero_stream_entry ports = \<lparr>reservation = zero_srp_info, listener_present = False,
     talker_present = False, bw_reserved = replicate ports False, reservation_failed = False\<rparr>"

text \<open>
  Static variables start as zero bytes, except \<open>first_attr\<close> and \<open>send_ptr\<close>, which have initialisers. The sizes of
  the arrays are the configuration: \<open>boot_memory ports n k v time\<close> has \<open>n\<close> attributes, \<open>k\<close> stream
  table entries and \<open>v\<close> MVRP entries per port, and the clock that reads \<open>time\<close>.
\<close>

definition zero_timer :: avb_timer where
  "zero_timer = \<lparr>tmr_timeout = 0, tmr_period = 0, tmr_active = 0, tmr_multiplier = 0\<rparr>"

definition zero_attr :: mrp_attribute_state where
  "zero_attr = \<lparr>port_num = 0, attribute_type = MSRP_TALKER_ADVERTISE, applicant_state = MRP_UNUSED,
     remove_after_next_tx = False, registrar_state = MRP_IN, leaveTimer = zero_timer,
     pending_indications = 0, four_vector_parameter = 0, next_attr = None, here = False,
     propagated = False, attribute_info = InfoNull\<rparr>"

definition boot_memory :: "nat \<Rightarrow> nat \<Rightarrow> nat \<Rightarrow> nat \<Rightarrow> (nat \<Rightarrow> u32) \<Rightarrow> ms" where
  "boot_memory ports n k v time =
     \<lparr>clk = time, clk_reads = 0,
      sources = [], sinks = [], inputs = [], outputs = [], clocks = [], ctl_log = [], num_ports = ports,
      send_buf = replicate MRP_SEND_BUFFER_SIZE 0, attrs = replicate n zero_attr, first_attr = Some 0,
      send_ptr = ETH_HDR + MRP_HDR, current_etype = 0,
      periodic_timer = replicate ports zero_timer, joinTimer = replicate ports zero_timer,
      msrp_leaveall_timer = replicate ports zero_timer, mvrp_leaveall_timer = replicate ports zero_timer,
      msrp_leaveall_active = replicate ports False, mvrp_leaveall_active = replicate ports False,
      stream_table = replicate k (zero_stream_entry ports), port_bandwidth = replicate ports 0,
      domain_attr = replicate ports None, srp_domain_boundary_port = replicate ports False,
      current_vlan_id_from_domain = 0,
      mvrp_entries = replicate (ports * v) \<lparr>mv_active = False, mv_attr = None, mv_vlan = 0\<rparr>,
      max_num_vlan = v, tx_log = []\<rparr>"

end
