(* ===== verification/Mrp_Pdu.thy ===== *)
theory Mrp_Pdu
  imports Mrp_Types
begin

text \<open>
  Building and sending MRP PDUs: the part of \<^verbatim>\<open>src/srp/avb_mrp.c\<close> that works on \<^verbatim>\<open>send_buf\<close>. A
  \<^verbatim>\<open>char *\<close> into the send buffer is an offset; a write outside its 500 bytes is a fault.
  Transmission appends the frame and its port to \<open>tx_log\<close>.
\<close>

section \<open>Model\<close>

definition body_start :: nat where
  "body_start = ETH_HDR + MRP_HDR"

definition put_bytes :: "nat \<Rightarrow> bytes \<Rightarrow> ms \<Rightarrow> ms option" where
  "put_bytes i bs s = do { b \<leftarrow> copy_in (send_buf s) i bs; Some (s\<lparr>send_buf := b\<rparr>) }"

definition pair_list :: "u8 \<times> u8 \<Rightarrow> bytes" where
  "pair_list p = [fst p, snd p]"

definition configure_send_buffer :: "bytes \<Rightarrow> u16 \<Rightarrow> ms \<Rightarrow> ms option" where
  "configure_send_buffer addr etype s = do {
     s \<leftarrow> put_bytes 0 (take 6 addr) s;
     s \<leftarrow> put_bytes 12 [ucast (drop_bit 8 etype), ucast (etype AND 0xff)] s;
     Some (s\<lparr>current_etype := sint etype\<rparr>)
   }"

definition attribute_list_length :: "bytes \<Rightarrow> nat \<Rightarrow> nat option" where
  "attribute_list_length buf hdr = do {
     hi \<leftarrow> rd buf (hdr + 2);
     lo \<leftarrow> rd buf (hdr + 3);
     Some (unat hi * 256 + unat lo)
   }"

text \<open>\<open>for (c = a; c < e; ++c) *c = *(c+2)\<close>\<close>

definition shift_down_2 :: "nat \<Rightarrow> nat \<Rightarrow> bytes \<Rightarrow> bytes option" where
  "shift_down_2 a e buf = for_each [a..<e] (\<lambda>c buf. do { x \<leftarrow> rd buf (c + 2); wr buf c x }) buf"

partial_function (option) strip_loop :: "nat \<Rightarrow> nat \<Rightarrow> bytes \<Rightarrow> (nat \<times> bytes) option" where
  "strip_loop msg e buf =
     (if msg < e then do {
        m0 \<leftarrow> rd buf msg;
        m1 \<leftarrow> (if m0 \<noteq> 0 then Some 1 else rd buf (msg + 1));
        if m0 \<noteq> 0 \<or> m1 \<noteq> 0 then do {
          al \<leftarrow> attribute_list_length buf msg;
          let nxt = msg + MSG_HDR + al;
          buf \<leftarrow> shift_down_2 (msg + 2) (e - 2) buf;
          strip_loop (nxt - 2) (e - 2) buf
        } else Some (e, buf)
      } else Some (e, buf))"

definition strip_attribute_list_length_fields :: "ms \<Rightarrow> ms option" where
  "strip_attribute_list_length_fields s =
     (if current_etype s \<noteq> int AVB_SRP_ETHERTYPE then do {
        (e, buf) \<leftarrow> strip_loop body_start (send_ptr s) (send_buf s);
        Some (s\<lparr>send_buf := buf, send_ptr := e\<rparr>)
      } else Some s)"

definition force_send :: "nat \<Rightarrow> ms \<Rightarrow> ms option" where
  "force_send ifnum s = do {
     let ptr = send_ptr s;
     s \<leftarrow> strip_attribute_list_length_fields s;
     s \<leftarrow> (if ptr \<noteq> body_start then do {
            let e = (if ptr + 4 < 64 then 64 else ptr + 4);
            s \<leftarrow> put_bytes ptr (replicate (e - ptr) 0) s;
            frame \<leftarrow> read_block (send_buf s) 0 e;
            Some (s\<lparr>tx_log := tx_log s @ [(frame, ifnum)]\<rparr>)
          } else Some s);
     Some (s\<lparr>send_ptr := body_start\<rparr>)
   }"

definition mrp_send :: "nat \<Rightarrow> ms \<Rightarrow> ms option" where
  "mrp_send ifnum s =
     (if MRP_SEND_BUFFER_SIZE < send_ptr s + MAX_MRP_MSG_SIZE + FOOTER then force_send ifnum s
      else Some s)"

definition makeTxEvent :: "mrp_attribute_state \<Rightarrow> bool \<Rightarrow> mrp_attribute_event" where
  "makeTxEvent st leave_all =
     (if applicant_state st \<in> {MRP_VP, MRP_AA, MRP_AP, MRP_QA, MRP_QP} then
        (if leave_all \<and> applicant_state st = MRP_VP then
           (case registrar_state st of MRP_IN \<Rightarrow> MRP_ATTRIBUTE_EVENT_IN | _ \<Rightarrow> MRP_ATTRIBUTE_EVENT_MT)
         else if leave_all \<or> applicant_state st \<noteq> MRP_QP then
           (case registrar_state st of MRP_IN \<Rightarrow> MRP_ATTRIBUTE_EVENT_JOININ | _ \<Rightarrow> MRP_ATTRIBUTE_EVENT_JOINMT)
         else MRP_ATTRIBUTE_EVENT_NEW)
      else if applicant_state st \<in> {MRP_VN, MRP_AN} then MRP_ATTRIBUTE_EVENT_NEW
      else if applicant_state st = MRP_LA then MRP_ATTRIBUTE_EVENT_LV
      else if applicant_state st = MRP_LO then
        (case registrar_state st of MRP_IN \<Rightarrow> MRP_ATTRIBUTE_EVENT_IN | _ \<Rightarrow> MRP_ATTRIBUTE_EVENT_MT)
      else MRP_ATTRIBUTE_EVENT_NEW)"

definition decode_attr_type :: "nat \<Rightarrow> u8 \<Rightarrow> mrp_attribute_type option" where
  "decode_attr_type etype atype =
     (if etype = AVB_SRP_ETHERTYPE then
        (if atype = 1 then Some MSRP_TALKER_ADVERTISE
         else if atype = 2 then Some MSRP_TALKER_FAILED
         else if atype = 3 then Some MSRP_LISTENER
         else if atype = 4 then Some MSRP_DOMAIN_VECTOR
         else None)
      else if etype = AVB_MVRP_ETHERTYPE then
        (if atype = 1 then Some MVRP_VID_VECTOR else None)
      else None)"

fun encode_attr_type :: "mrp_attribute_type \<Rightarrow> u8" where
  "encode_attr_type MSRP_TALKER_ADVERTISE = 1"
| "encode_attr_type MSRP_TALKER_FAILED = 2"
| "encode_attr_type MSRP_LISTENER = 3"
| "encode_attr_type MSRP_DOMAIN_VECTOR = 4"
| "encode_attr_type MMRP_MAC_VECTOR = 2"
| "encode_attr_type MVRP_VID_VECTOR = 1"

definition has_fourpacked_events :: "mrp_attribute_type option \<Rightarrow> bool" where
  "has_fourpacked_events attr \<longleftrightarrow> attr = Some MSRP_LISTENER"

definition encode_three_packed :: "nat \<Rightarrow> nat \<Rightarrow> nat \<Rightarrow> nat" where
  "encode_three_packed event i vector = vector + ((\<lambda>e. e * 6) ^^ (2 - i)) event"

definition encode_four_packed :: "nat \<Rightarrow> nat \<Rightarrow> nat \<Rightarrow> nat" where
  "encode_four_packed event i vector = vector + ((\<lambda>e. e * 4) ^^ (3 - i)) event"

definition decode_threepacked :: "nat \<Rightarrow> nat \<Rightarrow> nat" where
  "decode_threepacked vector i = ((\<lambda>v. v div 6) ^^ (2 - i)) vector mod 6"

definition decode_fourpacked :: "nat \<Rightarrow> nat \<Rightarrow> nat" where
  "decode_fourpacked vector i = ((\<lambda>v. v div 4) ^^ (3 - i)) vector mod 4"

text \<open>
  Opening a gap of one zero byte at \<open>vector\<close>, then updating the list length and the end mark of the
  message at \<open>buf\<close>: the common part of the two event encoders.
\<close>

definition insert_vector_byte :: "nat \<Rightarrow> nat \<Rightarrow> ms \<Rightarrow> ms option" where
  "insert_vector_byte buf vector s = do {
     al \<leftarrow> attribute_list_length (send_buf s) buf;
     s \<leftarrow> (if send_ptr s > vector then do {
            blk \<leftarrow> read_block (send_buf s) vector (send_ptr s - vector);
            put_bytes (vector + 1) blk s
          } else Some s);
     let s = s\<lparr>send_ptr := send_ptr s + 1\<rparr>;
     s \<leftarrow> put_bytes vector [0] s;
     let al = al + 1;
     s \<leftarrow> put_bytes (buf + 2) (pair_list (hton_16 (of_nat al))) s;
     put_bytes (buf + MSG_HDR + al - 2) [0, 0] s
   }"

definition mrp_encode_three_packed_event ::
    "nat \<Rightarrow> nat \<Rightarrow> mrp_attribute_type \<Rightarrow> ms \<Rightarrow> ms option" where
  "mrp_encode_three_packed_event buf event attr s = do {
     nv \<leftarrow> rd (send_buf s) (buf + MSG_HDR + 1);
     let num_values = unat nv;
     let vector = buf + MSG_HDR + VEC_HDR + first_value_lengths attr + num_values div 3;
     s \<leftarrow> (if num_values mod 3 = 0 then insert_vector_byte buf vector s else Some s);
     v \<leftarrow> rd (send_buf s) vector;
     put_bytes vector [of_nat (encode_three_packed event (num_values mod 3) (unat v))] s
   }"

definition mrp_encode_four_packed_event ::
    "nat \<Rightarrow> nat \<Rightarrow> mrp_attribute_type \<Rightarrow> ms \<Rightarrow> ms option" where
  "mrp_encode_four_packed_event buf event attr s = do {
     nv \<leftarrow> rd (send_buf s) (buf + MSG_HDR + 1);
     let num_values = unat nv;
     let vector = buf + MSG_HDR + VEC_HDR + first_value_lengths attr + (num_values + 3) div 3 + num_values div 4;
     s \<leftarrow> (if num_values mod 4 = 0 then insert_vector_byte buf vector s else Some s);
     v \<leftarrow> rd (send_buf s) vector;
     put_bytes vector [of_nat (encode_four_packed event (num_values mod 4) (unat v))] s
   }"

definition create_empty_msg :: "mrp_attribute_type \<Rightarrow> bool \<Rightarrow> ms \<Rightarrow> ms option" where
  "create_empty_msg attr leave_all s = do {
     let hdr = send_ptr s;
     let first_value_length = first_value_lengths attr;
     let attr_list_length = first_value_length + VEC_HDR + 0 + FOOTER;
     let msg_length = MSG_HDR + attr_list_length;
     s \<leftarrow> put_bytes hdr (replicate msg_length 0) s;
     s \<leftarrow> put_bytes hdr [encode_attr_type attr, of_nat first_value_length] s;
     s \<leftarrow> put_bytes (hdr + 2) (pair_list (hton_16 (of_nat attr_list_length))) s;
     s \<leftarrow> put_bytes (hdr + MSG_HDR) [if leave_all then 0x20 else 0, 0] s;
     Some (s\<lparr>send_ptr := send_ptr s + msg_length\<rparr>)
   }"

section \<open>Packed events\<close>

text \<open>
  A byte holds \<open>width\<close> digits in base \<open>radix\<close>, most significant first: three-packed events are base 6,
  four-packed base 4. The encoder adds one digit to a partly filled byte.
\<close>

definition horner :: "nat \<Rightarrow> nat list \<Rightarrow> nat" where
  "horner b es = foldl (\<lambda>v e. v * b + e) 0 es"

lemma horner_snoc [simp]: "horner b (es @ [e]) = horner b es * b + e"
  by (simp add: horner_def)

lemma horner_Nil [simp]: "horner b [] = 0"
  by (simp add: horner_def)

lemma horner_bound: "\<forall>e \<in> set es. e < b \<Longrightarrow> horner b es < b ^ length es"
proof (induction es rule: rev_induct)
  case (snoc e es)
  then have "horner b es + 1 \<le> b ^ length es" "e < b" by auto
  then have "(horner b es + 1) * b \<le> b ^ length es * b" by (intro mult_le_mono1)
  with \<open>e < b\<close> show ?case by (simp add: mult.commute)
qed simp

lemma horner_digit:
  assumes "\<forall>e \<in> set es. e < b" and "i < length es"
  shows "horner b es div b ^ (length es - 1 - i) mod b = es ! i"
  using assms
proof (induction es arbitrary: i rule: rev_induct)
  case (snoc e es)
  show ?case
  proof (cases "i = length es")
    case True with snoc.prems show ?thesis by simp
  next
    case False
    with snoc.prems have i: "i < length es" by simp
    then have "length (es @ [e]) - 1 - i = Suc (length es - 1 - i)" by simp
    moreover have "e < b" using snoc.prems by simp
    ultimately show ?thesis using snoc.IH [OF _ i] snoc.prems i
      by (simp add: div_mult2_eq nth_append)
  qed
qed simp

locale packed_events =
  fixes enc :: "nat \<Rightarrow> nat \<Rightarrow> nat \<Rightarrow> nat" and dec :: "nat \<Rightarrow> nat \<Rightarrow> nat"
    and radix :: nat and width :: nat
  assumes enc: "i < width \<Longrightarrow> enc e i v = v + e * radix ^ (width - 1 - i)"
    and dec: "i < width \<Longrightarrow> dec v i = v div radix ^ (width - 1 - i) mod radix"
    and radix: "1 < radix"
begin

definition pack :: "nat list \<Rightarrow> nat" where
  "pack es = foldl (\<lambda>v i. enc (es ! i) i v) 0 [0..<length es]"

lemma pack_snoc: "pack (es @ [e]) = enc e (length es) (pack es)"
proof -
  have "foldl (\<lambda>v i. enc ((es @ [e]) ! i) i v) 0 [0..<length es] = pack es"
    unfolding pack_def by (rule foldl_cong) (auto simp: nth_append)
  then show ?thesis by (simp add: pack_def)
qed

lemma pack_horner: "length es \<le> width \<Longrightarrow> pack es = horner radix es * radix ^ (width - length es)"
proof (induction es rule: rev_induct)
  case (snoc e es)
  then have "width - length es = Suc (width - 1 - length es)" by simp
  with snoc show ?case by (simp add: pack_snoc enc algebra_simps)
qed (simp add: pack_def)

lemma pack_bound:
  assumes "\<forall>e \<in> set es. e < radix" and "length es \<le> width"
  shows "pack es < radix ^ width"
proof -
  have "horner radix es * radix ^ (width - length es) < radix ^ length es * radix ^ (width - length es)"
    using horner_bound [OF assms(1)] radix by simp
  also have "\<dots> = radix ^ width" using assms(2) by (simp flip: power_add)
  finally show ?thesis by (simp add: pack_horner assms(2))
qed

lemma dec_pack:
  assumes "\<forall>e \<in> set es. e < radix" and "length es \<le> width" and "i < width"
  shows "dec (pack es) i = (if i < length es then es ! i else 0)"
proof (cases "i < length es")
  case True
  have "width - 1 - i = (width - length es) + (length es - 1 - i)" using True assms(2) by simp
  then have "radix ^ (width - 1 - i) = radix ^ (width - length es) * radix ^ (length es - 1 - i)"
    by (simp only: power_add)
  then show ?thesis using True assms horner_digit [OF assms(1) True] radix
    by (simp add: dec pack_horner div_mult2_eq)
next
  case False
  then have "width - length es = Suc (i - length es) + (width - 1 - i)" using assms(3) by simp
  then have "radix ^ (width - length es) = radix * radix ^ (i - length es) * radix ^ (width - 1 - i)"
    by (simp only: power_add power_Suc)
  then show ?thesis using False assms radix by (simp add: dec pack_horner flip: mult.assoc)
qed

end

lemma funpow_times: "((\<lambda>e::nat. e * b) ^^ k) e = e * b ^ k"
  by (induction k) (simp_all add: mult.assoc mult.commute)

lemma funpow_div: "((\<lambda>v::nat. v div b) ^^ k) v = v div b ^ k"
  by (induction k) (simp_all add: power_Suc2 div_mult2_eq del: power_Suc)

interpretation three: packed_events encode_three_packed decode_threepacked 6 3
  by unfold_locales (simp_all add: encode_three_packed_def decode_threepacked_def funpow_times funpow_div)

interpretation four: packed_events encode_four_packed decode_fourpacked 4 4
  by unfold_locales (simp_all add: encode_four_packed_def decode_fourpacked_def funpow_times funpow_div)

text \<open>C24: the events packed into one byte are the events the receiver decodes from it, unfilled
  positions decode as 0, and a three-packed byte never exceeds 0xD7, the bound above which the
  receiver rejects a byte.\<close>

theorem packed_events_round_trip:
  assumes "length es \<le> 3" and "\<forall>e \<in> set es. e < 6" and "i < 3"
    and "length fs \<le> 4" and "\<forall>f \<in> set fs. f < 4" and "j < 4"
  shows "decode_threepacked (foldl (\<lambda>v i. encode_three_packed (es ! i) i v) 0 [0..<length es]) i
       = (if i < length es then es ! i else 0)
    \<and> foldl (\<lambda>v i. encode_three_packed (es ! i) i v) 0 [0..<length es] \<le> 0xD7
    \<and> decode_fourpacked (foldl (\<lambda>v j. encode_four_packed (fs ! j) j v) 0 [0..<length fs]) j
       = (if j < length fs then fs ! j else 0)
    \<and> foldl (\<lambda>v j. encode_four_packed (fs ! j) j v) 0 [0..<length fs] \<le> 0xFF"
  using three.dec_pack [OF assms(2,1,3)] three.pack_bound [OF assms(2,1)]
    four.dec_pack [OF assms(5,4,6)] four.pack_bound [OF assms(5,4)]
  by (simp add: three.pack_def four.pack_def)

theorem packed_events_round_trip_witness:
  "decode_threepacked (foldl (\<lambda>v i. encode_three_packed ([1, 5, 2] ! i) i v) 0 [0..<length [1, 5, 2::nat]]) 1 = 5"
  using packed_events_round_trip [of "[1, 5, 2]" 1 "[]" 0] by simp

section \<open>The frame of the buffer operations\<close>

text \<open>
  Everything that builds or sends a PDU changes the send buffer, its fill pointer, the current
  EtherType and the log of sent frames, and nothing else; and it keeps the buffer at its declared
  size with the pointer inside it, behind the headers.
\<close>

definition buf_ok :: "ms \<Rightarrow> bool" where
  "buf_ok s \<longleftrightarrow> length (send_buf s) = MRP_SEND_BUFFER_SIZE
     \<and> body_start \<le> send_ptr s \<and> send_ptr s \<le> MRP_SEND_BUFFER_SIZE"

definition buf_step :: "ms \<Rightarrow> ms \<Rightarrow> bool" where
  "buf_step s s' \<longleftrightarrow> (\<exists>b p c l. s' = s\<lparr>send_buf := b, send_ptr := p, current_etype := c, tx_log := l\<rparr>
     \<and> length b = length (send_buf s) \<and> (buf_ok s \<longrightarrow> buf_ok s'))"

lemma buf_stepI:
  "s' = s\<lparr>send_buf := b, send_ptr := p, current_etype := c, tx_log := l\<rparr> \<Longrightarrow>
   length b = length (send_buf s) \<Longrightarrow> (buf_ok s \<Longrightarrow> buf_ok s') \<Longrightarrow> buf_step s s'"
  unfolding buf_step_def by blast

named_theorems buf_steps \<open>operations whose frame is the send buffer\<close>

lemma buf_step_refl [simp]: "buf_step s s"
  by (rule buf_stepI [where b = "send_buf s" and p = "send_ptr s" and c = "current_etype s" and l = "tx_log s"]) simp_all

lemma buf_step_trans [trans]:
  assumes "buf_step s t" and "buf_step t u"
  shows "buf_step s u"
proof -
  from assms(1) obtain b p c l where t: "t = s\<lparr>send_buf := b, send_ptr := p, current_etype := c, tx_log := l\<rparr>"
    "length b = length (send_buf s)" "buf_ok s \<longrightarrow> buf_ok t" unfolding buf_step_def by blast
  from assms(2) obtain b' p' c' l' where u: "u = t\<lparr>send_buf := b', send_ptr := p', current_etype := c', tx_log := l'\<rparr>"
    "length b' = length (send_buf t)" "buf_ok t \<longrightarrow> buf_ok u" unfolding buf_step_def by blast
  show ?thesis by (rule buf_stepI [where b = b' and p = p' and c = c' and l = l']) (use t u in simp_all)
qed

lemma buf_step_ok: "buf_step s s' \<Longrightarrow> buf_ok s \<Longrightarrow> buf_ok s'"
  unfolding buf_step_def by blast

lemma buf_step_frame:
  assumes "buf_step s s'"
  shows "attrs s' = attrs s" "stream_table s' = stream_table s" "mvrp_entries s' = mvrp_entries s"
    "first_attr s' = first_attr s" "domain_attr s' = domain_attr s" "num_ports s' = num_ports s"
    "srp_domain_boundary_port s' = srp_domain_boundary_port s"
    "current_vlan_id_from_domain s' = current_vlan_id_from_domain s"
    "length (send_buf s') = length (send_buf s)"
  using assms unfolding buf_step_def by auto

lemma put_bytes_step [buf_steps]:
  assumes "put_bytes i bs s = Some s'"
  shows "buf_step s s'"
proof -
  from assms obtain b where "copy_in (send_buf s) i bs = Some b" and s': "s' = s\<lparr>send_buf := b\<rparr>"
    by (auto simp: put_bytes_def bind_eq_Some_conv)
  then have "length b = length (send_buf s)" by (simp add: copy_in_length)
  then show ?thesis
    by (intro buf_stepI [where b = b and p = "send_ptr s" and c = "current_etype s" and l = "tx_log s"])
      (simp_all add: s' buf_ok_def)
qed

lemma put_bytes_send_ptr: "put_bytes i bs s = Some s' \<Longrightarrow> send_ptr s' = send_ptr s \<and> i + length bs \<le> length (send_buf s)"
  by (auto simp: put_bytes_def bind_eq_Some_conv copy_in_Some_iff)

text \<open>Moving the fill pointer by hand, to a place already known to be in the buffer.\<close>

lemma advance_step:
  assumes "p \<le> length (send_buf s)" and "send_ptr s \<le> p"
  shows "buf_step s (s\<lparr>send_ptr := p\<rparr>)"
  using assms
  by (intro buf_stepI [where b = "send_buf s" and p = p and c = "current_etype s" and l = "tx_log s"])
    (simp_all add: buf_ok_def)

lemma insert_vector_byte_step [buf_steps]:
  assumes "insert_vector_byte buf vector s = Some s'"
  shows "buf_step s s'"
proof -
  from assms obtain al s1 s2 s3 where
    s1: "(if send_ptr s > vector then do {
            blk \<leftarrow> read_block (send_buf s) vector (send_ptr s - vector);
            put_bytes (vector + 1) blk s
          } else Some s) = Some s1"
    and s2: "put_bytes vector [0] (s1\<lparr>send_ptr := send_ptr s1 + 1\<rparr>) = Some s2"
    and s3: "put_bytes (buf + 2) (pair_list (hton_16 (of_nat (al + 1)))) s2 = Some s3"
      "put_bytes (buf + MSG_HDR + (al + 1) - 2) [0, 0] s3 = Some s'"
    unfolding insert_vector_byte_def by (auto simp: bind_eq_Some_conv Let_def)
  from s1 have a: "buf_step s s1" and p: "send_ptr s1 = send_ptr s"
    and q: "vector < send_ptr s \<longrightarrow> send_ptr s + 1 \<le> length (send_buf s)"
    by (auto simp: bind_eq_Some_conv read_block_Some_iff dest: put_bytes_step put_bytes_send_ptr split: if_splits)
  from s2 have "vector + 1 \<le> length (send_buf s1)" by (auto dest: put_bytes_send_ptr)
  with p q buf_step_frame(9) [OF a] have "send_ptr s1 + 1 \<le> length (send_buf s1)" by linarith
  then have "buf_step s1 (s1\<lparr>send_ptr := send_ptr s1 + 1\<rparr>)" by (intro advance_step) simp_all
  with a s2 s3 show ?thesis by (blast intro: put_bytes_step buf_step_trans)
qed

lemma mrp_encode_three_packed_event_step [buf_steps]:
  "mrp_encode_three_packed_event buf event attr s = Some s' \<Longrightarrow> buf_step s s'"
  unfolding mrp_encode_three_packed_event_def bind_eq_Some_conv Let_def
  by (auto split: if_splits dest!: buf_steps; meson buf_step_trans)

lemma mrp_encode_four_packed_event_step [buf_steps]:
  "mrp_encode_four_packed_event buf event attr s = Some s' \<Longrightarrow> buf_step s s'"
  unfolding mrp_encode_four_packed_event_def bind_eq_Some_conv Let_def
  by (auto split: if_splits dest!: buf_steps; meson buf_step_trans)

lemma create_empty_msg_step [buf_steps]:
  assumes "create_empty_msg attr leave_all s = Some s'"
  shows "buf_step s s'"
proof -
  let ?n = "MSG_HDR + (first_value_lengths attr + VEC_HDR + 0 + FOOTER)"
  from assms obtain s1 s2 s3 s4 where
    s1: "put_bytes (send_ptr s) (replicate ?n 0) s = Some s1"
    and s2: "put_bytes (send_ptr s) [encode_attr_type attr, of_nat (first_value_lengths attr)] s1 = Some s2"
      "put_bytes (send_ptr s + 2) (pair_list (hton_16 (of_nat (first_value_lengths attr + VEC_HDR + 0 + FOOTER)))) s2 = Some s3"
      "put_bytes (send_ptr s + MSG_HDR) [if leave_all then 0x20 else 0, 0] s3 = Some s4"
    and s': "s' = s4\<lparr>send_ptr := send_ptr s4 + ?n\<rparr>"
    unfolding create_empty_msg_def Let_def bind_eq_Some_conv by auto
  from s1 s2 have b: "buf_step s s4" by (blast intro: put_bytes_step buf_step_trans)
  moreover have "send_ptr s4 = send_ptr s" using s1 s2 by (simp add: put_bytes_send_ptr)
  moreover have "send_ptr s + ?n \<le> length (send_buf s)" using put_bytes_send_ptr [OF s1] by simp
  ultimately have "buf_step s4 s'"
    unfolding s' by (intro advance_step) (simp_all add: buf_step_frame(9) [OF b])
  with b show ?thesis by (rule buf_step_trans)
qed

lemma configure_send_buffer_step [buf_steps]:
  assumes "configure_send_buffer addr etype s = Some s'"
  shows "buf_step s s'"
proof -
  from assms obtain s1 s2 where "put_bytes 0 (take 6 addr) s = Some s1"
    "put_bytes 12 [ucast (drop_bit 8 etype), ucast (etype AND 0xff)] s1 = Some s2"
    and s': "s' = s2\<lparr>current_etype := sint etype\<rparr>"
    unfolding configure_send_buffer_def by (auto simp: bind_eq_Some_conv)
  then have "buf_step s s2" by (blast intro: put_bytes_step buf_step_trans)
  moreover have "buf_step s2 s'"
    by (rule buf_stepI [where b = "send_buf s2" and p = "send_ptr s2" and c = "sint etype" and l = "tx_log s2"])
      (simp_all add: s' buf_ok_def)
  ultimately show ?thesis by (rule buf_step_trans)
qed

lemma shift_down_2_length: "shift_down_2 a e buf = Some buf' \<Longrightarrow> length buf' = length buf"
  unfolding shift_down_2_def
  by (erule postD [rotated], rule post_for_each) (simp_all add: post_simps)

lemma strip_loop_length: "strip_loop msg e buf = Some r \<Longrightarrow> length (snd r) = length buf"
proof (erule strip_loop.raw_induct [rotated])
  fix strip :: "nat \<Rightarrow> nat \<Rightarrow> bytes \<Rightarrow> (nat \<times> bytes) option" and msg e buf r
  assume IH: "\<And>msg e buf r. strip msg e buf = Some r \<Longrightarrow> length (snd r) = length buf"
    and body: "(if msg < e then do {
        m0 \<leftarrow> rd buf msg;
        m1 \<leftarrow> (if m0 \<noteq> 0 then Some 1 else rd buf (msg + 1));
        if m0 \<noteq> 0 \<or> m1 \<noteq> 0 then do {
          al \<leftarrow> attribute_list_length buf msg;
          let nxt = msg + MSG_HDR + al;
          buf \<leftarrow> shift_down_2 (msg + 2) (e - 2) buf;
          strip (nxt - 2) (e - 2) buf
        } else Some (e, buf)
      } else Some (e, buf)) = Some r"
  show "length (snd r) = length buf"
  proof (cases "r = (e, buf)")
    case False
    with body obtain nxt buf' where "shift_down_2 (msg + 2) (e - 2) buf = Some buf'"
      and "strip (nxt - 2) (e - 2) buf' = Some r"
      by (auto simp: bind_eq_Some_conv Let_def split: if_splits)
    from shift_down_2_length [OF this(1)] IH [OF this(2)] show ?thesis by simp
  qed simp
qed

lemma strip_frame:
  assumes "strip_attribute_list_length_fields s = Some s'"
  obtains b p where "s' = s\<lparr>send_buf := b, send_ptr := p\<rparr>" "length b = length (send_buf s)"
proof (cases "current_etype s \<noteq> int AVB_SRP_ETHERTYPE")
  case True
  with assms obtain e buf where "strip_loop body_start (send_ptr s) (send_buf s) = Some (e, buf)"
    "s' = s\<lparr>send_buf := buf, send_ptr := e\<rparr>"
    unfolding strip_attribute_list_length_fields_def by (auto simp: bind_eq_Some_conv)
  with that [where b = buf and p = e] show ?thesis by (auto dest: strip_loop_length)
next
  case False
  with assms that [where b = "send_buf s" and p = "send_ptr s"] show ?thesis
    unfolding strip_attribute_list_length_fields_def by simp
qed

text \<open>The end of the transmitted frame: four bytes after the last message, and at least 64.\<close>

definition frame_end :: "nat \<Rightarrow> nat" where
  "frame_end ptr = (if ptr + 4 < 64 then 64 else ptr + 4)"

lemma force_send_Some:
  assumes "force_send ifnum s = Some s'" and "strip_attribute_list_length_fields s = Some s1"
    and "send_ptr s \<noteq> body_start"
  obtains b where "copy_in (send_buf s1) (send_ptr s) (replicate (frame_end (send_ptr s) - send_ptr s) 0) = Some b"
    and "frame_end (send_ptr s) \<le> length b"
    and "s' = s1\<lparr>send_buf := b, send_ptr := body_start, tx_log := tx_log s1 @ [(take (frame_end (send_ptr s)) b, ifnum)]\<rparr>"
proof -
  have "Option.bind (copy_in (send_buf s1) (send_ptr s) (replicate (frame_end (send_ptr s) - send_ptr s) 0))
     (\<lambda>b. Option.bind (read_block b 0 (frame_end (send_ptr s)))
       (\<lambda>fr. Some (s1\<lparr>send_buf := b, tx_log := tx_log s1 @ [(fr, ifnum)], send_ptr := body_start\<rparr>))) = Some s'"
    using assms(1,2,3) by (simp add: force_send_def put_bytes_def Let_def frame_end_def)
  then show ?thesis using that unfolding bind_eq_Some_conv read_block_Some_iff by auto
qed

lemma force_send_strip:
  assumes "force_send ifnum s = Some s'"
  obtains s1 where "strip_attribute_list_length_fields s = Some s1"
  using assms by (cases "strip_attribute_list_length_fields s") (simp_all add: force_send_def)

lemma force_send_frame:
  assumes "force_send ifnum s = Some s'"
  obtains b l where "s' = s\<lparr>send_buf := b, send_ptr := body_start, tx_log := l\<rparr>" "length b = length (send_buf s)"
proof -
  from assms obtain s1 where s1: "strip_attribute_list_length_fields s = Some s1"
    by (rule force_send_strip)
  then obtain b p where b: "s1 = s\<lparr>send_buf := b, send_ptr := p\<rparr>" "length b = length (send_buf s)"
    by (rule strip_frame)
  show ?thesis
  proof (cases "send_ptr s = body_start")
    case True
    with assms s1 have "s' = s1\<lparr>send_ptr := body_start\<rparr>" by (simp add: force_send_def)
    with b have "s' = s\<lparr>send_buf := b, send_ptr := body_start, tx_log := tx_log s\<rparr>" by simp
    from that [OF this b(2)] show ?thesis .
  next
    case False
    from assms s1 False obtain b' where
      b': "copy_in (send_buf s1) (send_ptr s) (replicate (frame_end (send_ptr s) - send_ptr s) 0) = Some b'"
        "s' = s1\<lparr>send_buf := b', send_ptr := body_start, tx_log := tx_log s1 @ [(take (frame_end (send_ptr s)) b', ifnum)]\<rparr>"
      by (rule force_send_Some)
    show ?thesis
      by (rule that [where b = b' and l = "tx_log s1 @ [(take (frame_end (send_ptr s)) b', ifnum)]"])
        (use b b' in \<open>simp_all add: copy_in_length\<close>)
  qed
qed

lemma force_send_step [buf_steps]:
  assumes "force_send ifnum s = Some s'"
  shows "buf_step s s'"
proof -
  from assms obtain b l where "s' = s\<lparr>send_buf := b, send_ptr := body_start, tx_log := l\<rparr>"
    "length b = length (send_buf s)" by (rule force_send_frame)
  then show ?thesis
    by (intro buf_stepI [where b = b and p = body_start and c = "current_etype s" and l = l])
      (simp_all add: buf_ok_def body_start_def ETH_HDR_def MRP_HDR_def MRP_SEND_BUFFER_SIZE_def)
qed

lemma mrp_send_step [buf_steps]: "mrp_send ifnum s = Some s' \<Longrightarrow> buf_step s s'"
  by (auto simp: mrp_send_def force_send_step split: if_splits)

text \<open>The same facts as rules for postcondition goals: a call extends the buffer steps made so far.\<close>

lemma buf_call: "post m (buf_step t) \<Longrightarrow> buf_step s t \<Longrightarrow> (\<And>u. buf_step s u \<Longrightarrow> Q u) \<Longrightarrow> post m Q"
  unfolding post_def by (blast intro: buf_step_trans)

lemma buf_call_pair:
  "post m (\<lambda>r. buf_step t (snd r)) \<Longrightarrow> buf_step s t \<Longrightarrow> (\<And>b u. buf_step s u \<Longrightarrow> Q (b, u)) \<Longrightarrow> post m Q"
  unfolding post_def by (metis buf_step_trans prod.collapse)

lemma buf_posts:
  "post (put_bytes i bs s) (buf_step s)"
  "post (mrp_encode_three_packed_event buf event attr s) (buf_step s)"
  "post (mrp_encode_four_packed_event buf event attr s) (buf_step s)"
  "post (create_empty_msg attr leave_all s) (buf_step s)"
  "post (mrp_send ifnum s) (buf_step s)"
  by (auto intro!: postI dest: buf_steps)

lemmas buf_calls = buf_posts [THEN buf_call]

end
