(* ===== verification/Srp_Table.thy ===== *)
theory Srp_Table
  imports Mrp_Types
begin

text \<open>
  The stream table of \<^verbatim>\<open>src/srp/avb_srp.c\<close> (reservations, bandwidth accounting, clean-up) and the
  attribute searches of \<^verbatim>\<open>src/srp/avb_mrp.c\<close> it relies on.
\<close>

section \<open>Model: searching the attributes\<close>

definition in_use :: "mrp_attribute_state \<Rightarrow> bool" where
  "in_use a \<longleftrightarrow> applicant_state a \<noteq> MRP_UNUSED \<and> applicant_state a \<noteq> MRP_DISABLED"

definition stream_id_of :: "ms \<Rightarrow> attribute_info \<Rightarrow> stream_id option" where
  "stream_id_of s i = do { (k, e) \<leftarrow> stream_of s i; Some (stream_id (reservation e)) }"

text \<open>
  The searches compare stream identifiers after a null check. \<open>same_stream\<close> is that comparison:
  \<open>Some False\<close> when a pointer is null, a fault when a pointer is not one into the stream table.
\<close>

definition same_stream :: "ms \<Rightarrow> attribute_info \<Rightarrow> attribute_info \<Rightarrow> bool option" where
  "same_stream s i k =
     (if i = InfoNull \<or> k = InfoNull then Some False
      else do { x \<leftarrow> stream_id_of s i; y \<leftarrow> stream_id_of s k; Some (x = y) })"

text \<open>A search loop over all attributes: the first index whose test succeeds.\<close>

fun first_match :: "(nat \<Rightarrow> bool option) \<Rightarrow> nat list \<Rightarrow> nat option option" where
  "first_match test [] = Some None"
| "first_match test (j # js) = do { b \<leftarrow> test j; if b then Some (Some j) else first_match test js }"

definition mrp_match_type_non_prop_attribute ::
    "mrp_attribute_type \<Rightarrow> stream_id \<Rightarrow> nat option \<Rightarrow> ms \<Rightarrow> nat option option" where
  "mrp_match_type_non_prop_attribute attr_type sid port s =
     first_match (\<lambda>j. do {
       a \<leftarrow> rd (attrs s) j;
       if \<not> in_use a then Some False
       else if attr_type = attribute_type a \<and> \<not> propagated a \<and> (port = None \<or> port = Some (port_num a)) then
         (if attribute_info a = InfoNull then Some False
          else do { x \<leftarrow> stream_id_of s (attribute_info a); Some (x = sid) })
       else Some False }) [0..<length (attrs s)]"

definition port_related :: "bool \<Rightarrow> mrp_attribute_state \<Rightarrow> mrp_attribute_state \<Rightarrow> bool" where
  "port_related opposite a b \<longleftrightarrow>
     (opposite \<and> port_num a \<noteq> port_num b) \<or> (\<not> opposite \<and> port_num a = port_num b)"

definition mrp_match_attr_by_stream_and_type :: "nat \<Rightarrow> bool \<Rightarrow> bool \<Rightarrow> ms \<Rightarrow> nat option option" where
  "mrp_match_attr_by_stream_and_type attr opposite match_disabled s = do {
     a \<leftarrow> rd (attrs s) attr;
     first_match (\<lambda>j. do {
       b \<leftarrow> rd (attrs s) j;
       if applicant_state b = MRP_UNUSED \<or> (\<not> match_disabled \<and> applicant_state b = MRP_DISABLED)
       then Some False
       else if port_related opposite a b \<and>
          (attribute_type a = attribute_type b
           \<or> attribute_type a = MSRP_TALKER_ADVERTISE \<and> attribute_type b = MSRP_TALKER_FAILED
           \<or> attribute_type a = MSRP_TALKER_FAILED \<and> attribute_type b = MSRP_TALKER_ADVERTISE)
       then same_stream s (attribute_info a) (attribute_info b)
       else Some False }) [0..<length (attrs s)]
   }"

definition mrp_match_multiple_attrs_by_stream_and_type :: "nat \<Rightarrow> bool \<Rightarrow> ms \<Rightarrow> bool option" where
  "mrp_match_multiple_attrs_by_stream_and_type attr opposite s = do {
     a \<leftarrow> rd (attrs s) attr;
     matches \<leftarrow> for_each [0..<length (attrs s)] (\<lambda>j (matches :: nat).
       if matches = 2 then Some matches
       else do {
         b \<leftarrow> rd (attrs s) j;
         if in_use b \<and> attribute_type a = attribute_type b \<and> port_related opposite a b then do {
           m \<leftarrow> same_stream s (attribute_info a) (attribute_info b);
           Some (if m then matches + 1 else matches)
         } else Some matches }) 0;
     Some (matches = 2)
   }"

definition is_talker :: "mrp_attribute_type \<Rightarrow> bool" where
  "is_talker t \<longleftrightarrow> t = MSRP_TALKER_ADVERTISE \<or> t = MSRP_TALKER_FAILED"

definition mrp_match_attribute_pair_by_stream_id :: "nat \<Rightarrow> bool \<Rightarrow> bool \<Rightarrow> ms \<Rightarrow> nat option option" where
  "mrp_match_attribute_pair_by_stream_id attr opposite match_disabled s = do {
     a \<leftarrow> rd (attrs s) attr;
     first_match (\<lambda>j. do {
       b \<leftarrow> rd (attrs s) j;
       if applicant_state b = MRP_UNUSED \<or> (\<not> match_disabled \<and> applicant_state b = MRP_DISABLED)
       then Some False
       else if port_related opposite a b \<and>
          (is_talker (attribute_type a) \<and> attribute_type b = MSRP_LISTENER
           \<or> attribute_type a = MSRP_LISTENER \<and> is_talker (attribute_type b))
       then same_stream s (attribute_info a) (attribute_info b)
       else Some False }) [0..<length (attrs s)]
   }"

definition mrp_get_attr :: "ms \<Rightarrow> nat option \<times> ms" where
  "mrp_get_attr s =
     (case find_index (\<lambda>a. applicant_state a = MRP_UNUSED) (attrs s) of
        None \<Rightarrow> (None, s)
      | Some i \<Rightarrow> (Some i, s\<lparr>attrs := (attrs s)[i := (attrs s ! i)\<lparr>applicant_state := MRP_DISABLED\<rparr>]\<rparr>))"

definition mrp_attribute_init ::
    "nat option \<Rightarrow> mrp_attribute_type \<Rightarrow> nat \<Rightarrow> bool \<Rightarrow> attribute_info \<Rightarrow> ms \<Rightarrow> ms option" where
  "mrp_attribute_init st t port hr info s =
     (case st of None \<Rightarrow> None
      | Some j \<Rightarrow> put_attr j (\<lambda>a. a\<lparr>attribute_type := t, attribute_info := info, port_num := port,
                    propagated := False, here := hr\<rparr>) s)"

definition mrp_is_observer :: "mrp_attribute_state \<Rightarrow> bool" where
  "mrp_is_observer st \<longleftrightarrow> applicant_state st \<in> {MRP_VO, MRP_AO, MRP_QO}"

section \<open>Model: the stream table\<close>

definition AVB1722_PACKET_RATE :: int where "AVB1722_PACKET_RATE = 8000"

definition srp_calculate_stream_bandwidth :: "int \<Rightarrow> int \<Rightarrow> int" where
  "srp_calculate_stream_bandwidth max_frame_size extra_byte =
     (let interframe_gap = 12; preamble_sfd = 8; eth_header_and_tag = 18; crc = 4;
          total_frame_size = interframe_gap + preamble_sfd + eth_header_and_tag + max_frame_size + crc + extra_byte
      in total_frame_size * 8 * AVB1722_PACKET_RATE)"

definition srp_increase_port_bandwidth :: "int \<Rightarrow> int \<Rightarrow> nat \<Rightarrow> ms \<Rightarrow> ms option" where
  "srp_increase_port_bandwidth max_frame_size extra_byte port s = do {
     bw \<leftarrow> rd (port_bandwidth s) port;
     bws \<leftarrow> wr (port_bandwidth s) port (bw + word_of_int (srp_calculate_stream_bandwidth max_frame_size extra_byte));
     Some (s\<lparr>port_bandwidth := bws\<rparr>)
   }"

definition srp_decrease_port_bandwidth :: "int \<Rightarrow> int \<Rightarrow> nat \<Rightarrow> ms \<Rightarrow> ms option" where
  "srp_decrease_port_bandwidth max_frame_size extra_byte port s = do {
     bw \<leftarrow> rd (port_bandwidth s) port;
     bws \<leftarrow> wr (port_bandwidth s) port (bw - word_of_int (srp_calculate_stream_bandwidth max_frame_size extra_byte));
     Some (s\<lparr>port_bandwidth := bws\<rparr>)
   }"

definition avb_srp_match_listener_to_talker_stream_id :: "stream_id \<Rightarrow> bool \<Rightarrow> ms \<Rightarrow> nat option" where
  "avb_srp_match_listener_to_talker_stream_id sid is_listener s =
     find_index (\<lambda>e. (is_listener \<and> talker_present e \<or> \<not> is_listener \<and> listener_present e)
                   \<and> sid = stream_id (reservation e)) (stream_table s)"

text \<open>The entry with this identifier, otherwise the last empty one.\<close>

fun match_entry_loop :: "stream_id \<Rightarrow> avb_stream_entry list \<Rightarrow> nat \<Rightarrow> nat option \<Rightarrow> nat option" where
  "match_entry_loop sid [] i empty_index = empty_index"
| "match_entry_loop sid (e # es) i empty_index =
     (if sid = stream_id (reservation e) then Some i
      else match_entry_loop sid es (i + 1)
             (if stream_id (reservation e) = (0, 0) then Some i else empty_index))"

definition srp_match_reservation_entry_by_id :: "stream_id \<Rightarrow> ms \<Rightarrow> nat option" where
  "srp_match_reservation_entry_by_id sid s = match_entry_loop sid (stream_table s) 0 None"

definition srp_add_reservation_entry_stream_id_only :: "stream_id \<Rightarrow> ms \<Rightarrow> (nat option \<times> ms) option" where
  "srp_add_reservation_entry_stream_id_only sid s =
     (case srp_match_reservation_entry_by_id sid s of
        Some entry \<Rightarrow> do {
          s \<leftarrow> put_stream entry (\<lambda>e.
            let r = (if \<not> talker_present e then zero_srp_info else reservation e)
            in e\<lparr>reservation := r\<lparr>stream_id := sid\<rparr>, listener_present := True\<rparr>) s;
          Some (Some entry, s)
        }
      | None \<Rightarrow> Some (None, s))"

definition copy_without_failure_info :: "avb_srp_info \<Rightarrow> avb_srp_info \<Rightarrow> avb_srp_info" where
  "copy_without_failure_info from r =
     r\<lparr>stream_id := stream_id from, dest_mac_addr := dest_mac_addr from, vlan_id := vlan_id from,
       tspec_max_frame_size := tspec_max_frame_size from, tspec_max_interval := tspec_max_interval from,
       tspec := tspec from, accumulated_latency := accumulated_latency from\<rparr>"

definition srp_add_reservation_entry :: "avb_srp_info \<Rightarrow> ms \<Rightarrow> (nat option \<times> ms) option" where
  "srp_add_reservation_entry resv s =
     (case srp_match_reservation_entry_by_id (stream_id resv) s of
        Some entry \<Rightarrow> do {
          s \<leftarrow> put_stream entry (\<lambda>e. e\<lparr>reservation := copy_without_failure_info resv (reservation e),
                                  talker_present := True\<rparr>) s;
          Some (Some entry, s)
        }
      | None \<Rightarrow> Some (None, s))"

definition srp_remove_reservation_entry :: "stream_id \<Rightarrow> ms \<Rightarrow> ms option" where
  "srp_remove_reservation_entry sid s =
     (case srp_match_reservation_entry_by_id sid s of
        Some entry \<Rightarrow> put_stream entry (\<lambda>e. zero_stream_entry (num_ports s)) s
      | None \<Rightarrow> None)"

definition srp_cleanup_reservation_entry :: "nat \<Rightarrow> ms \<Rightarrow> (bool \<times> ms) option" where
  "srp_cleanup_reservation_entry st s = do {
     a \<leftarrow> rd (attrs s) st;
     s \<leftarrow> (if (if num_ports s = 2 then attribute_type a = MSRP_LISTENER \<or> \<not> here a
               else \<not> here a \<and> attribute_type a \<noteq> MSRP_DOMAIN_VECTOR)
          then put_attr st (\<lambda>a. a\<lparr>applicant_state := MRP_UNUSED\<rparr>) s else Some s);
     s \<leftarrow> (if attribute_type a \<in> {MSRP_TALKER_ADVERTISE, MSRP_TALKER_FAILED, MSRP_LISTENER} then do {
            matched1 \<leftarrow> mrp_match_attribute_pair_by_stream_id st True True s;
            matched2 \<leftarrow> mrp_match_attribute_pair_by_stream_id st False True s;
            matched3 \<leftarrow> mrp_match_attr_by_stream_and_type st True True s;
            matched4 \<leftarrow> mrp_match_attr_by_stream_and_type st False True s;
            if matched1 = None \<and> matched2 = None \<and> matched3 = None \<and> matched4 = None then do {
              sid \<leftarrow> stream_id_of s (attribute_info a);
              srp_remove_reservation_entry sid s
            } else Some s
          } else Some s);
     a \<leftarrow> rd (attrs s) st;
     Some (applicant_state a = MRP_UNUSED, s)
   }"

definition mrp_change_applicant_state :: "nat \<Rightarrow> mrp_applicant_state \<Rightarrow> ms \<Rightarrow> ms option" where
  "mrp_change_applicant_state st new s =
     (if new = MRP_UNUSED then do { (b, s) \<leftarrow> srp_cleanup_reservation_entry st s; Some s }
      else put_attr st (\<lambda>a. a\<lparr>applicant_state := new\<rparr>) s)"

section \<open>The stream table as a map\<close>

text \<open>
  The table is searched linearly for a stream identifier; a zero identifier marks a free entry. \<open>table_abs\<close> is the map it
  represents, \<open>unique_ids\<close> says that no stream has two entries.
\<close>

abbreviation entry_id :: "avb_stream_entry \<Rightarrow> stream_id" where
  "entry_id e \<equiv> stream_id (reservation e)"

definition table_abs :: "ms \<Rightarrow> stream_id \<Rightarrow> avb_stream_entry option" where
  "table_abs s sid = (if sid = (0, 0) then None
     else map_option (\<lambda>i. stream_table s ! i) (find_index (\<lambda>e. entry_id e = sid) (stream_table s)))"

definition unique_ids :: "ms \<Rightarrow> bool" where
  "unique_ids s \<longleftrightarrow> (\<forall>i < length (stream_table s). \<forall>j < length (stream_table s).
     entry_id (stream_table s ! i) = entry_id (stream_table s ! j) \<and> entry_id (stream_table s ! i) \<noteq> (0, 0) \<longrightarrow> i = j)"

lemma find_index_cong:
  assumes "length xs = length ys" and "\<And>i. i < length xs \<Longrightarrow> p (xs ! i) = q (ys ! i)"
  shows "find_index p xs = find_index q ys"
proof -
  have "filter (\<lambda>i. p (xs ! i)) [0..<length xs] = filter (\<lambda>i. q (ys ! i)) [0..<length ys]"
    using assms by (auto intro: filter_cong)
  then show ?thesis by (simp add: find_index_def)
qed

lemma find_index_first:
  assumes "i < length xs" and "p (xs ! i)" and "\<And>j. j < i \<Longrightarrow> \<not> p (xs ! j)"
  shows "find_index p xs = Some i"
proof (cases "find_index p xs")
  case None
  with assms(1,2) show ?thesis by (simp add: find_index_None)
next
  case (Some j)
  with assms find_index_Some [OF Some] find_index_least [OF Some] show ?thesis
    by (metis linorder_neqE_nat)
qed

text \<open>What the search returns: the first entry of the stream, otherwise a free one, otherwise nothing.\<close>

lemma match_entry_loop_cases:
  "match_entry_loop sid es n d = r \<Longrightarrow>
     (\<exists>j < length es. r = Some (n + j) \<and> entry_id (es ! j) = sid \<and> (\<forall>i < j. entry_id (es ! i) \<noteq> sid))
   \<or> (\<forall>e \<in> set es. entry_id e \<noteq> sid) \<and>
       ((\<exists>j < length es. r = Some (n + j) \<and> entry_id (es ! j) = (0, 0))
        \<or> r = d \<and> (\<forall>e \<in> set es. entry_id e \<noteq> (0, 0)))"
proof (induction es arbitrary: n d)
  case (Cons e es)
  show ?case
  proof (cases "sid = entry_id e")
    case True
    with Cons.prems show ?thesis by (intro disjI1 exI [of _ 0]) simp
  next
    case False
    let ?d = "if entry_id e = (0, 0) then Some n else d"
    have "match_entry_loop sid es (n + 1) ?d = r" using Cons.prems False by simp
    from Cons.IH [OF this] show ?thesis
    proof (elim disjE exE conjE)
      fix j assume "j < length es" "r = Some (n + 1 + j)" "entry_id (es ! j) = sid" "\<forall>i < j. entry_id (es ! i) \<noteq> sid"
      with False show ?thesis
        by (intro disjI1 exI [of _ "Suc j"]) (auto simp: less_Suc_eq_0_disj)
    next
      fix j assume "\<forall>e \<in> set es. entry_id e \<noteq> sid" "j < length es" "r = Some (n + 1 + j)" "entry_id (es ! j) = (0, 0)"
      with False show ?thesis by (intro disjI2 conjI disjI1 exI [of _ "Suc j"]) auto
    next
      assume "\<forall>e \<in> set es. entry_id e \<noteq> sid" "r = ?d" "\<forall>e \<in> set es. entry_id e \<noteq> (0, 0)"
      with False show ?thesis by (cases "entry_id e = (0, 0)") (auto intro!: exI [of _ 0])
    qed
  qed
qed simp

lemma match_entry_cases:
  obtains (present) k where "srp_match_reservation_entry_by_id sid s = Some k" "k < length (stream_table s)"
      "entry_id (stream_table s ! k) = sid" "find_index (\<lambda>e. entry_id e = sid) (stream_table s) = Some k"
  | (free) k where "srp_match_reservation_entry_by_id sid s = Some k" "k < length (stream_table s)"
      "entry_id (stream_table s ! k) = (0, 0)" "find_index (\<lambda>e. entry_id e = sid) (stream_table s) = None"
  | (full) "srp_match_reservation_entry_by_id sid s = None"
      "find_index (\<lambda>e. entry_id e = sid) (stream_table s) = None" "\<forall>e \<in> set (stream_table s). entry_id e \<noteq> (0, 0)"
proof -
  from match_entry_loop_cases [OF srp_match_reservation_entry_by_id_def [of sid s, symmetric]]
  show ?thesis
  proof (elim disjE exE conjE)
    fix j assume "j < length (stream_table s)" "srp_match_reservation_entry_by_id sid s = Some (0 + j)"
      "entry_id (stream_table s ! j) = sid" "\<forall>i < j. entry_id (stream_table s ! i) \<noteq> sid"
    then show ?thesis by (intro present [of j] find_index_first) auto
  qed (use free full in \<open>auto simp: find_index_None\<close>)
qed

text \<open>Writing an entry with a new identifier at a place the search returned updates the map.\<close>

lemma table_abs_write:
  assumes "sid \<noteq> (0, 0)" and "srp_match_reservation_entry_by_id sid s = Some k" and "entry_id e = sid"
    and "stream_table s' = (stream_table s)[k := e]"
  shows "table_abs s' = (table_abs s)(sid \<mapsto> e)" and "unique_ids s \<Longrightarrow> unique_ids s'"
proof -
  let ?t = "stream_table s" and ?t' = "stream_table s'"
  have k: "k < length ?t" "entry_id (?t ! k) \<in> {sid, (0, 0)}" and first: "\<And>j. j < k \<Longrightarrow> entry_id (?t ! j) \<noteq> sid"
    and only: "entry_id (?t ! k) = (0, 0) \<Longrightarrow> \<forall>e \<in> set ?t. entry_id e \<noteq> sid"
    by (cases rule: match_entry_cases [of sid s];
      use assms(1,2) in \<open>auto dest: find_index_least simp: find_index_None in_set_conv_nth\<close>)+
  show "table_abs s' = (table_abs s)(sid \<mapsto> e)"
  proof
    fix sid'
    show "table_abs s' sid' = ((table_abs s)(sid \<mapsto> e)) sid'"
    proof (cases "sid' = sid")
      case True
      have "find_index (\<lambda>e. entry_id e = sid) ?t' = Some k"
        by (rule find_index_first) (use k(1) first assms(3,4) in auto)
      with True k(1) assms(1,4) show ?thesis by (simp add: table_abs_def)
    next
      case False
      have f: "find_index (\<lambda>e. entry_id e = sid') ?t' = find_index (\<lambda>e. entry_id e = sid') ?t" if "sid' \<noteq> (0, 0)"
        by (rule find_index_cong) (use assms(3,4) False that k in \<open>auto simp: nth_list_update\<close>)
      have "?t' ! i = ?t ! i" if "find_index (\<lambda>e. entry_id e = sid') ?t = Some i" "sid' \<noteq> (0, 0)" for i
      proof -
        have "i \<noteq> k" using find_index_Some [OF that(1)] k(2) False that(2) by auto
        then show ?thesis by (simp add: assms(4))
      qed
      with False f show ?thesis by (auto simp: table_abs_def split: option.split intro!: option.map_cong)
    qed
  qed
  assume u: "unique_ids s"
  have o: "i = k" if "i < length ?t" "entry_id (?t ! i) = sid" for i
  proof (cases "entry_id (?t ! k) = (0, 0)")
    case True
    with only that show ?thesis by auto
  next
    case False
    with k u that assms(1) show ?thesis unfolding unique_ids_def by auto
  qed
  have id: "entry_id (?t' ! i) = (if i = k then sid else entry_id (?t ! i))" if "i < length ?t" for i
    using k(1) that assms(3,4) by simp
  have "i = j" if "i < length ?t" "j < length ?t" "entry_id (?t' ! i) = entry_id (?t' ! j)" "entry_id (?t' ! i) \<noteq> (0, 0)" for i j
    using that o [of i] o [of j] u unfolding unique_ids_def by (auto simp: id split: if_splits)
  then show "unique_ids s'" unfolding unique_ids_def using assms(4) by auto
qed

text \<open>
  Both ways of adding a stream, with a talker's parameters and with the identifier only, search the table for the place and
  update the entry found there. Their common contract is the locale \<open>table_insert\<close>.
\<close>

locale table_insert =
  fixes ins :: "'a \<Rightarrow> ms \<Rightarrow> (nat option \<times> ms) option" and key :: "'a \<Rightarrow> stream_id"
    and upd :: "'a \<Rightarrow> avb_stream_entry \<Rightarrow> avb_stream_entry"
  assumes ins: "ins r s = (case srp_match_reservation_entry_by_id (key r) s of
       Some k \<Rightarrow> do { s \<leftarrow> put_stream k (upd r) s; Some (Some k, s) }
     | None \<Rightarrow> Some (None, s))"
    and key_upd: "entry_id (upd r e) = key r"
begin

lemma ins_full:
  assumes "srp_match_reservation_entry_by_id (key r) s = None"
  shows "ins r s = Some (None, s)" "table_abs s (key r) = None" "\<forall>e \<in> set (stream_table s). entry_id e \<noteq> (0, 0)"
proof -
  show "ins r s = Some (None, s)" by (simp add: ins assms)
  show "table_abs s (key r) = None" "\<forall>e \<in> set (stream_table s). entry_id e \<noteq> (0, 0)"
    by (cases rule: match_entry_cases [of "key r" s]; use assms in \<open>simp add: table_abs_def\<close>)+
qed

lemma ins_found:
  assumes "key r \<noteq> (0, 0)" and "srp_match_reservation_entry_by_id (key r) s = Some k"
  obtains s' where "ins r s = Some (Some k, s')" "s' = s\<lparr>stream_table := (stream_table s)[k := upd r (stream_table s ! k)]\<rparr>"
    "table_abs s' = (table_abs s)(key r \<mapsto> upd r (stream_table s ! k))" "unique_ids s \<Longrightarrow> unique_ids s'"
    "table_abs s (key r) \<in> {None, Some (stream_table s ! k)}"
proof -
  let ?s = "s\<lparr>stream_table := (stream_table s)[k := upd r (stream_table s ! k)]\<rparr>"
  have k: "k < length (stream_table s)" "table_abs s (key r) \<in> {None, Some (stream_table s ! k)}"
    by (cases rule: match_entry_cases [of "key r" s]; use assms in \<open>simp add: table_abs_def\<close>)+
  have "ins r s = Some (Some k, ?s)" using k(1) by (simp add: ins assms(2) put_stream_def)
  moreover have "table_abs ?s = (table_abs s)(key r \<mapsto> upd r (stream_table s ! k))"
    by (rule table_abs_write(1) [OF assms key_upd]) simp
  moreover have "unique_ids s \<Longrightarrow> unique_ids ?s"
    by (rule table_abs_write(2) [OF assms key_upd]) simp_all
  ultimately show ?thesis using k(2) by (intro that) auto
qed

end

definition add_talker :: "avb_srp_info \<Rightarrow> avb_stream_entry \<Rightarrow> avb_stream_entry" where
  "add_talker r e = e\<lparr>reservation := copy_without_failure_info r (reservation e), talker_present := True\<rparr>"

definition add_listener :: "stream_id \<Rightarrow> avb_stream_entry \<Rightarrow> avb_stream_entry" where
  "add_listener sid e = e\<lparr>reservation := (if \<not> talker_present e then zero_srp_info else reservation e)\<lparr>stream_id := sid\<rparr>,
     listener_present := True\<rparr>"

interpretation talker_entry: table_insert srp_add_reservation_entry stream_id add_talker
  by unfold_locales
    (simp_all add: srp_add_reservation_entry_def add_talker_def [abs_def] copy_without_failure_info_def split: option.split)

interpretation listener_entry: table_insert srp_add_reservation_entry_stream_id_only "\<lambda>sid. sid" add_listener
  by unfold_locales
    (simp_all add: srp_add_reservation_entry_stream_id_only_def add_listener_def [abs_def] Let_def split: option.split)

lemma remove_entry_map:
  assumes "unique_ids s" and "table_abs s sid = Some e"
  shows "\<exists>s'. srp_remove_reservation_entry sid s = Some s' \<and> table_abs s' = (table_abs s)(sid := None) \<and> unique_ids s'"
proof -
  let ?t = "stream_table s"
  have nz: "sid \<noteq> (0, 0)" using assms(2) by (auto simp: table_abs_def split: if_splits)
  obtain k where k: "srp_match_reservation_entry_by_id sid s = Some k" "k < length ?t" "entry_id (?t ! k) = sid"
    by (cases rule: match_entry_cases [of sid s]) (use assms(2) in \<open>auto simp: table_abs_def split: if_splits\<close>)
  let ?s = "s\<lparr>stream_table := ?t[k := zero_stream_entry (num_ports s)]\<rparr>"
  have r: "srp_remove_reservation_entry sid s = Some ?s"
    using k by (simp add: srp_remove_reservation_entry_def put_stream_def)
  have id: "entry_id (stream_table ?s ! i) = (if i = k then (0, 0) else entry_id (?t ! i))" if "i < length ?t" for i
    using that by (simp add: zero_stream_entry_def zero_srp_info_def)
  have o: "i = k" if "i < length ?t" "entry_id (?t ! i) = sid" for i
    using assms(1) that k nz unfolding unique_ids_def by auto
  have "table_abs ?s sid' = ((table_abs s)(sid := None)) sid'" for sid'
  proof (cases "sid' = sid \<or> sid' = (0, 0)")
    case True
    have "find_index (\<lambda>e. entry_id e = sid) (stream_table ?s) = None"
    proof -
      have "entry_id (stream_table ?s ! i) \<noteq> sid" if "i < length ?t" for i
        unfolding id [OF that] using o [OF that] nz by auto
      then show ?thesis by (simp add: find_index_None)
    qed
    with True show ?thesis by (auto simp: table_abs_def)
  next
    case False
    then have f: "find_index (\<lambda>e. entry_id e = sid') (stream_table ?s) = find_index (\<lambda>e. entry_id e = sid') ?t"
      by (intro find_index_cong) (use k id in auto)
    have "stream_table ?s ! i = ?t ! i" if "find_index (\<lambda>e. entry_id e = sid') ?t = Some i" for i
      using find_index_Some [OF that] k(3) False by (cases "i = k") auto
    with False f show ?thesis by (auto simp: table_abs_def intro!: option.map_cong)
  qed
  then have m: "table_abs ?s = (table_abs s)(sid := None)" ..
  have "unique_ids ?s" using assms(1) id unfolding unique_ids_def by auto
  with r m show ?thesis by blast
qed

section \<open>Properties of the stream table\<close>

text \<open>A table with one stream, for the witnesses.\<close>

definition known_entry :: avb_stream_entry where
  "known_entry = (zero_stream_entry 1)\<lparr>reservation := zero_srp_info\<lparr>stream_id := (1, 2), vlan_id := 7\<rparr>, talker_present := True\<rparr>"

definition known_stream :: ms where
  "known_stream = (boot_memory 1 1 1 1 (\<lambda>i. 0))\<lparr>stream_table := [known_entry]\<rparr>"

lemma known_stream: "unique_ids known_stream" "table_abs known_stream (1, 2) = Some known_entry"
  by (simp_all add: known_stream_def unique_ids_def table_abs_def find_index_def known_entry_def)

text \<open>C10: adding a talker's reservation is a map update. With a non-zero stream identifier, the operation either
  stores the reservation's parameters (all but the failure information) under its identifier, marks
  the talker present and leaves every other stream alone, or, only when the stream is unknown and no entry is free,
  reports failure and changes nothing. No stream ever gets a second entry.\<close>

theorem add_reservation_refines:
  assumes "stream_id r \<noteq> (0, 0)" and "unique_ids s"
  shows "(\<exists>k e s'. srp_add_reservation_entry r s = Some (Some k, s') \<and> table_abs s' = (table_abs s)(stream_id r \<mapsto> e)
            \<and> stream_table s' ! k = e \<and> talker_present e \<and> reservation e = copy_without_failure_info r (reservation e) \<and> unique_ids s')
       \<or> srp_add_reservation_entry r s = Some (None, s) \<and> table_abs s (stream_id r) = None
         \<and> (\<forall>e \<in> set (stream_table s). stream_id (reservation e) \<noteq> (0, 0))"
proof (cases "srp_match_reservation_entry_by_id (stream_id r) s")
  case None
  from talker_entry.ins_full [OF None] show ?thesis by simp
next
  case (Some k)
  obtain s' where s': "srp_add_reservation_entry r s = Some (Some k, s')"
    "s' = s\<lparr>stream_table := (stream_table s)[k := add_talker r (stream_table s ! k)]\<rparr>"
    "table_abs s' = (table_abs s)(stream_id r \<mapsto> add_talker r (stream_table s ! k))" "unique_ids s'"
    using assms(2) talker_entry.ins_found [OF assms(1) Some] by metis
  have "k < length (stream_table s)" using Some by (cases rule: match_entry_cases [of "stream_id r" s]) auto
  with s' show ?thesis
    by (intro disjI1 exI [of _ k] exI [of _ "add_talker r (stream_table s ! k)"] exI [of _ s'])
      (simp add: add_talker_def copy_without_failure_info_def)
qed

theorem add_reservation_refines_witness:
  "\<exists>k s'. srp_add_reservation_entry (zero_srp_info\<lparr>stream_id := (1, 2)\<rparr>) (boot_memory 1 1 2 1 (\<lambda>i. 0)) = Some (Some k, s')
     \<and> table_abs s' (1, 2) \<noteq> None"
  using add_reservation_refines [of "zero_srp_info\<lparr>stream_id := (1, 2)\<rparr>" "boot_memory 1 1 2 1 (\<lambda>i. 0)"]
  by (auto simp: boot_memory_def unique_ids_def zero_stream_entry_def zero_srp_info_def)

text \<open>C11: removing the reservation of a known stream makes the table forget that stream and no other.\<close>

theorem remove_reservation_refines:
  assumes "unique_ids s" and "table_abs s sid = Some e"
  shows "\<exists>s'. srp_remove_reservation_entry sid s = Some s' \<and> table_abs s' = (table_abs s)(sid := None) \<and> unique_ids s'"
  by (rule remove_entry_map [OF assms])

theorem remove_reservation_refines_witness:
  "\<exists>s'. srp_remove_reservation_entry (1, 2) known_stream = Some s' \<and> table_abs s' (1, 2) = None"
  using remove_reservation_refines [OF known_stream] by auto

text \<open>Attaching a listener to a stream whose talker is known keeps the talker's parameters and only marks the listener present.\<close>

theorem attach_keeps_talker:
  assumes "table_abs s sid = Some e" and "talker_present e"
  shows "\<exists>k s'. srp_add_reservation_entry_stream_id_only sid s = Some (Some k, s')
     \<and> table_abs s' = (table_abs s)(sid \<mapsto> e\<lparr>listener_present := True\<rparr>)"
proof -
  have nz: "sid \<noteq> (0, 0)" using assms(1) by (auto simp: table_abs_def split: if_splits)
  obtain k where k: "srp_match_reservation_entry_by_id sid s = Some k" "stream_table s ! k = e" "stream_id (reservation e) = sid"
    by (cases rule: match_entry_cases [of sid s]) (use assms(1) in \<open>auto simp: table_abs_def split: if_splits\<close>)
  have "add_listener sid e = e\<lparr>listener_present := True\<rparr>" using assms(2) k(3) by (auto simp: add_listener_def)
  with k show ?thesis using listener_entry.ins_found [OF nz k(1)] by metis
qed

theorem attach_keeps_talker_witness:
  "\<exists>k s'. srp_add_reservation_entry_stream_id_only (1, 2) known_stream = Some (Some k, s')"
  using attach_keeps_talker [OF known_stream(2)] by (auto simp: known_entry_def)



end
