(* ===== verification/Mrp_Inv.thy ===== *)
theory Mrp_Inv
  imports Mrp_Pdu Srp_Table "HOL-Library.Multiset"
begin

text \<open>
  The invariant \<open>mrp_ok\<close> of the reservation state, and the update lemmas its preservation proofs use.

  \<open>mrp_ok s\<close> says that the per-port arrays have one element per port, the send buffer is intact, every
  attribute has a valid port and a pointer of the kind its type needs (never null while the
  applicant machine is running), the \<^verbatim>\<open>next\<close> pointers visit every attribute exactly once, the
  stream table entries are complete, and the attributes that belong to an MVRP entry or to a port's
  domain declaration stay allocated to them.
\<close>

section \<open>Linked lists\<close>

fun chain :: "(nat \<Rightarrow> nat option) \<Rightarrow> nat option \<Rightarrow> nat list \<Rightarrow> bool" where
  "chain nx p [] \<longleftrightarrow> p = None"
| "chain nx p (x # xs) \<longleftrightarrow> p = Some x \<and> chain nx (nx x) xs"

definition nexts :: "ms \<Rightarrow> nat \<Rightarrow> nat option" where
  "nexts s i = next_attr (attrs s ! i)"

definition attr_list :: "ms \<Rightarrow> nat list \<Rightarrow> bool" where
  "attr_list s xs \<longleftrightarrow> chain (nexts s) (first_attr s) xs \<and> mset xs = mset [0..<length (attrs s)]"

lemma chain_cong: "(\<And>x. x \<in> set xs \<Longrightarrow> f x = g x) \<Longrightarrow> chain f p xs = chain g p xs"
  by (induction xs arbitrary: p) auto

lemma chain_unique: "chain nx p xs \<Longrightarrow> chain nx p ys \<Longrightarrow> xs = ys"
proof (induction xs arbitrary: p ys)
  case Nil then show ?case by (cases ys) auto
next
  case (Cons x xs) then show ?case by (cases ys) auto
qed

lemma attr_list_set: "attr_list s xs \<Longrightarrow> set xs = {0..<length (attrs s)}"
  by (metis attr_list_def mset_eq_setD set_upt)

lemma attr_list_distinct: "attr_list s xs \<Longrightarrow> distinct xs"
  by (metis attr_list_def distinct_upt mset_eq_imp_distinct_iff)

section \<open>The invariant\<close>

definition stream_type :: "mrp_attribute_type \<Rightarrow> bool" where
  "stream_type t \<longleftrightarrow> t \<in> {MSRP_TALKER_ADVERTISE, MSRP_TALKER_FAILED, MSRP_LISTENER}"

definition info_ok :: "ms \<Rightarrow> mrp_attribute_state \<Rightarrow> bool" where
  "info_ok s a \<longleftrightarrow> (case attribute_info a of
       InfoNull \<Rightarrow> True
     | InfoStream k \<Rightarrow> k < length (stream_table s) \<and> stream_type (attribute_type a)
     | InfoVlan k \<Rightarrow> k < length (mvrp_entries s) \<and> attribute_type a = MVRP_VID_VECTOR)"

text \<open>An initialised attribute: its type is one that exists here and it has the pointer it needs.\<close>

definition bound :: "mrp_attribute_state \<Rightarrow> bool" where
  "bound a \<longleftrightarrow> attribute_type a \<noteq> MMRP_MAC_VECTOR
     \<and> (attribute_type a \<noteq> MSRP_DOMAIN_VECTOR \<longrightarrow> attribute_info a \<noteq> InfoNull)"

definition attr_ok :: "ms \<Rightarrow> mrp_attribute_state \<Rightarrow> bool" where
  "attr_ok s a \<longleftrightarrow> port_num a < num_ports s \<and> info_ok s a \<and> (in_use a \<or> here a \<longrightarrow> bound a)"

text \<open>Attributes that belong to an MVRP entry or to a port's domain declaration are never freed.\<close>

definition owned :: "nat \<Rightarrow> ms \<Rightarrow> bool" where
  "owned j s \<longleftrightarrow> (\<exists>e \<in> set (mvrp_entries s). mv_attr e = Some j) \<or> Some j \<in> set (domain_attr s)"

definition pinned :: "mrp_attribute_state \<Rightarrow> bool" where
  "pinned a \<longleftrightarrow> here a \<and> applicant_state a \<noteq> MRP_UNUSED
     \<and> (attribute_type a = MVRP_VID_VECTOR \<or> attribute_type a = MSRP_DOMAIN_VECTOR) \<and> bound a"

definition sizes_ok :: "ms \<Rightarrow> bool" where
  "sizes_ok s \<longleftrightarrow> (num_ports s = 1 \<or> num_ports s = 2)
     \<and> length (periodic_timer s) = num_ports s \<and> length (joinTimer s) = num_ports s
     \<and> length (msrp_leaveall_timer s) = num_ports s \<and> length (mvrp_leaveall_timer s) = num_ports s
     \<and> length (msrp_leaveall_active s) = num_ports s \<and> length (mvrp_leaveall_active s) = num_ports s
     \<and> length (port_bandwidth s) = num_ports s \<and> length (domain_attr s) = num_ports s
     \<and> length (srp_domain_boundary_port s) = num_ports s
     \<and> length (mvrp_entries s) = num_ports s * max_num_vlan s"

definition entry_ok :: "ms \<Rightarrow> avb_stream_entry \<Rightarrow> bool" where
  "entry_ok s e \<longleftrightarrow> length (bw_reserved e) = num_ports s
     \<and> length (dest_mac_addr (reservation e)) = 6 \<and> length (failure_bridge_id (reservation e)) = 8"

definition mrp_ok :: "ms \<Rightarrow> bool" where
  "mrp_ok s \<longleftrightarrow> sizes_ok s \<and> buf_ok s
     \<and> (\<forall>a \<in> set (attrs s). attr_ok s a)
     \<and> (\<exists>xs. attr_list s xs)
     \<and> (\<forall>e \<in> set (stream_table s). entry_ok s e)
     \<and> (\<forall>j. owned j s \<longrightarrow> j < length (attrs s) \<and> pinned (attrs s ! j))"

section \<open>Updates\<close>

lemma wf_attr_ok: "mrp_ok s \<Longrightarrow> j < length (attrs s) \<Longrightarrow> attr_ok s (attrs s ! j)"
  by (simp add: mrp_ok_def)

lemma wf_entry_ok: "mrp_ok s \<Longrightarrow> k < length (stream_table s) \<Longrightarrow> entry_ok s (stream_table s ! k)"
  by (simp add: mrp_ok_def)

lemma put_attr_Some:
  "put_attr j f s = Some s' \<longleftrightarrow> j < length (attrs s) \<and> s' = s\<lparr>attrs := (attrs s)[j := f (attrs s ! j)]\<rparr>"
  by (auto simp: put_attr_def bind_eq_Some_conv rd_def)

lemma put_stream_Some:
  "put_stream k f s = Some s' \<longleftrightarrow>
     k < length (stream_table s) \<and> s' = s\<lparr>stream_table := (stream_table s)[k := f (stream_table s ! k)]\<rparr>"
  by (auto simp: put_stream_def bind_eq_Some_conv rd_def)

text \<open>What must hold of an attribute update: \<open>attr_upd s j a'\<close> says \<open>a'\<close> may replace attribute \<open>j\<close>.\<close>

definition attr_upd :: "ms \<Rightarrow> nat \<Rightarrow> mrp_attribute_state \<Rightarrow> bool" where
  "attr_upd s j a' \<longleftrightarrow> next_attr a' = next_attr (attrs s ! j) \<and> attr_ok s a' \<and> (owned j s \<longrightarrow> pinned a')"

lemma wf_update_attr:
  assumes "mrp_ok s" and "j < length (attrs s)" and "attr_upd s j a'"
  shows "mrp_ok (s\<lparr>attrs := (attrs s)[j := a']\<rparr>)"
proof -
  let ?s = "s\<lparr>attrs := (attrs s)[j := a']\<rparr>"
  have n: "nexts ?s = nexts s"
    using assms(2,3) by (auto simp: nexts_def fun_eq_iff nth_list_update attr_upd_def)
  have "attr_list ?s = attr_list s" by (simp add: attr_list_def n fun_eq_iff)
  moreover have "attr_ok ?s a = attr_ok s a" for a
    by (simp add: attr_ok_def info_ok_def split: attribute_info.splits)
  moreover have "entry_ok ?s = entry_ok s" by (simp add: entry_ok_def fun_eq_iff)
  moreover have "owned k ?s = owned k s" for k by (simp add: owned_def)
  moreover have "sizes_ok ?s = sizes_ok s" "buf_ok ?s = buf_ok s" by (simp_all add: sizes_ok_def buf_ok_def)
  ultimately show ?thesis
    using assms unfolding mrp_ok_def attr_upd_def
    by (auto simp: nth_list_update dest!: set_update_subset_insert [THEN subsetD])
qed

lemma wf_update_stream:
  assumes "mrp_ok s" and "entry_ok s e"
  shows "mrp_ok (s\<lparr>stream_table := (stream_table s)[k := e]\<rparr>)"
proof -
  let ?s = "s\<lparr>stream_table := (stream_table s)[k := e]\<rparr>"
  have "attr_list ?s = attr_list s" by (simp add: attr_list_def nexts_def [abs_def] fun_eq_iff)
  moreover have "attr_ok ?s = attr_ok s"
    by (simp add: attr_ok_def info_ok_def fun_eq_iff split: attribute_info.splits)
  moreover have "entry_ok ?s = entry_ok s" by (simp add: entry_ok_def fun_eq_iff)
  moreover have "owned k ?s = owned k s" for k by (simp add: owned_def)
  moreover have "sizes_ok ?s = sizes_ok s" "buf_ok ?s = buf_ok s" by (simp_all add: sizes_ok_def buf_ok_def)
  ultimately show ?thesis
    using assms unfolding mrp_ok_def
    by (auto dest!: set_update_subset_insert [THEN subsetD])
qed

text \<open>A state that agrees on everything the invariant looks at.\<close>

definition wf_view :: "ms \<Rightarrow> _" where
  "wf_view s = (attrs s, first_attr s, stream_table s, mvrp_entries s, max_num_vlan s, domain_attr s,
     num_ports s, length (periodic_timer s), length (joinTimer s), length (msrp_leaveall_timer s),
     length (mvrp_leaveall_timer s), length (msrp_leaveall_active s), length (mvrp_leaveall_active s),
     length (port_bandwidth s), length (srp_domain_boundary_port s))"

lemma wf_view_cong:
  assumes "wf_view s' = wf_view s" and "buf_ok s \<Longrightarrow> buf_ok s'" and "mrp_ok s"
  shows "mrp_ok s'"
proof -
  have "attr_list s' = attr_list s" using assms(1)
    by (simp add: wf_view_def attr_list_def nexts_def [abs_def] fun_eq_iff)
  moreover have "attr_ok s' = attr_ok s" using assms(1)
    by (simp add: wf_view_def attr_ok_def info_ok_def fun_eq_iff split: attribute_info.splits)
  moreover have "entry_ok s' = entry_ok s" using assms(1) by (simp add: wf_view_def entry_ok_def fun_eq_iff)
  moreover have "owned k s' = owned k s" for k using assms(1) by (simp add: wf_view_def owned_def)
  moreover have "sizes_ok s' = sizes_ok s" using assms(1) by (simp add: wf_view_def sizes_ok_def)
  ultimately show ?thesis using assms by (simp add: mrp_ok_def wf_view_def)
qed

lemma buf_step_wf:
  assumes "buf_step s s'" and "mrp_ok s"
  shows "mrp_ok s'"
proof -
  from assms(1) obtain b p c l where s': "s' = s\<lparr>send_buf := b, send_ptr := p, current_etype := c, tx_log := l\<rparr>"
    and "buf_ok s \<longrightarrow> buf_ok s'" unfolding buf_step_def by blast
  then have "wf_view s' = wf_view s" by (simp add: wf_view_def)
  with assms \<open>buf_ok s \<longrightarrow> buf_ok s'\<close> show ?thesis using wf_view_cong by blast
qed



section \<open>What the operations leave alone\<close>

text \<open>
  \<open>steady\<close>: sizes and ownership are unchanged. \<open>stays\<close>: the new state is well-formed, steady, and
  every attribute keeps its type, its pointer, its port and its place in the list.
\<close>

definition ident :: "mrp_attribute_state \<Rightarrow> mrp_attribute_type \<times> attribute_info \<times> nat \<times> nat option" where
  "ident a = (attribute_type a, attribute_info a, port_num a, next_attr a)"

definition steady :: "ms \<Rightarrow> ms \<Rightarrow> bool" where
  "steady s s' \<longleftrightarrow> num_ports s' = num_ports s \<and> length (attrs s') = length (attrs s)
     \<and> length (stream_table s') = length (stream_table s)
     \<and> map mv_attr (mvrp_entries s') = map mv_attr (mvrp_entries s)
     \<and> max_num_vlan s' = max_num_vlan s \<and> domain_attr s' = domain_attr s"

definition stays :: "ms \<Rightarrow> ms \<Rightarrow> bool" where
  "stays s s' \<longleftrightarrow> mrp_ok s' \<and> steady s s' \<and> first_attr s' = first_attr s
     \<and> map ident (attrs s') = map ident (attrs s)"

lemma steady_refl [simp]: "steady s s"
  by (simp add: steady_def)

lemma steady_trans: "steady s t \<Longrightarrow> steady t u \<Longrightarrow> steady s u"
  by (simp add: steady_def)

lemma steady_owned: "steady s t \<Longrightarrow> owned j t = owned j s"
proof -
  assume "steady s t"
  then have "set (map mv_attr (mvrp_entries t)) = set (map mv_attr (mvrp_entries s))"
    and d: "domain_attr t = domain_attr s" by (simp_all add: steady_def)
  then have "(\<exists>e \<in> set (mvrp_entries t). mv_attr e = Some j) = (\<exists>e \<in> set (mvrp_entries s). mv_attr e = Some j)"
    by (metis (no_types, lifting) image_iff list.set_map)
  with d show ?thesis by (simp add: owned_def)
qed

lemma stays_refl: "mrp_ok s \<Longrightarrow> stays s s"
  by (simp add: stays_def)

lemma stays_trans: "stays s t \<Longrightarrow> stays t u \<Longrightarrow> stays s u"
  by (auto simp: stays_def intro: steady_trans)

lemma stays_wf: "stays s t \<Longrightarrow> mrp_ok t"
  by (simp add: stays_def)

lemma stays_frame:
  assumes "stays s t"
  shows "length (attrs t) = length (attrs s)" "num_ports t = num_ports s"
    "length (stream_table t) = length (stream_table s)" "length (mvrp_entries t) = length (mvrp_entries s)"
    "owned j t = owned j s" "first_attr t = first_attr s"
  using assms steady_owned [of s t j]
  by (auto simp: stays_def steady_def dest: map_eq_imp_length_eq)

lemma stays_ident:
  assumes "stays s t" and "j < length (attrs s)"
  shows "attribute_type (attrs t ! j) = attribute_type (attrs s ! j)"
    "attribute_info (attrs t ! j) = attribute_info (attrs s ! j)"
    "port_num (attrs t ! j) = port_num (attrs s ! j)"
    "bound (attrs t ! j) = bound (attrs s ! j)"
    "next_attr (attrs t ! j) = next_attr (attrs s ! j)"
proof -
  have "length (attrs t) = length (attrs s)" by (rule stays_frame) fact
  then have "ident (attrs t ! j) = ident (attrs s ! j)"
    using assms by (metis nth_map stays_def)
  then show "attribute_type (attrs t ! j) = attribute_type (attrs s ! j)"
    "attribute_info (attrs t ! j) = attribute_info (attrs s ! j)"
    "port_num (attrs t ! j) = port_num (attrs s ! j)"
    "bound (attrs t ! j) = bound (attrs s ! j)"
    "next_attr (attrs t ! j) = next_attr (attrs s ! j)"
    by (simp_all add: ident_def bound_def)
qed

lemma stays_post: "post m (stays t) \<Longrightarrow> stays s t \<Longrightarrow> (\<And>u. stays s u \<Longrightarrow> Q u) \<Longrightarrow> post m Q"
  unfolding post_def by (blast intro: stays_trans)

lemma stays_tot: "tot m (stays t) \<Longrightarrow> stays s t \<Longrightarrow> (\<And>u. stays s u \<Longrightarrow> Q u) \<Longrightarrow> tot m Q"
  unfolding tot_def by (blast intro: stays_trans)

lemma wf_sizes:
  assumes "mrp_ok s" and "p < num_ports s"
  shows "p < length (periodic_timer s)" "p < length (joinTimer s)" "p < length (msrp_leaveall_timer s)"
    "p < length (mvrp_leaveall_timer s)" "p < length (msrp_leaveall_active s)"
    "p < length (mvrp_leaveall_active s)" "p < length (port_bandwidth s)" "p < length (domain_attr s)"
    "p < length (srp_domain_boundary_port s)"
  using assms by (simp_all add: mrp_ok_def sizes_ok_def)

lemma wf_port: "mrp_ok s \<Longrightarrow> j < length (attrs s) \<Longrightarrow> port_num (attrs s ! j) < num_ports s"
  using wf_attr_ok [of s j] by (simp add: attr_ok_def)

lemma stays_view:
  assumes "mrp_ok s" and "wf_view s' = wf_view s" and "send_buf s' = send_buf s" and "send_ptr s' = send_ptr s"
  shows "stays s s'"
  using assms wf_view_cong [of s' s]
  by (simp add: stays_def steady_def wf_view_def buf_ok_def)

lemma stays_buf_step:
  assumes "buf_step s s'" and "mrp_ok s"
  shows "stays s s'"
  using buf_step_wf [OF assms] assms(1)
  by (auto simp: stays_def steady_def buf_step_def)

section \<open>Attribute updates\<close>

text \<open>The fields of an attribute that the invariant looks at.\<close>

definition core :: "mrp_attribute_state \<Rightarrow> _" where
  "core a = (ident a, applicant_state a, here a)"

lemma stays_update:
  assumes "mrp_ok s" and "j < length (attrs s)" and "attr_upd s j a'" and "ident a' = ident (attrs s ! j)"
  shows "stays s (s\<lparr>attrs := (attrs s)[j := a']\<rparr>)"
  using assms wf_update_attr [OF assms(1-3)]
  by (simp add: stays_def steady_def list_update_map_same)

lemma attr_upd_core:
  assumes "mrp_ok s" and "j < length (attrs s)" and "core a' = core (attrs s ! j)"
  shows "attr_upd s j a'"
proof -
  have "attr_ok s (attrs s ! j)" by (rule wf_attr_ok) fact+
  moreover have "owned j s \<longrightarrow> pinned (attrs s ! j)" using assms(1) by (simp add: mrp_ok_def)
  ultimately show ?thesis using assms(3)
    by (simp add: attr_upd_def core_def ident_def attr_ok_def info_ok_def in_use_def bound_def pinned_def
        split: attribute_info.splits)
qed

lemma info_ok_applicant [simp]: "info_ok s (a\<lparr>applicant_state := x\<rparr>) = info_ok s a"
  by (simp add: info_ok_def split: attribute_info.split)

lemma attr_upd_applicant:
  assumes "mrp_ok s" and "j < length (attrs s)"
    and "in_use (a\<lparr>applicant_state := x\<rparr>) \<Longrightarrow> in_use a \<or> bound a"
    and "applicant_state a \<noteq> MRP_UNUSED \<Longrightarrow> x \<noteq> MRP_UNUSED" and "a = attrs s ! j"
  shows "attr_upd s j (a\<lparr>applicant_state := x\<rparr>)"
proof -
  have "attr_ok s a" using assms(1,2,5) wf_attr_ok by simp
  moreover have "owned j s \<longrightarrow> pinned a" using assms(1,5) by (simp add: mrp_ok_def)
  ultimately show ?thesis using assms(3,4) assms(5) [symmetric]
    by (auto simp: attr_upd_def attr_ok_def bound_def pinned_def)
qed

lemma put_core_tot:
  assumes "stays s t" and "j < length (attrs s)" and "\<And>a. core (f a) = core a"
    and "\<And>u. stays s u \<Longrightarrow> Q u"
  shows "tot (put_attr j f t) Q"
proof -
  have l: "j < length (attrs t)" using assms(1,2) by (simp add: stays_frame)
  have "stays t (t\<lparr>attrs := (attrs t)[j := f (attrs t ! j)]\<rparr>)"
    by (rule stays_update) (use assms(1,3) l in \<open>auto intro: attr_upd_core stays_wf simp: core_def\<close>)
  with assms(1) have "stays s (t\<lparr>attrs := (attrs t)[j := f (attrs t ! j)]\<rparr>)" by (rule stays_trans)
  then have "Q (t\<lparr>attrs := (attrs t)[j := f (attrs t ! j)]\<rparr>)" by (rule assms(4))
  with l show ?thesis by (simp add: tot_def put_attr_def)
qed

lemma stays_port:
  assumes "stays r s" and "j < length (attrs r)"
  shows "port_num (attrs r ! j) < num_ports r"
  using wf_port [OF stays_wf [OF assms(1)], of j] assms by (simp add: stays_frame stays_ident)

end
