(* ===== verification/Srp_Encode.thy ===== *)
theory Srp_Encode
  imports Mrp_Inv
begin

text \<open>
  Merging attributes into the PDU under construction: the encoders of \<^verbatim>\<open>src/srp/avb_srp.c\<close> and
  \<^verbatim>\<open>src/srp/avb_mvrp.c\<close>, and the comparison functions used to sort attributes so that adjacent
  ones can share a vector.
\<close>

section \<open>Model\<close>

text \<open>The stream identifier of a reservation as one number: \<open>(id[0] << 32) + id[1]\<close>.\<close>

definition stream_id64 :: "stream_id \<Rightarrow> u64" where
  "stream_id64 sid = push_bit 32 (ucast (fst sid)) + ucast (snd sid)"

definition fv_offset :: nat where
  "fv_offset = MSG_HDR + VEC_HDR"

definition num_values_at :: "nat \<Rightarrow> ms \<Rightarrow> u8 option" where
  "num_values_at buf s = rd (send_buf s) (buf + MSG_HDR + 1)"

definition set_num_values :: "nat \<Rightarrow> u8 \<Rightarrow> ms \<Rightarrow> ms option" where
  "set_num_values buf n s = put_bytes (buf + MSG_HDR + 1) [n] s"

definition check_listener_firstvalue_merge :: "nat \<Rightarrow> avb_srp_info \<Rightarrow> ms \<Rightarrow> bool option" where
  "check_listener_firstvalue_merge buf resv s = do {
     num_values \<leftarrow> num_values_at buf s;
     fv \<leftarrow> read_block (send_buf s) (buf + fv_offset) 8;
     let sid = ntoh64 fv + ucast num_values;
     Some (stream_id64 (stream_id resv) = sid)
   }"

definition encode_listener_message :: "nat \<Rightarrow> nat \<Rightarrow> nat \<Rightarrow> ms \<Rightarrow> (bool \<times> ms) option" where
  "encode_listener_message buf st vector s = do {
     a \<leftarrow> rd (attrs s) st;
     ty \<leftarrow> rd (send_buf s) buf;
     if ty \<noteq> 3 then Some (False, s)
     else do {
       num_values \<leftarrow> num_values_at buf s;
       merge \<leftarrow> (if num_values = 0 then Some True
                 else do { (k, e) \<leftarrow> stream_of s (attribute_info a);
                           check_listener_firstvalue_merge buf (reservation e) s });
       if merge then do {
         (k, e) \<leftarrow> stream_of s (attribute_info a);
         s \<leftarrow> (if num_values = 0 then do {
                s \<leftarrow> put_bytes (buf + fv_offset) (le_bytes32 (byterev (fst (stream_id (reservation e))))) s;
                put_bytes (buf + fv_offset + 4) (le_bytes32 (byterev (snd (stream_id (reservation e))))) s
              } else Some s);
         s \<leftarrow> mrp_encode_three_packed_event buf vector (attribute_type a) s;
         boundary \<leftarrow> rd (srp_domain_boundary_port s) (port_num a);
         s \<leftarrow> (if talker_present e \<and> \<not> boundary \<and> \<not> reservation_failed e
              then mrp_encode_four_packed_event buf AVB_SRP_FOUR_PACKED_EVENT_READY (attribute_type a) s
              else mrp_encode_four_packed_event buf AVB_SRP_FOUR_PACKED_EVENT_ASKING_FAILED (attribute_type a) s);
         s \<leftarrow> set_num_values buf (num_values + 1) s;
         Some (True, s)
       } else Some (False, s)
     }
   }"

definition check_domain_firstvalue_merge :: bool where
  "check_domain_firstvalue_merge = False"

definition encode_domain_message :: "nat \<Rightarrow> nat \<Rightarrow> nat \<Rightarrow> ms \<Rightarrow> (bool \<times> ms) option" where
  "encode_domain_message buf st vector s = do {
     a \<leftarrow> rd (attrs s) st;
     ty \<leftarrow> rd (send_buf s) buf;
     if ty \<noteq> 4 then Some (False, s)
     else do {
       num_values \<leftarrow> num_values_at buf s;
       let merge = (if num_values = 0 then True else check_domain_firstvalue_merge);
       if merge then do {
         s \<leftarrow> put_bytes (buf + fv_offset)
           [AVB_SRP_SRCLASS_DEFAULT, AVB_SRP_TSPEC_PRIORITY_DEFAULT,
            ucast (drop_bit 8 (current_vlan_id_from_domain s) AND 0xff),
            ucast (current_vlan_id_from_domain s AND 0xff)] s;
         s \<leftarrow> mrp_encode_three_packed_event buf vector (attribute_type a) s;
         s \<leftarrow> set_num_values buf (num_values + 1) s;
         Some (True, s)
       } else Some (False, s)
     }
   }"

definition mac48 :: "bytes \<Rightarrow> u64" where
  "mac48 bs = foldl (\<lambda>x b. push_bit 8 x + ucast b) 0 bs"

definition check_talker_firstvalue_merge :: "nat \<Rightarrow> avb_srp_info \<Rightarrow> ms \<Rightarrow> bool option" where
  "check_talker_firstvalue_merge buf resv s = do {
     num_values \<leftarrow> num_values_at buf s;
     my_mac \<leftarrow> read_block (dest_mac_addr resv) 0 6;
     mac \<leftarrow> read_block (send_buf s) (buf + fv_offset + 8) 6;
     if mac48 mac + ucast num_values \<noteq> mac48 my_mac then Some False
     else do {
       sid \<leftarrow> read_block (send_buf s) (buf + fv_offset) 8;
       if stream_id64 (stream_id resv) \<noteq> ntoh64 sid + ucast num_values then Some False
       else do {
         v0 \<leftarrow> rd (send_buf s) (buf + fv_offset + 14);
         v1 \<leftarrow> rd (send_buf s) (buf + fv_offset + 15);
         if sint (ntoh_16 (v0, v1)) \<noteq> sint (vlan_id resv) then Some False
         else do {
           f0 \<leftarrow> rd (send_buf s) (buf + fv_offset + 16);
           f1 \<leftarrow> rd (send_buf s) (buf + fv_offset + 17);
           Some (sint (ntoh_16 (f0, f1)) = sint (tspec_max_frame_size resv))
         }
       }
     }
   }"

definition list4 :: "u8 \<times> u8 \<times> u8 \<times> u8 \<Rightarrow> bytes" where
  "list4 q = (case q of (a, b, c, d) \<Rightarrow> [a, b, c, d])"

text \<open>The stores of \<^verbatim>\<open>encode_talker_message\<close> for a vector's first value, in the source's order.\<close>

definition put_talker_first_value :: "nat \<Rightarrow> avb_srp_info \<Rightarrow> bool \<Rightarrow> ms \<Rightarrow> ms option" where
  "put_talker_first_value fv r failed s = do {
     mac \<leftarrow> read_block (dest_mac_addr r) 0 6;
     s \<leftarrow> put_bytes (fv + 8) mac s;
     s \<leftarrow> put_bytes fv (le_bytes32 (byterev (fst (stream_id r)))) s;
     s \<leftarrow> put_bytes (fv + 4) (le_bytes32 (byterev (snd (stream_id r)))) s;
     s \<leftarrow> (if vlan_id r \<noteq> 0 then put_bytes (fv + 14) (pair_list (hton_16 (vlan_id r))) s
          else put_bytes (fv + 14) (pair_list (hton_16 (ucast (current_vlan_id_from_domain s)))) s);
     s \<leftarrow> put_bytes (fv + 20) [tspec r] s;
     s \<leftarrow> put_bytes (fv + 16) (pair_list (hton_16 (tspec_max_frame_size r))) s;
     s \<leftarrow> put_bytes (fv + 18) (pair_list (hton_16 (tspec_max_interval r))) s;
     s \<leftarrow> put_bytes (fv + 21) (list4 (hton_32 (accumulated_latency r))) s;
     if failed then do {
       s \<leftarrow> put_bytes (fv + 33) [failure_code r] s;
       bridge \<leftarrow> read_block (failure_bridge_id r) 0 8;
       put_bytes (fv + 25) bridge s
     } else Some s
   }"

definition encode_talker_message :: "nat \<Rightarrow> nat \<Rightarrow> nat \<Rightarrow> ms \<Rightarrow> (bool \<times> ms) option" where
  "encode_talker_message buf st vector s = do {
     a \<leftarrow> rd (attrs s) st;
     ty \<leftarrow> rd (send_buf s) buf;
     if attribute_type a = MSRP_TALKER_ADVERTISE \<and> ty \<noteq> 1 then Some (False, s)
     else if attribute_type a = MSRP_TALKER_FAILED \<and> ty \<noteq> 2 then Some (False, s)
     else do {
       num_values \<leftarrow> num_values_at buf s;
       merge \<leftarrow> (if num_values = 0 then Some True
                 else do { (k, e) \<leftarrow> stream_of s (attribute_info a);
                           check_talker_firstvalue_merge buf (reservation e) s });
       if merge then do {
         s \<leftarrow> (if num_values = 0 then do {
                (k, e) \<leftarrow> stream_of s (attribute_info a);
                put_talker_first_value (buf + fv_offset) (reservation e) (attribute_type a = MSRP_TALKER_FAILED) s
              } else Some s);
         s \<leftarrow> mrp_encode_three_packed_event buf vector (attribute_type a) s;
         s \<leftarrow> set_num_values buf (num_values + 1) s;
         Some (True, s)
       } else Some (False, s)
     }
   }"

definition avb_srp_encode_message :: "nat \<Rightarrow> nat \<Rightarrow> nat \<Rightarrow> ms \<Rightarrow> (bool \<times> ms) option" where
  "avb_srp_encode_message buf st vector s = do {
     a \<leftarrow> rd (attrs s) st;
     case attribute_type a of
       MSRP_TALKER_ADVERTISE \<Rightarrow> encode_talker_message buf st vector s
     | MSRP_TALKER_FAILED \<Rightarrow> encode_talker_message buf st vector s
     | MSRP_LISTENER \<Rightarrow> encode_listener_message buf st vector s
     | MSRP_DOMAIN_VECTOR \<Rightarrow> encode_domain_message buf st vector s
     | _ \<Rightarrow> Some (False, s)
   }"

definition vlan_of :: "ms \<Rightarrow> attribute_info \<Rightarrow> int option" where
  "vlan_of s i = (case i of InfoVlan k \<Rightarrow> do { e \<leftarrow> rd (mvrp_entries s) k; Some (mv_vlan e) } | _ \<Rightarrow> None)"

definition avb_mvrp_merge_message :: "nat \<Rightarrow> nat \<Rightarrow> nat \<Rightarrow> ms \<Rightarrow> (bool \<times> ms) option" where
  "avb_mvrp_merge_message buf st vector s = do {
     a \<leftarrow> rd (attrs s) st;
     ty \<leftarrow> rd (send_buf s) buf;
     if ty \<noteq> 1 then Some (False, s)
     else do {
       num_values \<leftarrow> num_values_at buf s;
       if num_values = 0 then do {
         vlan \<leftarrow> vlan_of s (attribute_info a);
         s \<leftarrow> put_bytes (buf + fv_offset) [word_of_int (drop_bit 8 vlan AND 0xff), word_of_int (vlan AND 0xff)] s;
         s \<leftarrow> mrp_encode_three_packed_event buf vector (attribute_type a) s;
         s \<leftarrow> set_num_values buf (num_values + 1) s;
         Some (True, s)
       } else Some (False, s)
     }
   }"

definition encode_msg :: "nat \<Rightarrow> nat \<Rightarrow> nat \<Rightarrow> ms \<Rightarrow> (bool \<times> ms) option" where
  "encode_msg msg st vector s = do {
     a \<leftarrow> rd (attrs s) st;
     case attribute_type a of
       MVRP_VID_VECTOR \<Rightarrow> avb_mvrp_merge_message msg st vector s
     | MMRP_MAC_VECTOR \<Rightarrow> Some (False, s)
     | _ \<Rightarrow> avb_srp_encode_message msg st vector s
   }"

text \<open>
  The talker comparison reads the table entry as an \<^verbatim>\<open>avb_stream_info_t\<close>: the byte it takes for
  \<^verbatim>\<open>local_id\<close> is byte 5 of the entry, the second byte of \<^verbatim>\<open>stream_id[1]\<close>.
\<close>

definition aliased_local_id :: "avb_stream_entry \<Rightarrow> u8" where
  "aliased_local_id e = ucast (drop_bit 8 (snd (stream_id (reservation e))))"

definition avb_srp_compare_talker_attributes ::
    "mrp_attribute_state \<Rightarrow> mrp_attribute_state \<Rightarrow> ms \<Rightarrow> bool option" where
  "avb_srp_compare_talker_attributes a b s = do {
     (k, x) \<leftarrow> stream_of s (attribute_info a);
     (l, y) \<leftarrow> stream_of s (attribute_info b);
     Some (aliased_local_id x < aliased_local_id y)
   }"

definition avb_srp_compare_listener_attributes ::
    "mrp_attribute_state \<Rightarrow> mrp_attribute_state \<Rightarrow> ms \<Rightarrow> bool option" where
  "avb_srp_compare_listener_attributes a b s = do {
     x \<leftarrow> stream_id_of s (attribute_info a);
     y \<leftarrow> stream_id_of s (attribute_info b);
     Some (if fst x < fst y then True else if fst y < fst x then False
           else if snd x < snd y then True else False)
   }"

section \<open>Frame\<close>

lemmas encode_reads =
  post_any [where m = "num_values_at b s" for b s]
  post_any [where m = "stream_of s i" for s i]
  post_any [where m = "vlan_of s i" for s i]
  post_any [where m = "read_block xs i n" for xs :: "'a list" and i n]
  post_any [where m = "check_listener_firstvalue_merge b r s" for b r s]
  post_any [where m = "check_talker_firstvalue_merge b r s" for b r s]

lemma encode_listener_message_post:
  "post (encode_listener_message buf st vector s) (\<lambda>r. buf_step s (snd r))"
  unfolding encode_listener_message_def set_num_values_def
  by (auto simp: post_simps Let_def intro!: buf_calls encode_reads)

lemma encode_domain_message_post:
  "post (encode_domain_message buf st vector s) (\<lambda>r. buf_step s (snd r))"
  unfolding encode_domain_message_def set_num_values_def
  by (auto simp: post_simps Let_def intro!: buf_calls encode_reads)

lemma put_talker_first_value_post: "post (put_talker_first_value fv r failed s) (buf_step s)"
  unfolding put_talker_first_value_def
  by (auto simp: post_simps intro!: buf_calls encode_reads)

lemma encode_talker_message_post:
  "post (encode_talker_message buf st vector s) (\<lambda>r. buf_step s (snd r))"
  unfolding encode_talker_message_def set_num_values_def
  by (auto simp: post_simps Let_def
      intro!: buf_calls put_talker_first_value_post [THEN buf_call] encode_reads)

lemma avb_mvrp_merge_message_post:
  "post (avb_mvrp_merge_message buf st vector s) (\<lambda>r. buf_step s (snd r))"
  unfolding avb_mvrp_merge_message_def set_num_values_def
  by (auto simp: post_simps Let_def intro!: buf_calls encode_reads)

lemma encode_msg_post: "post (encode_msg msg st vector s) (\<lambda>r. buf_step s (snd r))"
  unfolding encode_msg_def avb_srp_encode_message_def
  by (auto simp: post_simps encode_listener_message_post encode_domain_message_post
      encode_talker_message_post avb_mvrp_merge_message_post split: mrp_attribute_type.split)

end
