(* ===== verification/Mrp_Machine.thy ===== *)
theory Mrp_Machine
  imports Srp_Encode
begin

text \<open>
  The MRP state machines of \<^verbatim>\<open>src/srp/avb_mrp.c\<close>: transmission of one attribute (\<open>doTx\<close>), the
  registrar and applicant machines (\<open>mrp_update_state\<close>), the MAD requests, and initialisation.

  The applicant's reaction to every event that does not transmit is the function
  \<open>applicant_next\<close>; \<open>applicant_after_tx\<close> and \<open>applicant_after_tx_leave_all\<close> are the second
  \<^verbatim>\<open>switch\<close> of the two transmitting events. The case labels of the source that fall through into the
  next one are written as compositions.
\<close>

section \<open>Model: transmitting an attribute\<close>

function tx_scan :: "nat \<Rightarrow> nat \<Rightarrow> nat \<Rightarrow> nat \<Rightarrow> ms \<Rightarrow> (bool \<times> nat \<times> ms) option" where
  "tx_scan msg e st vector s =
     (if msg < e then do {
        m0 \<leftarrow> rd (send_buf s) msg;
        m1 \<leftarrow> (if m0 \<noteq> 0 then Some 1 else rd (send_buf s) (msg + 1));
        if m0 \<noteq> 0 \<or> m1 \<noteq> 0 then do {
          (merged, s) \<leftarrow> encode_msg msg st vector s;
          al \<leftarrow> attribute_list_length (send_buf s) msg;
          if merged then Some (True, msg + MSG_HDR + al, s)
          else tx_scan (msg + MSG_HDR + al) e st vector s
        } else Some (False, msg, s)
      } else Some (False, msg, s))"
  by pat_completeness auto
termination
  by (relation "measure (\<lambda>(msg, e, _). e - msg)") (auto simp: MSG_HDR_def)

declare tx_scan.simps [simp del]

definition doTx :: "nat \<Rightarrow> mrp_attribute_event \<Rightarrow> nat \<Rightarrow> ms \<Rightarrow> ms option" where
  "doTx st vector port s = do {
     (merged, msg, s) \<leftarrow> tx_scan body_start (send_ptr s) st (attr_event_code vector) s;
     a \<leftarrow> rd (attrs s) st;
     let port_to_transmit = port_num a;
     s \<leftarrow> (if \<not> merged \<and> port = port_to_transmit then do {
            s \<leftarrow> create_empty_msg (attribute_type a) False s;
            (m, s) \<leftarrow> encode_msg msg st (attr_event_code vector) s;
            Some s
          } else Some s);
     s \<leftarrow> mrp_send port_to_transmit s;
     a \<leftarrow> rd (attrs s) st;
     if remove_after_next_tx a then do {
       s \<leftarrow> mrp_change_applicant_state st MRP_UNUSED s;
       put_attr st (\<lambda>a. a\<lparr>remove_after_next_tx := False\<rparr>) s
     } else Some s
   }"

section \<open>Model: the state machines\<close>

definition start_leave_timer :: "nat \<Rightarrow> ms \<Rightarrow> ms option" where
  "start_leave_timer st s = do {
     a \<leftarrow> rd (attrs s) st;
     let (tmr, s) = start_avb_timer (leaveTimer a) MRP_LEAVETIMER_PERIOD_CENTISECONDS s;
     put_attr st (\<lambda>a. a\<lparr>leaveTimer := tmr\<rparr>) s
   }"

definition leaveall_interval :: u32 where
  "leaveall_interval = MRP_LEAVEALL_TIMER_PERIOD_CENTISECONDS div of_nat MRP_LEAVEALL_TIMER_MULTIPLIER"

definition restart_mvrp_leaveall :: "nat \<Rightarrow> ms \<Rightarrow> ms option" where
  "restart_mvrp_leaveall port s = do {
     t \<leftarrow> rd (mvrp_leaveall_timer s) port;
     let (tmr, s) = start_avb_timer t leaveall_interval s;
     Some (s\<lparr>mvrp_leaveall_timer := (mvrp_leaveall_timer s)[port := tmr]\<rparr>)
   }"

definition restart_msrp_leaveall :: "nat \<Rightarrow> ms \<Rightarrow> ms option" where
  "restart_msrp_leaveall port s = do {
     t \<leftarrow> rd (msrp_leaveall_timer s) port;
     let (tmr, s) = start_avb_timer t leaveall_interval s;
     Some (s\<lparr>msrp_leaveall_timer := (msrp_leaveall_timer s)[port := tmr]\<rparr>)
   }"

definition registrar_update :: "mrp_event \<Rightarrow> nat \<Rightarrow> nat \<Rightarrow> nat \<Rightarrow> ms \<Rightarrow> ms option" where
  "registrar_update e st four port s = do {
     a \<leftarrow> rd (attrs s) st;
     if e = MRP_EVENT_BEGIN then
       put_attr st (\<lambda>a. a\<lparr>registrar_state := MRP_MT\<rparr>) s
     else if e = MRP_EVENT_RECEIVE_NEW then
       put_attr st (\<lambda>a. a\<lparr>leaveTimer := (if registrar_state a = MRP_LV then stop_avb_timer (leaveTimer a) else leaveTimer a),
          registrar_state := MRP_IN,
          pending_indications := pending_indications a OR PENDING_JOIN_NEW,
          four_vector_parameter := four\<rparr>) s
     else if e = MRP_EVENT_RECEIVE_JOININ \<or> e = MRP_EVENT_RECEIVE_JOINMT then do {
       s \<leftarrow> put_attr st (\<lambda>a. a\<lparr>leaveTimer :=
              (if registrar_state a = MRP_LV then stop_avb_timer (leaveTimer a) else leaveTimer a)\<rparr>) s;
       s \<leftarrow> (if registrar_state a = MRP_MT
               \<or> (four_vector_parameter a = AVB_SRP_FOUR_PACKED_EVENT_ASKING_FAILED
                  \<and> four = AVB_SRP_FOUR_PACKED_EVENT_READY)
            then put_attr st (\<lambda>a. a\<lparr>pending_indications := pending_indications a OR PENDING_JOIN,
                   four_vector_parameter := four\<rparr>) s
            else Some s);
       put_attr st (\<lambda>a. a\<lparr>registrar_state := MRP_IN\<rparr>) s
     }
     else if e \<in> {MRP_EVENT_RECEIVE_LEAVE, MRP_EVENT_RECEIVE_LEAVE_ALL, MRP_EVENT_TX_LEAVE_ALL, MRP_EVENT_REDECLARE}
     then do {
       s \<leftarrow> (if e = MRP_EVENT_RECEIVE_LEAVE_ALL then
              (if attribute_type a = MVRP_VID_VECTOR then do {
                 s \<leftarrow> restart_mvrp_leaveall port s;
                 act \<leftarrow> wr (mvrp_leaveall_active s) port False;
                 Some (s\<lparr>mvrp_leaveall_active := act\<rparr>)
               } else do {
                 s \<leftarrow> restart_msrp_leaveall port s;
                 act \<leftarrow> wr (msrp_leaveall_active s) port False;
                 Some (s\<lparr>msrp_leaveall_active := act\<rparr>)
               })
            else Some s);
       if registrar_state a = MRP_IN then do {
         s \<leftarrow> start_leave_timer st s;
         put_attr st (\<lambda>a. a\<lparr>registrar_state := MRP_LV\<rparr>) s
       } else Some s
     }
     else if e = MRP_EVENT_LEAVETIMER \<or> e = MRP_EVENT_FLUSH then do {
       s \<leftarrow> (if registrar_state a = MRP_LV
            then put_attr st (\<lambda>a. a\<lparr>pending_indications := pending_indications a OR PENDING_LEAVE,
                   four_vector_parameter := four\<rparr>) s
            else Some s);
       put_attr st (\<lambda>a. a\<lparr>registrar_state := MRP_MT\<rparr>) s
     }
     else Some s
   }"

fun after_receive_mt :: "mrp_applicant_state \<Rightarrow> mrp_applicant_state" where
  "after_receive_mt MRP_QA = MRP_AA"
| "after_receive_mt MRP_QO = MRP_AO"
| "after_receive_mt MRP_QP = MRP_AP"
| "after_receive_mt MRP_LO = MRP_VO"
| "after_receive_mt st = st"

fun after_receive_in :: "mrp_applicant_state \<Rightarrow> mrp_applicant_state" where
  "after_receive_in MRP_AA = MRP_QA"
| "after_receive_in st = st"

fun after_receive_joinin :: "mrp_applicant_state \<Rightarrow> mrp_applicant_state" where
  "after_receive_joinin MRP_AA = MRP_QA"
| "after_receive_joinin MRP_AO = MRP_QO"
| "after_receive_joinin MRP_AP = MRP_QP"
| "after_receive_joinin st = st"

definition after_receive_leave :: "mrp_applicant_state \<Rightarrow> mrp_applicant_state" where
  "after_receive_leave st =
     (case st of MRP_VO \<Rightarrow> MRP_LO | MRP_AO \<Rightarrow> MRP_LO | MRP_QO \<Rightarrow> MRP_LO | MRP_AN \<Rightarrow> MRP_VN
      | MRP_AA \<Rightarrow> MRP_VP | MRP_QA \<Rightarrow> MRP_VP | MRP_AP \<Rightarrow> MRP_VP | MRP_QP \<Rightarrow> MRP_VP | _ \<Rightarrow> st)"

fun applicant_next :: "mrp_event \<Rightarrow> mrp_applicant_state \<Rightarrow> mrp_applicant_state" where
  "applicant_next MRP_EVENT_BEGIN st = MRP_VO"
| "applicant_next MRP_EVENT_NEW st = MRP_VN"
| "applicant_next MRP_EVENT_JOIN st =
     (case st of MRP_VO \<Rightarrow> MRP_VP | MRP_LO \<Rightarrow> MRP_VP | MRP_LA \<Rightarrow> MRP_AA | MRP_AO \<Rightarrow> MRP_AP
      | MRP_QO \<Rightarrow> MRP_QP | _ \<Rightarrow> st)"
| "applicant_next MRP_EVENT_LV st =
     (case st of MRP_QP \<Rightarrow> MRP_QO | MRP_AP \<Rightarrow> MRP_AO | MRP_VP \<Rightarrow> MRP_VO
      | MRP_VN \<Rightarrow> MRP_LA | MRP_AN \<Rightarrow> MRP_LA | MRP_AA \<Rightarrow> MRP_LA | MRP_QA \<Rightarrow> MRP_LA | _ \<Rightarrow> st)"
| "applicant_next MRP_EVENT_RECEIVE_JOININ st =
     after_receive_mt (after_receive_in (after_receive_joinin st))"
| "applicant_next MRP_EVENT_RECEIVE_IN st = after_receive_mt (after_receive_in st)"
| "applicant_next MRP_EVENT_RECEIVE_JOINMT st = after_receive_mt st"
| "applicant_next MRP_EVENT_RECEIVE_MT st = after_receive_mt st"
| "applicant_next MRP_EVENT_RECEIVE_LEAVE st = after_receive_leave st"
| "applicant_next MRP_EVENT_RECEIVE_LEAVE_ALL st = after_receive_leave st"
| "applicant_next MRP_EVENT_REDECLARE st = after_receive_leave st"
| "applicant_next MRP_EVENT_PERIODIC st =
     (case st of MRP_QA \<Rightarrow> MRP_AA | MRP_QP \<Rightarrow> MRP_AP | _ \<Rightarrow> st)"
| "applicant_next e st = st"

definition applicant_after_tx :: "mrp_registrar_state \<Rightarrow> mrp_applicant_state \<Rightarrow> mrp_applicant_state" where
  "applicant_after_tx reg st =
     (case st of MRP_VP \<Rightarrow> MRP_AA | MRP_VN \<Rightarrow> MRP_AN
      | MRP_AN \<Rightarrow> (if reg \<noteq> MRP_IN then MRP_AA else MRP_QA)
      | MRP_AA \<Rightarrow> MRP_QA | MRP_AP \<Rightarrow> MRP_QA | MRP_LA \<Rightarrow> MRP_VO | MRP_LO \<Rightarrow> MRP_VO | _ \<Rightarrow> st)"

definition applicant_after_tx_leave_all :: "mrp_applicant_state \<Rightarrow> mrp_applicant_state" where
  "applicant_after_tx_leave_all st =
     (case st of MRP_VO \<Rightarrow> MRP_LO | MRP_LA \<Rightarrow> MRP_LO | MRP_AO \<Rightarrow> MRP_LO | MRP_QO \<Rightarrow> MRP_LO
      | MRP_VN \<Rightarrow> MRP_AN | MRP_AN \<Rightarrow> MRP_QA | MRP_AA \<Rightarrow> MRP_QA | MRP_AP \<Rightarrow> MRP_QA | MRP_QP \<Rightarrow> MRP_QA
      | _ \<Rightarrow> st)"

definition tx_states :: "mrp_applicant_state set" where
  "tx_states = {MRP_VP, MRP_VN, MRP_AN, MRP_AA, MRP_LA, MRP_AP, MRP_LO}"

definition tx_leave_all_states :: "mrp_applicant_state set" where
  "tx_leave_all_states = {MRP_VP, MRP_VN, MRP_AN, MRP_AA, MRP_LA, MRP_QA, MRP_AP, MRP_QP}"

definition applicant_update :: "mrp_event \<Rightarrow> nat \<Rightarrow> nat \<Rightarrow> ms \<Rightarrow> ms option" where
  "applicant_update e st port s =
     (if e = MRP_EVENT_TX then do {
        a \<leftarrow> rd (attrs s) st;
        s \<leftarrow> (if applicant_state a \<in> tx_states then doTx st (makeTxEvent a False) port s else Some s);
        put_attr st (\<lambda>a. a\<lparr>applicant_state := applicant_after_tx (registrar_state a) (applicant_state a)\<rparr>) s
      }
      else if e = MRP_EVENT_TX_LEAVE_ALL then do {
        a \<leftarrow> rd (attrs s) st;
        s \<leftarrow> (if applicant_state a \<in> tx_leave_all_states then doTx st (makeTxEvent a True) port s else Some s);
        put_attr st (\<lambda>a. a\<lparr>applicant_state := applicant_after_tx_leave_all (applicant_state a)\<rparr>) s
      }
      else put_attr st (\<lambda>a. a\<lparr>applicant_state := applicant_next e (applicant_state a)\<rparr>) s)"

definition mrp_update_state :: "mrp_event \<Rightarrow> nat \<Rightarrow> nat \<Rightarrow> nat \<Rightarrow> ms \<Rightarrow> ms option" where
  "mrp_update_state e st four port s = do {
     s \<leftarrow> registrar_update e st four port s;
     applicant_update e st port s
   }"

section \<open>Model: MAD requests and initialisation\<close>

definition mrp_mad_begin :: "nat \<Rightarrow> ms \<Rightarrow> ms option" where
  "mrp_mad_begin st s = do {
     s \<leftarrow> put_attr st (\<lambda>a. a\<lparr>leaveTimer := init_avb_timer (leaveTimer a) 1\<rparr>) s;
     a \<leftarrow> rd (attrs s) st;
     mrp_update_state MRP_EVENT_BEGIN st 0 (port_num a) s
   }"

definition mrp_mad_join :: "nat \<Rightarrow> bool \<Rightarrow> ms \<Rightarrow> ms option" where
  "mrp_mad_join st new s = do {
     s \<leftarrow> put_attr st (\<lambda>a. a\<lparr>remove_after_next_tx := False\<rparr>) s;
     a \<leftarrow> rd (attrs s) st;
     if new then mrp_update_state MRP_EVENT_NEW st 0 (port_num a) s
     else mrp_update_state MRP_EVENT_JOIN st 0 (port_num a) s
   }"

definition mrp_mad_leave :: "nat \<Rightarrow> ms \<Rightarrow> ms option" where
  "mrp_mad_leave st s = do {
     a \<leftarrow> rd (attrs s) st;
     mrp_update_state MRP_EVENT_LV st 0 (port_num a) s
   }"

definition periodic_interval :: u32 where
  "periodic_interval = MRP_PERIODIC_TIMER_PERIOD_CENTISECONDS div of_nat MRP_PERIODIC_TIMER_MULTIPLIER"

definition init_port_timers :: "nat \<Rightarrow> ms \<Rightarrow> ms option" where
  "init_port_timers i s = do {
     t \<leftarrow> rd (periodic_timer s) i;
     let (t, s) = start_avb_timer (init_avb_timer t (int MRP_PERIODIC_TIMER_MULTIPLIER)) periodic_interval s;
     let s = s\<lparr>periodic_timer := (periodic_timer s)[i := t]\<rparr>;
     t \<leftarrow> rd (joinTimer s) i;
     let (t, s) = start_avb_timer (init_avb_timer t 1) MRP_JOINTIMER_PERIOD_CENTISECONDS s;
     let s = s\<lparr>joinTimer := (joinTimer s)[i := t]\<rparr>;
     t \<leftarrow> rd (msrp_leaveall_timer s) i;
     let (t, s) = start_avb_timer (init_avb_timer t (int MRP_LEAVEALL_TIMER_MULTIPLIER)) leaveall_interval s;
     let s = s\<lparr>msrp_leaveall_timer := (msrp_leaveall_timer s)[i := t]\<rparr>;
     t \<leftarrow> rd (mvrp_leaveall_timer s) i;
     let (t, s) = start_avb_timer (init_avb_timer t (int MRP_LEAVEALL_TIMER_MULTIPLIER)) leaveall_interval s;
     let s = s\<lparr>mvrp_leaveall_timer := (mvrp_leaveall_timer s)[i := t]\<rparr>;
     act \<leftarrow> wr (msrp_leaveall_active s) i False;
     let s = s\<lparr>msrp_leaveall_active := act\<rparr>;
     act \<leftarrow> wr (mvrp_leaveall_active s) i False;
     Some (s\<lparr>mvrp_leaveall_active := act\<rparr>)
   }"

definition mrp_init :: "bytes \<Rightarrow> ms \<Rightarrow> ms option" where
  "mrp_init macaddr s = do {
     mac \<leftarrow> read_block macaddr 0 6;
     s \<leftarrow> put_bytes 6 mac s;
     let s = s\<lparr>attrs := map (\<lambda>i. (attrs s ! i)\<lparr>applicant_state := MRP_UNUSED,
            next_attr := (if i \<noteq> length (attrs s) - 1 then Some (i + 1) else None)\<rparr>) [0..<length (attrs s)]\<rparr>;
     let s = s\<lparr>first_attr := Some 0\<rparr>;
     for_each [0..<num_ports s] init_port_timers s
   }"

lemma tx_scan_post: "post (tx_scan msg e st vector s) (\<lambda>(m, p, s'). buf_step s s')"
proof (induction "e - msg" arbitrary: msg s rule: less_induct)
  case less
  have rec: "post (tx_scan (msg + MSG_HDR + al) e st vector u) (\<lambda>(m, p, s'). buf_step s s')"
    if "msg < e" and u: "buf_step s u" for al u
  proof (rule post_call)
    show "post (tx_scan (msg + MSG_HDR + al) e st vector u) (\<lambda>(m, p, s'). buf_step u s')"
      by (rule less) (use \<open>msg < e\<close> in \<open>simp add: MSG_HDR_def\<close>)
  qed (use u in \<open>auto intro: buf_step_trans\<close>)
  show ?case
    by (subst tx_scan.simps)
      (auto simp: post_simps intro!: encode_msg_post [THEN buf_call_pair] rec
        post_any [where m = "attribute_list_length b m" for b m])
qed

section \<open>The state machines keep the invariant\<close>

definition rx_event :: "mrp_event \<Rightarrow> bool" where
  "rx_event e \<longleftrightarrow> e \<noteq> MRP_EVENT_TX \<and> e \<noteq> MRP_EVENT_TX_LEAVE_ALL"

lemma applicant_next_used:
  "x \<noteq> MRP_UNUSED \<Longrightarrow> applicant_next e x \<noteq> MRP_UNUSED"
  by (cases e; cases x) (simp_all add: after_receive_leave_def)

lemma applicant_next_in_use:
  "e \<noteq> MRP_EVENT_BEGIN \<Longrightarrow> e \<noteq> MRP_EVENT_NEW \<Longrightarrow>
   in_use (a\<lparr>applicant_state := applicant_next e (applicant_state a)\<rparr>) = in_use a"
  by (cases e; cases "applicant_state a") (simp_all add: in_use_def after_receive_leave_def)

lemma start_timer_eq: "start_avb_timer t p s = (fst (start_avb_timer t p s), s\<lparr>clk_reads := Suc (clk_reads s)\<rparr>)"
  by (simp add: start_avb_timer_def get_local_time_def Let_def)

lemma start_leave_timer_tot:
  assumes "stays r s" and "st < length (attrs r)" and "\<And>u. stays r u \<Longrightarrow> Q u"
  shows "tot (start_leave_timer st s) Q"
proof -
  have "stays s (s\<lparr>clk_reads := Suc (clk_reads s)\<rparr>)"
    by (rule stays_view) (use assms(1) in \<open>simp_all add: stays_wf wf_view_def\<close>)
  with assms(1) have c: "stays r (s\<lparr>clk_reads := Suc (clk_reads s)\<rparr>)" by (rule stays_trans)
  have "st < length (attrs s)" using assms by (simp add: stays_frame)
  then show ?thesis unfolding start_leave_timer_def
    by (subst start_timer_eq)
      (auto simp: tot_simps core_def ident_def intro!: put_core_tot [OF c assms(2)] assms(3))
qed

lemma restart_leaveall_tot:
  assumes "stays r s" and "port < num_ports r" and "\<And>u. stays r u \<Longrightarrow> port < length (mvrp_leaveall_active u) \<Longrightarrow> port < length (msrp_leaveall_active u) \<Longrightarrow> Q u"
  shows "tot (restart_mvrp_leaveall port s) Q" "tot (restart_msrp_leaveall port s) Q"
proof -
  have w: "mrp_ok s" "port < num_ports s" using assms(1,2) by (simp_all add: stays_wf stays_frame)
  have *: "stays r u" if "wf_view u = wf_view s" "send_buf u = send_buf s" "send_ptr u = send_ptr s" for u
    using assms(1) stays_view [OF w(1) that] by (rule stays_trans)
  show "tot (restart_mvrp_leaveall port s) Q" unfolding restart_mvrp_leaveall_def
    by (subst start_timer_eq) (auto simp: tot_simps wf_sizes [OF w] wf_view_def intro!: assms(3) *)
  show "tot (restart_msrp_leaveall port s) Q" unfolding restart_msrp_leaveall_def
    by (subst start_timer_eq) (auto simp: tot_simps wf_sizes [OF w] wf_view_def intro!: assms(3) *)
qed


lemma stays_active:
  assumes "stays r u"
  shows "stays r (u\<lparr>mvrp_leaveall_active := (mvrp_leaveall_active u)[port := b]\<rparr>)"
    "stays r (u\<lparr>msrp_leaveall_active := (msrp_leaveall_active u)[port := b]\<rparr>)"
  by (rule stays_trans [OF assms], rule stays_view; simp add: stays_wf [OF assms] wf_view_def)+

lemma registrar_update_tot:
  assumes "mrp_ok s" and st: "st < length (attrs s)" and port: "port < num_ports s"
  shows "tot (registrar_update e st four port s) (stays s)"
proof -
  note r = stays_refl [OF assms(1)]
  show ?thesis
    unfolding registrar_update_def
    by (auto simp: tot_simps st core_def ident_def r
      intro!: put_core_tot [OF _ st] start_leave_timer_tot [OF _ st] restart_leaveall_tot [OF _ port] stays_active)
qed

lemma applicant_rx_tot:
  assumes "stays r s" and st: "st < length (attrs r)" and rx: "rx_event e"
    and b: "e = MRP_EVENT_BEGIN \<or> e = MRP_EVENT_NEW \<Longrightarrow> bound (attrs r ! st)"
  shows "tot (applicant_update e st port s) (stays r)"
proof -
  have l: "st < length (attrs s)" using assms(1) st by (simp add: stays_frame)
  let ?a = "attrs s ! st"
  have "in_use ?a \<or> bound ?a" if "in_use (?a\<lparr>applicant_state := applicant_next e (applicant_state ?a)\<rparr>)"
    using that b stays_ident(4) [OF assms(1) st] applicant_next_in_use by blast
  then have "attr_upd s st (?a\<lparr>applicant_state := applicant_next e (applicant_state ?a)\<rparr>)"
    by (intro attr_upd_applicant) (use stays_wf [OF assms(1)] l in \<open>auto simp: applicant_next_used\<close>)
  then have "stays s (s\<lparr>attrs := (attrs s)[st := ?a\<lparr>applicant_state := applicant_next e (applicant_state ?a)\<rparr>]\<rparr>)"
    by (intro stays_update) (use stays_wf [OF assms(1)] l in \<open>auto simp: ident_def\<close>)
  then show ?thesis using rx l stays_trans [OF assms(1)]
    by (simp add: applicant_update_def rx_event_def put_attr_def tot_def)
qed

lemma update_state_rx_tot:
  assumes "mrp_ok s" and "st < length (attrs s)" and "port < num_ports s" and "rx_event e"
    and "e = MRP_EVENT_BEGIN \<or> e = MRP_EVENT_NEW \<Longrightarrow> bound (attrs s ! st)"
  shows "tot (mrp_update_state e st four port s) (stays s)"
  unfolding mrp_update_state_def tot_construct
  by (rule tot_call [OF registrar_update_tot [OF assms(1-3)]], rule applicant_rx_tot)
    (use assms in simp_all)

lemma update_state_rx_call:
  assumes "stays r s" and "st < length (attrs r)" and "port < num_ports r" and "rx_event e"
    and "e = MRP_EVENT_BEGIN \<or> e = MRP_EVENT_NEW \<Longrightarrow> bound (attrs r ! st)"
    and "\<And>u. stays r u \<Longrightarrow> Q u"
  shows "tot (mrp_update_state e st four port s) Q"
  by (rule stays_tot [OF update_state_rx_tot assms(1)])
    (use assms in \<open>simp_all add: stays_wf stays_frame stays_ident\<close>)

lemma rx_events [simp]:
  "rx_event MRP_EVENT_BEGIN" "rx_event MRP_EVENT_NEW" "rx_event MRP_EVENT_JOIN" "rx_event MRP_EVENT_LV"
  "rx_event MRP_EVENT_LEAVETIMER" "rx_event MRP_EVENT_RECEIVE_NEW" "rx_event MRP_EVENT_RECEIVE_JOININ"
  "rx_event MRP_EVENT_RECEIVE_IN" "rx_event MRP_EVENT_RECEIVE_JOINMT" "rx_event MRP_EVENT_RECEIVE_MT"
  "rx_event MRP_EVENT_RECEIVE_LEAVE" "rx_event MRP_EVENT_RECEIVE_LEAVE_ALL" "rx_event MRP_EVENT_PERIODIC"
  by (simp_all add: rx_event_def)

lemma mrp_mad_begin_tot:
  assumes "stays r s" and st: "st < length (attrs r)" and "bound (attrs r ! st)" and "\<And>u. stays r u \<Longrightarrow> Q u"
  shows "tot (mrp_mad_begin st s) Q"
  unfolding mrp_mad_begin_def tot_construct
  by (rule put_core_tot [OF assms(1) st])
    (auto simp: core_def ident_def tot_simps stays_frame st assms(3) stays_ident
      intro!: update_state_rx_call assms(4) stays_port)

lemma mrp_mad_join_tot:
  assumes "stays r s" and st: "st < length (attrs r)" and "new \<Longrightarrow> bound (attrs r ! st)" and "\<And>u. stays r u \<Longrightarrow> Q u"
  shows "tot (mrp_mad_join st new s) Q"
  unfolding mrp_mad_join_def tot_construct
  by (rule put_core_tot [OF assms(1) st])
    (auto simp: core_def ident_def tot_simps stays_frame st assms(3) stays_ident
      intro!: update_state_rx_call assms(4) stays_port)

lemma mrp_mad_leave_tot:
  assumes "stays r s" and st: "st < length (attrs r)" and "\<And>u. stays r u \<Longrightarrow> Q u"
  shows "tot (mrp_mad_leave st s) Q"
  unfolding mrp_mad_leave_def tot_construct
  using assms by (auto simp: tot_simps stays_frame stays_ident intro!: update_state_rx_call stays_port)

section \<open>Clean-up and transmission\<close>

lemma entry_ok_stays: "stays r s \<Longrightarrow> entry_ok s e = entry_ok r e"
  by (simp add: entry_ok_def stays_frame)

lemma put_stream_post:
  assumes "stays r s" and "\<And>e. entry_ok r e \<Longrightarrow> entry_ok r (f e)" and "\<And>u. stays r u \<Longrightarrow> Q u"
  shows "post (put_stream k f s) Q"
proof (rule postI)
  fix u assume "put_stream k f s = Some u"
  then have k: "k < length (stream_table s)" and u: "u = s\<lparr>stream_table := (stream_table s)[k := f (stream_table s ! k)]\<rparr>"
    by (simp_all add: put_stream_Some)
  have "entry_ok s (f (stream_table s ! k))"
    using wf_entry_ok [OF stays_wf [OF assms(1)] k] assms(2) by (simp add: entry_ok_stays [OF assms(1)])
  then have "mrp_ok u" unfolding u using stays_wf [OF assms(1)] by (intro wf_update_stream)
  then have "stays s u" by (simp add: u stays_def steady_def)
  with assms(1,3) show "Q u" by (blast intro: stays_trans)
qed

lemma zero_entry_ok: "entry_ok s (zero_stream_entry (num_ports s))"
  by (simp add: entry_ok_def zero_stream_entry_def zero_srp_info_def)

lemma put_unused_post:
  assumes "stays r s" and "st < length (attrs s)"
    and "\<not> here (attrs s ! st) \<or> attribute_type (attrs s ! st) = MSRP_LISTENER" and "\<And>u. stays r u \<Longrightarrow> Q u"
  shows "post (put_attr st (\<lambda>a. a\<lparr>applicant_state := MRP_UNUSED\<rparr>) s) Q"
proof -
  let ?a = "attrs s ! st"
  have "\<not> owned st s" using assms(3) stays_wf [OF assms(1)] by (auto simp: mrp_ok_def pinned_def)
  then have "attr_upd s st (?a\<lparr>applicant_state := MRP_UNUSED\<rparr>)"
    using wf_attr_ok [OF stays_wf [OF assms(1)] assms(2)]
    by (simp add: attr_upd_def attr_ok_def in_use_def bound_def)
  then have "stays s (s\<lparr>attrs := (attrs s)[st := ?a\<lparr>applicant_state := MRP_UNUSED\<rparr>]\<rparr>)"
    by (intro stays_update) (use stays_wf [OF assms(1)] assms(2) in \<open>auto simp: ident_def\<close>)
  with assms(1) have "stays r (s\<lparr>attrs := (attrs s)[st := ?a\<lparr>applicant_state := MRP_UNUSED\<rparr>]\<rparr>)"
    by (rule stays_trans)
  then show ?thesis using assms(2,4) by (simp add: put_attr_def post_simps)
qed

lemma srp_remove_post:
  assumes "stays r s" and "\<And>u. stays r u \<Longrightarrow> Q u"
  shows "post (srp_remove_reservation_entry sid s) Q"
  unfolding srp_remove_reservation_entry_def
  using assms zero_entry_ok [of r] by (auto simp: post_simps stays_frame intro!: put_stream_post)

lemmas search_reads =
  post_any [where m = "stream_id_of s i" for s i]
  post_any [where m = "stream_of s i" for s i]
  post_any [where m = "mrp_match_attribute_pair_by_stream_id x y z s" for x y z s]
  post_any [where m = "mrp_match_attr_by_stream_and_type x y z s" for x y z s]

lemma srp_cleanup_post:
  assumes "stays r s" and "\<And>b u. stays r u \<Longrightarrow> Q (b, u)"
  shows "post (srp_cleanup_reservation_entry st s) Q"
  unfolding srp_cleanup_reservation_entry_def
  by (auto simp: post_simps assms(1) stays_frame [OF assms(1)]
    intro!: put_unused_post [OF assms(1)] srp_remove_post assms(2) search_reads)

lemma put_applicant_post:
  assumes "stays r s" and "st < length (attrs r)" and "\<And>u. stays r u \<Longrightarrow> Q u"
    and "\<And>a. in_use (a\<lparr>applicant_state := g a\<rparr>) = in_use a"
    and "\<And>a. applicant_state a \<noteq> MRP_UNUSED \<Longrightarrow> g a \<noteq> MRP_UNUSED"
  shows "post (put_attr st (\<lambda>a. a\<lparr>applicant_state := g a\<rparr>) s) Q"
proof -
  let ?a = "attrs s ! st"
  have l: "st < length (attrs s)" using assms(1,2) by (simp add: stays_frame)
  have "attr_upd s st (?a\<lparr>applicant_state := g ?a\<rparr>)"
    by (rule attr_upd_applicant) (use stays_wf [OF assms(1)] l assms(4,5) in auto)
  then have "stays s (s\<lparr>attrs := (attrs s)[st := ?a\<lparr>applicant_state := g ?a\<rparr>]\<rparr>)"
    by (intro stays_update) (use stays_wf [OF assms(1)] l in \<open>auto simp: ident_def\<close>)
  with assms(1) have "stays r (s\<lparr>attrs := (attrs s)[st := ?a\<lparr>applicant_state := g ?a\<rparr>]\<rparr>)"
    by (rule stays_trans)
  then show ?thesis using l assms(3) by (simp add: put_attr_def post_simps)
qed

lemma put_core_post:
  assumes "stays s t" and "\<And>a. core (f a) = core a" and "\<And>u. stays s u \<Longrightarrow> Q u"
  shows "post (put_attr j f t) Q"
proof (cases "j < length (attrs s)")
  case True
  with assms show ?thesis by (intro tot_post put_core_tot)
next
  case False
  with assms(1) show ?thesis by (simp add: put_attr_def post_simps stays_frame)
qed

lemma stays_buf: "stays r s \<Longrightarrow> buf_step s u \<Longrightarrow> stays r u"
  by (blast intro: stays_trans stays_buf_step stays_wf)

lemma stays_buf_post:
  "post m (buf_step t) \<Longrightarrow> stays s t \<Longrightarrow> (\<And>u. stays s u \<Longrightarrow> Q u) \<Longrightarrow> post m Q"
  unfolding post_def by (blast intro: stays_buf)

lemma encode_msg_stays:
  "stays s t \<Longrightarrow> (\<And>b u. stays s u \<Longrightarrow> Q (b, u)) \<Longrightarrow> post (encode_msg msg st vector t) Q"
  using encode_msg_post [of msg st vector t] unfolding post_def by (metis stays_buf prod.collapse)

lemma tx_scan_stays:
  assumes "stays s t" and "\<And>b p u. stays s u \<Longrightarrow> Q (b, p, u)"
  shows "post (tx_scan msg e st vector t) Q"
  by (rule post_call [OF tx_scan_post]) (auto intro: assms(2) stays_buf [OF assms(1)])

lemma doTx_post:
  assumes "stays r s" and "\<And>u. stays r u \<Longrightarrow> Q u"
  shows "post (doTx st vector port s) Q"
  unfolding doTx_def mrp_change_applicant_state_def
  by (auto simp: post_simps Let_def core_def ident_def assms(1)
    intro!: tx_scan_stays [OF assms(1)] encode_msg_stays buf_posts [THEN stays_buf_post] srp_cleanup_post put_core_post assms(2))

lemma after_tx_in_use:
  "in_use (a\<lparr>applicant_state := applicant_after_tx (registrar_state a) (applicant_state a)\<rparr>) = in_use a"
  "in_use (a\<lparr>applicant_state := applicant_after_tx_leave_all (applicant_state a)\<rparr>) = in_use a"
  "applicant_state a \<noteq> MRP_UNUSED \<Longrightarrow> applicant_after_tx (registrar_state a) (applicant_state a) \<noteq> MRP_UNUSED"
  "applicant_state a \<noteq> MRP_UNUSED \<Longrightarrow> applicant_after_tx_leave_all (applicant_state a) \<noteq> MRP_UNUSED"
  by (cases "applicant_state a"; simp add: in_use_def applicant_after_tx_def applicant_after_tx_leave_all_def)+

lemma applicant_tx_post:
  assumes "stays r s" and st: "st < length (attrs r)" and "\<not> rx_event e"
  shows "post (applicant_update e st port s) (stays r)"
  unfolding applicant_update_def
  using assms(1,3)
  by (auto simp: rx_event_def post_simps after_tx_in_use intro!: doTx_post [OF assms(1)] put_applicant_post [OF _ st])

lemma update_state_post:
  assumes "stays r s" and "st < length (attrs r)" and "port < num_ports r"
    and "e = MRP_EVENT_BEGIN \<or> e = MRP_EVENT_NEW \<Longrightarrow> bound (attrs r ! st)"
    and "\<And>u. stays r u \<Longrightarrow> Q u"
  shows "post (mrp_update_state e st four port s) Q"
proof (cases "rx_event e")
  case True
  with assms show ?thesis by (intro tot_post update_state_rx_call)
next
  case False
  have "tot (registrar_update e st four port s) (stays s)"
    using assms by (intro registrar_update_tot) (simp_all add: stays_wf stays_frame)
  then have "post (registrar_update e st four port s) (\<lambda>u. post (applicant_update e st port u) Q)"
  proof (rule tot_post [THEN post_call])
    fix u assume "stays s u"
    with assms(1) have "stays r u" by (rule stays_trans)
    then show "post (applicant_update e st port u) Q"
      by (rule applicant_tx_post [THEN post_call]) (use assms(2,5) False in simp_all)
  qed
  then show ?thesis by (simp add: mrp_update_state_def post_simps)
qed

section \<open>Behaviour of the state machines\<close>

lemma update_leave_in:
  assumes "st < length (attrs s)" and "registrar_state (attrs s ! st) = MRP_IN"
  shows "\<exists>t. mrp_update_state MRP_EVENT_RECEIVE_LEAVE st four port s = Some (s\<lparr>clk_reads := Suc (clk_reads s),
       attrs := (attrs s)[st := (attrs s ! st)\<lparr>leaveTimer := t, registrar_state := MRP_LV,
         applicant_state := after_receive_leave (applicant_state (attrs s ! st))\<rparr>]\<rparr>)
     \<and> tmr_active t = tmr_multiplier (leaveTimer (attrs s ! st))"
  using assms
  by (auto simp: mrp_update_state_def registrar_update_def applicant_update_def start_leave_timer_def put_attr_def
      start_avb_timer_def get_local_time_def Let_def)

lemma update_leavetimer_lv:
  assumes "st < length (attrs s)" and "registrar_state (attrs s ! st) = MRP_LV"
  shows "mrp_update_state MRP_EVENT_LEAVETIMER st four port s = Some (s\<lparr>attrs := (attrs s)[st := (attrs s ! st)
     \<lparr>pending_indications := pending_indications (attrs s ! st) OR PENDING_LEAVE,
      four_vector_parameter := four, registrar_state := MRP_MT\<rparr>]\<rparr>)"
  using assms
  by (auto simp: mrp_update_state_def registrar_update_def applicant_update_def put_attr_def)

lemma update_joinin_lv:
  assumes "st < length (attrs s)" and "registrar_state (attrs s ! st) = MRP_LV"
    and "four_vector_parameter (attrs s ! st) = four"
  shows "mrp_update_state MRP_EVENT_RECEIVE_JOININ st four port s = Some (s\<lparr>attrs := (attrs s)[st := (attrs s ! st)
     \<lparr>leaveTimer := stop_avb_timer (leaveTimer (attrs s ! st)), registrar_state := MRP_IN,
      applicant_state := applicant_next MRP_EVENT_RECEIVE_JOININ (applicant_state (attrs s ! st))\<rparr>]\<rparr>)"
proof -
  have "\<not> (four = AVB_SRP_FOUR_PACKED_EVENT_ASKING_FAILED \<and> four = AVB_SRP_FOUR_PACKED_EVENT_READY)"
    by (simp add: AVB_SRP_FOUR_PACKED_EVENT_ASKING_FAILED_def AVB_SRP_FOUR_PACKED_EVENT_READY_def)
  with assms(1,2) show ?thesis
    by (auto simp: mrp_update_state_def registrar_update_def applicant_update_def put_attr_def assms(3) simp del: applicant_next.simps)
qed





text \<open>C29: a received JoinIn, In, JoinMt or Mt moves the applicant the same way, because the
  cases of the first two fall through to the last: the JoinIn of another participant never makes this one
  quiet, and wakes a quiet one up.\<close>

theorem receive_joinin_keeps_anxious:
  assumes "st < length (attrs s)" and "e \<in> {MRP_EVENT_RECEIVE_JOININ, MRP_EVENT_RECEIVE_IN, MRP_EVENT_RECEIVE_MT}"
  shows "\<exists>u. mrp_update_state e st four port s = Some u
     \<and> applicant_state (attrs u ! st) = applicant_next MRP_EVENT_RECEIVE_JOINMT (applicant_state (attrs s ! st))
     \<and> applicant_state (attrs u ! st) \<notin> {MRP_QA, MRP_QO, MRP_QP}"
proof -
  have n: "applicant_next e x = after_receive_mt x" "after_receive_mt x \<notin> {MRP_QA, MRP_QO, MRP_QP}" for x
    using assms(2) by (cases x; auto)+
  have r: "\<exists>u. registrar_update e st four port s = Some u \<and> length (attrs u) = length (attrs s)
      \<and> applicant_state (attrs u ! st) = applicant_state (attrs s ! st)"
    using assms by (auto simp: registrar_update_def put_attr_def)
  then show ?thesis
    using assms n by (auto simp: mrp_update_state_def applicant_update_def put_attr_def)
qed

theorem receive_joinin_keeps_anxious_witness:
  "\<exists>u. mrp_update_state MRP_EVENT_RECEIVE_JOININ 1 0 0 (boot_memory 1 2 1 1 (\<lambda>i. 0)) = Some u
     \<and> applicant_state (attrs u ! 1) \<notin> {MRP_QA, MRP_QO, MRP_QP}"
  using receive_joinin_keeps_anxious [of 1 "boot_memory 1 2 1 1 (\<lambda>i. 0)" MRP_EVENT_RECEIVE_JOININ 0 0]
  by (auto simp: boot_memory_def)

end
