(* ===== verification/Mrp_List.thy ===== *)
theory Mrp_List
  imports Mrp_Machine
begin

text \<open>
  The linked list of attributes: \<open>compare_attr\<close>, \<open>sort_attrs\<close> and the event broadcasts of
  \<^verbatim>\<open>src/srp/avb_mrp.c\<close>, which follow \<^verbatim>\<open>next\<close> pointers. The loops are partial functions into
  \<open>option\<close>, because on a cyclic list they would not end.

  \<open>chain\<close> relates the pointers to the list of indices they visit. On a chain, \<open>sort_attrs\<close>
  is shown to implement the list function \<open>sort_list\<close>, and a broadcast is a \<open>for_each\<close> over the
  visited indices.
\<close>

section \<open>Model\<close>

definition compare_attr :: "nat \<Rightarrow> nat \<Rightarrow> ms \<Rightarrow> bool option" where
  "compare_attr i j s = do {
     a \<leftarrow> rd (attrs s) i;
     b \<leftarrow> rd (attrs s) j;
     if applicant_state a = MRP_UNUSED then
       (if applicant_state b = MRP_UNUSED then Some (i < j) else Some False)
     else if applicant_state b = MRP_UNUSED then Some True
     else if applicant_state a = MRP_DISABLED then
       (if applicant_state b = MRP_DISABLED then Some (i < j) else Some False)
     else if applicant_state b = MRP_DISABLED then Some True
     else if attribute_type a \<noteq> attribute_type b then Some (attribute_type a < attribute_type b)
     else (case attribute_type a of
             MSRP_TALKER_ADVERTISE \<Rightarrow> avb_srp_compare_talker_attributes a b s
           | MSRP_LISTENER \<Rightarrow> avb_srp_compare_listener_attributes a b s
           | _ \<Rightarrow> Some (i < j))
   }"

definition set_next :: "nat \<Rightarrow> nat option \<Rightarrow> ms \<Rightarrow> ms option" where
  "set_next i n s = put_attr i (\<lambda>a. a\<lparr>next_attr := n\<rparr>) s"

partial_function (option) sort_unlink ::
    "nat option \<Rightarrow> nat option \<Rightarrow> nat option \<Rightarrow> ms \<Rightarrow> (nat option \<times> ms) option" where
  "sort_unlink attr prev to_insert s =
     (case attr of
        None \<Rightarrow> Some (to_insert, s)
      | Some x \<Rightarrow> do {
          a \<leftarrow> rd (attrs s) x;
          (case next_attr a of
             None \<Rightarrow> sort_unlink None prev to_insert s
           | Some nx \<Rightarrow> do {
               c \<leftarrow> compare_attr x nx s;
               if \<not> c then do {
                 s \<leftarrow> (case prev of Some p \<Rightarrow> set_next p (Some nx) s | None \<Rightarrow> Some (s\<lparr>first_attr := Some nx\<rparr>));
                 s \<leftarrow> set_next x to_insert s;
                 sort_unlink (Some nx) prev (Some x) s
               } else sort_unlink (Some nx) (Some x) to_insert s
             })
        })"

partial_function (option) sort_place :: "nat \<Rightarrow> nat option \<Rightarrow> ms \<Rightarrow> ms option" where
  "sort_place attr ins s =
     (case ins of
        None \<Rightarrow> Some s
      | Some i \<Rightarrow> do {
          a \<leftarrow> rd (attrs s) i;
          place \<leftarrow> (case next_attr a of
                     None \<Rightarrow> Some True
                   | Some n \<Rightarrow> do { c \<leftarrow> compare_attr i attr s; if c then compare_attr attr n s else Some False });
          if place then do {
            s \<leftarrow> set_next attr (next_attr a) s;
            set_next i (Some attr) s
          } else sort_place attr (next_attr a) s
        })"

partial_function (option) sort_reinsert :: "nat option \<Rightarrow> ms \<Rightarrow> ms option" where
  "sort_reinsert attr s =
     (case attr of
        None \<Rightarrow> Some s
      | Some x \<Rightarrow> do {
          a \<leftarrow> rd (attrs s) x;
          let nxt = next_attr a;
          ins \<leftarrow> first_attr s;
          c \<leftarrow> compare_attr x ins s;
          s \<leftarrow> (if c then do {
                 s \<leftarrow> set_next x (Some ins) s;
                 Some (s\<lparr>first_attr := Some x\<rparr>)
               } else sort_place x (Some ins) s);
          sort_reinsert nxt s
        })"

definition sort_attrs :: "ms \<Rightarrow> ms option" where
  "sort_attrs s = do {
     (to_insert, s) \<leftarrow> sort_unlink (first_attr s) None None s;
     sort_reinsert to_insert s
   }"

partial_function (option) walk :: "(nat \<Rightarrow> ms \<Rightarrow> ms option) \<Rightarrow> nat option \<Rightarrow> ms \<Rightarrow> ms option" where
  "walk f attr s =
     (case attr of
        None \<Rightarrow> Some s
      | Some x \<Rightarrow> do {
          s \<leftarrow> f x s;
          a \<leftarrow> rd (attrs s) x;
          walk f (next_attr a) s
        })"

definition global_event_step :: "mrp_event \<Rightarrow> nat \<Rightarrow> nat \<Rightarrow> ms \<Rightarrow> ms option" where
  "global_event_step e port x s = do {
     a \<leftarrow> rd (attrs s) x;
     if in_use a \<and> port_num a = port \<and> (e \<noteq> MRP_EVENT_PERIODIC \<or> attribute_type a = MVRP_VID_VECTOR)
     then mrp_update_state e x 0 port s else Some s
   }"

definition global_event :: "mrp_event \<Rightarrow> nat \<Rightarrow> ms \<Rightarrow> ms option" where
  "global_event e port s = walk (global_event_step e port) (first_attr s) s"

definition type_event_step :: "mrp_attribute_type option \<Rightarrow> mrp_event \<Rightarrow> nat \<Rightarrow> nat \<Rightarrow> ms \<Rightarrow> ms option" where
  "type_event_step atype e port x s = do {
     a \<leftarrow> rd (attrs s) x;
     if in_use a \<and> Some (attribute_type a) = atype \<and> port_num a = port
     then mrp_update_state e x 0 port s else Some s
   }"

definition attribute_type_event :: "mrp_attribute_type option \<Rightarrow> mrp_event \<Rightarrow> nat \<Rightarrow> ms \<Rightarrow> ms option" where
  "attribute_type_event atype e port s = walk (type_event_step atype e port) (first_attr s) s"

definition msrp_types_event :: "mrp_event \<Rightarrow> nat \<Rightarrow> ms \<Rightarrow> ms option" where
  "msrp_types_event e port s = do {
     s \<leftarrow> attribute_type_event (Some MSRP_TALKER_ADVERTISE) e port s;
     s \<leftarrow> attribute_type_event (Some MSRP_TALKER_FAILED) e port s;
     s \<leftarrow> attribute_type_event (Some MSRP_LISTENER) e port s;
     attribute_type_event (Some MSRP_DOMAIN_VECTOR) e port s
   }"

section \<open>Broadcasts\<close>

lemma walk_inv:
  assumes "walk f p s = Some s'"
  shows "P s \<longrightarrow> (\<forall>x u. P u \<longrightarrow> post (f x u) P) \<longrightarrow> P s'"
  using assms
proof (rule walk.raw_induct [rotated])
  fix wk :: "(nat \<Rightarrow> ms \<Rightarrow> ms option) \<Rightarrow> nat option \<Rightarrow> ms \<Rightarrow> ms option" and f p s s'
  assume IH: "\<And>f p s s'. wk f p s = Some s' \<Longrightarrow> P s \<longrightarrow> (\<forall>x u. P u \<longrightarrow> post (f x u) P) \<longrightarrow> P s'"
    and body: "(case p of None \<Rightarrow> Some s
      | Some x \<Rightarrow> do { s \<leftarrow> f x s; a \<leftarrow> rd (attrs s) x; wk f (next_attr a) s }) = Some s'"
  show "P s \<longrightarrow> (\<forall>x u. P u \<longrightarrow> post (f x u) P) \<longrightarrow> P s'"
  proof (cases p)
    case None
    with body show ?thesis by simp
  next
    case (Some x)
    with body obtain u q where "f x s = Some u" "wk f q u = Some s'"
      by (auto simp: bind_eq_Some_conv)
    with IH [OF this(2)] show ?thesis by (auto dest: postD)
  qed
qed

lemma walk_post:
  assumes "\<And>x u. stays r u \<Longrightarrow> post (f x u) (stays r)" and "stays r s"
  shows "post (walk f p s) (stays r)"
  using assms by (blast intro: postI dest: walk_inv)

text \<open>On the attribute list a walk is a loop over the visited indices.\<close>

lemma walk_chain:
  assumes "chain (nexts r) p xs" and "stays r s" and "set xs \<subseteq> {..<length (attrs r)}"
    and "\<And>x u. stays r u \<Longrightarrow> x < length (attrs r) \<Longrightarrow> tot (f x u) (stays r)"
  shows "walk f p s = for_each xs f s" and "tot (for_each xs f s) (stays r)"
proof -
  show "tot (for_each xs f s) (stays r)"
    by (rule tot_for_each) (use assms(2-4) in auto)
  show "walk f p s = for_each xs f s"
    using assms(1-3)
  proof (induction xs arbitrary: p s)
    case Nil
    then show ?case by (subst walk.simps) simp
  next
    case (Cons x xs)
    then have x: "p = Some x" "x < length (attrs r)" "chain (nexts r) (nexts r x) xs" by auto
    from assms(4) [OF Cons.prems(2) x(2)] obtain u where u: "f x s = Some u" "stays r u"
      by (rule totE)
    have "walk f (next_attr (attrs u ! x)) u = for_each xs f u"
      using Cons.IH [OF x(3) u(2)] Cons.prems(3) stays_ident(5) [OF u(2) x(2)] by (simp add: nexts_def)
    then show ?case using x u by (subst walk.simps) (simp add: stays_frame)
  qed
qed

lemma walk_tot:
  assumes "stays r s"
    and "\<And>x u. stays r u \<Longrightarrow> x < length (attrs r) \<Longrightarrow> tot (f x u) (stays r)"
  shows "tot (walk f (first_attr s) s) (stays r)"
proof -
  from stays_wf [OF assms(1)] obtain xs where xs: "attr_list s xs" by (auto simp: mrp_ok_def)
  have sub: "set xs \<subseteq> {..<length (attrs r)}"
    using attr_list_set [OF xs] assms(1) by (auto simp: stays_frame)
  have "chain (nexts r) (first_attr s) xs = chain (nexts s) (first_attr s) xs"
    by (rule chain_cong) (use assms(1) sub in \<open>auto simp: nexts_def stays_ident\<close>)
  with xs have c: "chain (nexts r) (first_attr s) xs" by (simp add: attr_list_def)
  show ?thesis
    using walk_chain(1) [OF c assms(1) sub, of f] walk_chain(2) [OF c assms(1) sub, of f] assms(2)
    by (simp only:)
qed

lemma global_event_tot:
  assumes "stays r s" and "rx_event e" and "e \<noteq> MRP_EVENT_BEGIN" and "e \<noteq> MRP_EVENT_NEW" and "port < num_ports r"
  shows "tot (global_event e port s) (stays r)"
  unfolding global_event_def
  by (rule walk_tot [OF assms(1)])
    (use assms in \<open>auto simp: global_event_step_def tot_simps stays_frame intro!: update_state_rx_call\<close>)

lemma attribute_type_event_tot:
  assumes "stays r s" and "rx_event e" and "e \<noteq> MRP_EVENT_BEGIN" and "e \<noteq> MRP_EVENT_NEW" and "port < num_ports r"
  shows "tot (attribute_type_event t e port s) (stays r)"
  unfolding attribute_type_event_def
  by (rule walk_tot [OF assms(1)])
    (use assms in \<open>auto simp: type_event_step_def tot_simps stays_frame intro!: update_state_rx_call\<close>)

lemma attribute_type_event_post:
  assumes "stays r s" and "e \<noteq> MRP_EVENT_BEGIN" and "e \<noteq> MRP_EVENT_NEW" and "port < num_ports r" and "\<And>u. stays r u \<Longrightarrow> Q u"
  shows "post (attribute_type_event t e port s) Q"
  unfolding attribute_type_event_def
  by (rule post_call [OF walk_post [OF _ assms(1)]])
    (use assms in \<open>auto simp: type_event_step_def post_simps stays_frame intro!: update_state_post\<close>)

lemma msrp_types_event_post:
  assumes "stays r s" and "e \<noteq> MRP_EVENT_BEGIN" and "e \<noteq> MRP_EVENT_NEW" and "port < num_ports r" and "\<And>u. stays r u \<Longrightarrow> Q u"
  shows "post (msrp_types_event e port s) Q"
  unfolding msrp_types_event_def
  using assms by (simp add: post_simps) (intro attribute_type_event_post; assumption)

section \<open>Sorting as a function on lists\<close>

text \<open>
  \<open>split_run\<close> is the first loop of \<open>sort_attrs\<close>: an element that is not before its successor is moved to the
  front of the list of elements to insert. \<open>place_in\<close> and \<open>insert_in\<close> are the second loop.
\<close>

fun split_run :: "('a \<Rightarrow> 'a \<Rightarrow> bool) \<Rightarrow> 'a list \<Rightarrow> 'a list \<Rightarrow> 'a list \<times> 'a list" where
  "split_run c [] removed = ([], removed)"
| "split_run c [x] removed = ([x], removed)"
| "split_run c (x # y # xs) removed =
     (if c x y then (let (k, r) = split_run c (y # xs) removed in (x # k, r))
      else split_run c (y # xs) (x # removed))"

fun place_in :: "('a \<Rightarrow> 'a \<Rightarrow> bool) \<Rightarrow> 'a \<Rightarrow> 'a list \<Rightarrow> 'a list" where
  "place_in c x [] = [x]"
| "place_in c x [i] = [i, x]"
| "place_in c x (i # n # ys) = (if c i x \<and> c x n then i # x # n # ys else i # place_in c x (n # ys))"

definition insert_in :: "('a \<Rightarrow> 'a \<Rightarrow> bool) \<Rightarrow> 'a list \<Rightarrow> 'a \<Rightarrow> 'a list" where
  "insert_in c ys x = (if ys \<noteq> [] \<and> c x (hd ys) then x # ys else place_in c x ys)"

definition sort_list :: "('a \<Rightarrow> 'a \<Rightarrow> bool) \<Rightarrow> 'a list \<Rightarrow> 'a list" where
  "sort_list c xs = (case split_run c xs [] of (k, r) \<Rightarrow> foldl (insert_in c) k r)"

lemma mset_split_run: "split_run c xs r = (k, r') \<Longrightarrow> mset k + mset r' = mset xs + mset r"
  by (induction c xs r arbitrary: k r' rule: split_run.induct)
    (auto split: if_splits prod.splits)

lemma mset_place_in [simp]: "mset (place_in c x ys) = add_mset x (mset ys)"
  by (induction c x ys rule: place_in.induct) auto

lemma mset_insert_in [simp]: "mset (insert_in c ys x) = add_mset x (mset ys)"
  by (simp add: insert_in_def)

lemma mset_foldl_insert_in: "mset (foldl (insert_in c) k r) = mset k + mset r"
  by (induction r arbitrary: k) auto

lemma mset_sort_list: "mset (sort_list c xs) = mset xs"
  using mset_split_run [of c xs "[]"] by (auto simp: sort_list_def mset_foldl_insert_in split: prod.split)

lemma split_run_sorted: "successively c xs \<Longrightarrow> split_run c xs r = (xs, r)"
  by (induction c xs r rule: split_run.induct) auto

lemma sort_list_sorted: "successively c xs \<Longrightarrow> sort_list c xs = xs"
  by (simp add: sort_list_def split_run_sorted)

lemma split_run_nonempty: "xs \<noteq> [] \<Longrightarrow> fst (split_run c xs r) \<noteq> []"
  by (induction c xs r rule: split_run.induct) (auto split: prod.splits)

section \<open>List segments\<close>

fun lseg :: "(nat \<Rightarrow> nat option) \<Rightarrow> nat option \<Rightarrow> nat list \<Rightarrow> nat option \<Rightarrow> bool" where
  "lseg nx p [] q \<longleftrightarrow> p = q"
| "lseg nx p (x # xs) q \<longleftrightarrow> p = Some x \<and> lseg nx (nx x) xs q"

lemma lseg_append: "lseg nx p (xs @ ys) q \<longleftrightarrow> (\<exists>m. lseg nx p xs m \<and> lseg nx m ys q)"
  by (induction xs arbitrary: p) auto

lemma chain_append: "chain nx p (xs @ ys) \<longleftrightarrow> (\<exists>m. lseg nx p xs m \<and> chain nx m ys)"
  by (induction xs arbitrary: p) auto

lemma lseg_upd: "x \<notin> set xs \<Longrightarrow> lseg (nx(x := n)) p xs q = lseg nx p xs q"
  by (induction xs arbitrary: p) auto

lemma chain_upd: "x \<notin> set xs \<Longrightarrow> chain (nx(x := n)) p xs = chain nx p xs"
  by (induction xs arbitrary: p) auto

lemma lseg_relink: "k \<notin> set ks \<Longrightarrow> lseg nx p (ks @ [k]) q \<Longrightarrow> lseg (nx(k := q')) p (ks @ [k]) q'"
  by (auto simp: lseg_append lseg_upd)

section \<open>States that differ in the links only\<close>

definition nolink :: "mrp_attribute_state \<Rightarrow> mrp_attribute_state" where
  "nolink a = a\<lparr>next_attr := None\<rparr>"

definition relinked :: "ms \<Rightarrow> ms \<Rightarrow> bool" where
  "relinked s t \<longleftrightarrow> (\<exists>as f. t = s\<lparr>attrs := as, first_attr := f\<rparr> \<and> map nolink as = map nolink (attrs s))"

lemma relinked_refl [simp]: "relinked s s"
  unfolding relinked_def by (rule exI [of _ "attrs s"], rule exI [of _ "first_attr s"]) simp

lemma relinkedI: "t = s\<lparr>attrs := as, first_attr := f\<rparr> \<Longrightarrow> map nolink as = map nolink (attrs s) \<Longrightarrow> relinked s t"
  unfolding relinked_def by blast

lemma relinked_trans: "relinked s t \<Longrightarrow> relinked t u \<Longrightarrow> relinked s u"
  by (auto simp: relinked_def [of s t] relinked_def [of t u] intro: relinkedI)

lemma relinked_length: "relinked s t \<Longrightarrow> length (attrs t) = length (attrs s)"
  unfolding relinked_def by (auto dest: map_eq_imp_length_eq)

lemma relinked_attr:
  assumes "relinked s t" and "i < length (attrs s)"
  shows "nolink (attrs t ! i) = nolink (attrs s ! i)"
proof -
  from assms(1) have "map nolink (attrs t) = map nolink (attrs s)" by (auto simp: relinked_def)
  then have "map nolink (attrs t) ! i = map nolink (attrs s) ! i" by simp
  then show ?thesis using assms(2) relinked_length [OF assms(1)] by simp
qed

lemma set_next_eq:
  assumes "i < length (attrs s)"
  obtains t where "set_next i n s = Some t" "relinked s t" "nexts t = (nexts s)(i := n)" "first_attr t = first_attr s"
proof
  let ?t = "s\<lparr>attrs := (attrs s)[i := (attrs s ! i)\<lparr>next_attr := n\<rparr>]\<rparr>"
  show "set_next i n s = Some ?t" using assms by (simp add: set_next_def put_attr_def)
  have "map nolink ((attrs s)[i := (attrs s ! i)\<lparr>next_attr := n\<rparr>]) = map nolink (attrs s)"
    by (rule list_update_map_same) (use assms in \<open>simp_all add: nolink_def\<close>)
  then show "relinked s ?t" unfolding relinked_def
    by (intro exI [of _ "(attrs s)[i := (attrs s ! i)\<lparr>next_attr := n\<rparr>]"] exI [of _ "first_attr s"]) simp
  show "nexts ?t = (nexts s)(i := n)" using assms by (auto simp: nexts_def fun_eq_iff)
qed simp

lemma set_first_relinked: "relinked s (s\<lparr>first_attr := f\<rparr>)" "nexts (s\<lparr>first_attr := f\<rparr>) = nexts s"
  unfolding relinked_def nexts_def [abs_def]
  by (auto intro!: exI [of _ "attrs s"] exI [of _ f])

lemma nolink_fields:
  assumes "nolink a = nolink b"
  shows "applicant_state a = applicant_state b" "attribute_type a = attribute_type b"
    "attribute_info a = attribute_info b" "port_num a = port_num b" "here a = here b"
  using assms by (cases a; cases b; simp add: nolink_def)+

lemma relinked_tables: "relinked s t \<Longrightarrow> stream_table t = stream_table s"
  by (auto simp: relinked_def)

lemma compare_relinked:
  assumes "relinked s t"
  shows "compare_attr i j t = compare_attr i j s"
proof (cases "i < length (attrs s) \<and> j < length (attrs s)")
  case True
  note f = nolink_fields [OF relinked_attr [OF assms]]
  have st: "stream_of t = stream_of s"
    by (simp add: stream_of_def fun_eq_iff relinked_tables [OF assms] split: attribute_info.split)
  have "avb_srp_compare_talker_attributes (attrs t ! i) (attrs t ! j) t = avb_srp_compare_talker_attributes (attrs s ! i) (attrs s ! j) s"
    "avb_srp_compare_listener_attributes (attrs t ! i) (attrs t ! j) t = avb_srp_compare_listener_attributes (attrs s ! i) (attrs s ! j) s"
    using True by (simp_all add: f avb_srp_compare_talker_attributes_def avb_srp_compare_listener_attributes_def
        stream_id_of_def st)
  with True show ?thesis by (simp add: compare_attr_def relinked_length [OF assms] f split: mrp_attribute_type.split)
next
  case False
  then show ?thesis using relinked_length [OF assms]
    by (auto simp: compare_attr_def rd_def)
qed

lemma compare_total:
  assumes "mrp_ok s" and "i < length (attrs s)" and "j < length (attrs s)"
  obtains b where "compare_attr i j s = Some b"
proof -
  have stream: "\<exists>e. stream_of s (attribute_info (attrs s ! k)) = Some e"
    if "k < length (attrs s)" "in_use (attrs s ! k)" "stream_type (attribute_type (attrs s ! k))" for k
    using wf_attr_ok [OF assms(1) that(1)] that(2,3)
    by (auto simp: attr_ok_def bound_def info_ok_def stream_of_def stream_type_def split: attribute_info.splits)
  have "\<exists>b. compare_attr i j s = Some b"
    using assms(2,3) stream [of i] stream [of j]
    by (auto simp: compare_attr_def in_use_def stream_type_def avb_srp_compare_talker_attributes_def
        avb_srp_compare_listener_attributes_def stream_id_of_def split: mrp_attribute_type.splits)
  with that show ?thesis by blast
qed

text \<open>The order that \<open>sort_attrs\<close> works with: it does not depend on the links.\<close>

definition attr_before :: "ms \<Rightarrow> nat \<Rightarrow> nat \<Rightarrow> bool" where
  "attr_before s i j \<longleftrightarrow> compare_attr i j s = Some True"

lemma compare_before:
  assumes "mrp_ok s" and "relinked s t" and "i < length (attrs s)" and "j < length (attrs s)"
  shows "compare_attr i j t = Some (attr_before s i j)"
proof -
  from assms(1,3,4) obtain b where "compare_attr i j s = Some b" by (rule compare_total)
  then show ?thesis by (simp add: compare_relinked [OF assms(2)] attr_before_def)
qed


section \<open>\<open>sort_attrs\<close> implements \<open>sort_list\<close>\<close>

lemma unlink_prev:
  assumes "lseg (nexts t) (first_attr t) ks q" and "distinct ks" and "set ks \<subseteq> {..<length (attrs t)}"
    and "prev = (if ks = [] then None else Some (last ks))"
  obtains t1 where "(case prev of Some p \<Rightarrow> set_next p n t | None \<Rightarrow> Some (t\<lparr>first_attr := n\<rparr>)) = Some t1"
    and "relinked t t1" and "lseg (nexts t1) (first_attr t1) ks n"
    and "\<And>z. z \<notin> set ks \<Longrightarrow> nexts t1 z = nexts t z"
proof (cases ks rule: rev_cases)
  case Nil
  with assms(4) show ?thesis
    by (intro that [of "t\<lparr>first_attr := n\<rparr>"]) (simp_all add: set_first_relinked)
next
  case (snoc ks' k)
  with assms(3) have "k < length (attrs t)" by auto
  then obtain t1 where t1: "set_next k n t = Some t1" "relinked t t1" "nexts t1 = (nexts t)(k := n)"
    "first_attr t1 = first_attr t" by (rule set_next_eq)
  have "lseg ((nexts t)(k := n)) (first_attr t) (ks' @ [k]) n"
    by (rule lseg_relink [where q = q]) (use assms(1,2) snoc in auto)
  then show ?thesis using t1 snoc assms(4) by (intro that [of t1]) simp_all
qed

lemma sort_unlink_refines:
  assumes "mrp_ok s" and "relinked s t"
    and "lseg (nexts t) (first_attr t) ks (Some x)" and "chain (nexts t) (Some x) (x # rest)"
    and "chain (nexts t) ti st" and "distinct (ks @ x # rest @ st)"
    and "set (ks @ x # rest @ st) \<subseteq> {..<length (attrs s)}"
    and "prev = (if ks = [] then None else Some (last ks))"
    and "split_run (attr_before s) (x # rest) st = (kept, removed)"
  shows "\<exists>ti' t'. sort_unlink (Some x) prev ti t = Some (ti', t') \<and> relinked s t'
    \<and> chain (nexts t') (first_attr t') (ks @ kept) \<and> chain (nexts t') ti' removed"
  using assms(2-)
proof (induction rest arbitrary: x t ks ti st prev kept)
  case Nil
  have "next_attr (attrs t ! x) = None" "x < length (attrs t)"
    using Nil.prems by (auto simp: nexts_def relinked_length)
  then have "sort_unlink (Some x) prev ti t = Some (ti, t)"
    by (subst sort_unlink.simps) (simp, subst sort_unlink.simps, simp)
  with Nil.prems show ?case by (auto simp: chain_append)
next
  case (Cons y rest)
  have len: "length (attrs t) = length (attrs s)" by (rule relinked_length) fact
  have x: "x < length (attrs t)" "next_attr (attrs t ! x) = Some y" and y: "y < length (attrs s)"
    using Cons.prems(3,6) len by (auto simp: nexts_def)
  have c: "compare_attr x y t = Some (attr_before s x y)"
    by (rule compare_before [OF assms(1) Cons.prems(1)]) (use x y len in auto)
  show ?case
  proof (cases "attr_before s x y")
    case True
    obtain k where k: "split_run (attr_before s) (y # rest) st = (k, removed)" "kept = x # k"
      using Cons.prems(8) True by (auto split: prod.splits)
    have "\<exists>ti' t'. sort_unlink (Some y) (Some x) ti t = Some (ti', t') \<and> relinked s t'
      \<and> chain (nexts t') (first_attr t') ((ks @ [x]) @ k) \<and> chain (nexts t') ti' removed"
      by (rule Cons.IH [OF Cons.prems(1) _ _ Cons.prems(4) _ _ _ k(1)])
        (use Cons.prems in \<open>auto simp: lseg_append\<close>)
    then show ?thesis using x c True k(2) by (subst sort_unlink.simps) simp
  next
    case False
    obtain t1 where t1: "(case prev of Some p \<Rightarrow> set_next p (Some y) t | None \<Rightarrow> Some (t\<lparr>first_attr := Some y\<rparr>)) = Some t1"
      "relinked t t1" "lseg (nexts t1) (first_attr t1) ks (Some y)" "\<And>z. z \<notin> set ks \<Longrightarrow> nexts t1 z = nexts t z"
      by (rule unlink_prev [OF Cons.prems(2), of prev "Some y"]) (use Cons.prems(5-7) len in auto)
    have "x < length (attrs t1)" using x t1(2) by (simp add: relinked_length)
    then obtain t2 where t2: "set_next x ti t1 = Some t2" "relinked t1 t2" "nexts t2 = (nexts t1)(x := ti)"
      "first_attr t2 = first_attr t1" by (rule set_next_eq)
    have same: "chain (nexts t2) p zs = chain (nexts t) p zs" if "set zs \<inter> (insert x (set ks)) = {}" for p zs
      by (rule chain_cong) (use that t1(4) t2(3) in auto)
    have r: "relinked s t2" using Cons.prems(1) t1(2) t2(2) by (blast intro: relinked_trans)
    have "\<exists>ti' t'. sort_unlink (Some y) prev (Some x) t2 = Some (ti', t') \<and> relinked s t'
      \<and> chain (nexts t') (first_attr t') (ks @ kept) \<and> chain (nexts t') ti' removed"
    proof (rule Cons.IH [OF r])
      show "lseg (nexts t2) (first_attr t2) ks (Some y)"
        using t1(3) t2(3,4) Cons.prems(5) by (simp add: lseg_upd)
      show "chain (nexts t2) (Some y) (y # rest)"
        using Cons.prems(3,5) same [of "y # rest" "Some y"] by auto
      show "chain (nexts t2) (Some x) (x # st)"
        using Cons.prems(4,5) t2(3) same [of st ti] by auto
      show "split_run (attr_before s) (y # rest) (x # st) = (kept, removed)"
        using Cons.prems(8) False by simp
    qed (use Cons.prems in auto)
    then show ?thesis using x c False t1(1) t2(1) by (subst sort_unlink.simps) simp
  qed
qed


lemma sort_place_refines:
  assumes "mrp_ok s" and "relinked s t" and "chain (nexts t) (Some i) (i # ys)"
    and "x \<notin> set (i # ys)" and "distinct (i # ys)" and "set (x # i # ys) \<subseteq> {..<length (attrs s)}"
  shows "\<exists>t'. sort_place x (Some i) t = Some t' \<and> relinked s t' \<and> first_attr t' = first_attr t
    \<and> chain (nexts t') (Some i) (place_in (attr_before s) x (i # ys))
    \<and> (\<forall>z. z \<notin> set (x # i # ys) \<longrightarrow> nexts t' z = nexts t z)"
  using assms(2-)
proof (induction ys arbitrary: i)
  case Nil
  have i: "i < length (attrs t)" "x < length (attrs t)" "nexts t i = None"
    using Nil.prems by (auto simp: relinked_length)
  from i(2) obtain t1 where t1: "set_next x None t = Some t1" "relinked t t1" "nexts t1 = (nexts t)(x := None)"
    "first_attr t1 = first_attr t" by (rule set_next_eq)
  from i(1) have "i < length (attrs t1)" using t1(2) by (simp add: relinked_length)
  then obtain t2 where t2: "set_next i (Some x) t1 = Some t2" "relinked t1 t2" "nexts t2 = (nexts t1)(i := Some x)"
    "first_attr t2 = first_attr t1" by (rule set_next_eq)
  have "sort_place x (Some i) t = Some t2"
    using i t1 t2 by (subst sort_place.simps) (simp add: nexts_def)
  moreover have "relinked s t2" using Nil.prems(1) t1(2) t2(2) by (blast intro: relinked_trans)
  ultimately show ?case using t1 t2 Nil.prems(3) by auto
next
  case (Cons n ys)
  have len: "length (attrs t) = length (attrs s)" by (rule relinked_length) fact
  have i: "i < length (attrs t)" "x < length (attrs t)" "nexts t i = Some n" "n < length (attrs t)"
    using Cons.prems len by auto
  have c: "compare_attr i x t = Some (attr_before s i x)" "compare_attr x n t = Some (attr_before s x n)"
    by (rule compare_before [OF assms(1) Cons.prems(1)]; use i len in auto)+
  show ?case
  proof (cases "attr_before s i x \<and> attr_before s x n")
    case True
    from i(2) obtain t1 where t1: "set_next x (Some n) t = Some t1" "relinked t t1" "nexts t1 = (nexts t)(x := Some n)"
      "first_attr t1 = first_attr t" by (rule set_next_eq)
    from i(1) have "i < length (attrs t1)" using t1(2) by (simp add: relinked_length)
    then obtain t2 where t2: "set_next i (Some x) t1 = Some t2" "relinked t1 t2" "nexts t2 = (nexts t1)(i := Some x)"
      "first_attr t2 = first_attr t1" by (rule set_next_eq)
    have "sort_place x (Some i) t = Some t2"
      using i c True t1 t2 by (subst sort_place.simps) (simp add: nexts_def)
    moreover have "relinked s t2" using Cons.prems(1) t1(2) t2(2) by (blast intro: relinked_trans)
    moreover have "chain (nexts t2) (Some i) (place_in (attr_before s) x (i # n # ys))"
      using True t1 t2 Cons.prems(2-4) by (auto simp: chain_upd)
    ultimately show ?thesis using t1 t2 by auto
  next
    case False
    have "\<exists>t'. sort_place x (Some n) t = Some t' \<and> relinked s t' \<and> first_attr t' = first_attr t
      \<and> chain (nexts t') (Some n) (place_in (attr_before s) x (n # ys))
      \<and> (\<forall>z. z \<notin> set (x # n # ys) \<longrightarrow> nexts t' z = nexts t z)"
      by (rule Cons.IH) (use Cons.prems in auto)
    then obtain t' where t': "sort_place x (Some n) t = Some t'" "relinked s t'" "first_attr t' = first_attr t"
      "chain (nexts t') (Some n) (place_in (attr_before s) x (n # ys))"
      "\<And>z. z \<notin> set (x # n # ys) \<Longrightarrow> nexts t' z = nexts t z" by blast
    have "sort_place x (Some i) t = Some t'"
      using i c False t'(1) by (subst sort_place.simps) (auto simp: nexts_def)
    moreover have "nexts t' i = Some n" using t'(5) [of i] i(3) Cons.prems(3,4) by auto
    ultimately show ?thesis using t' False by auto
  qed
qed

lemma sort_reinsert_refines:
  assumes "mrp_ok s" and "relinked s t" and "ks \<noteq> []"
    and "chain (nexts t) (first_attr t) ks" and "chain (nexts t) p rs"
    and "distinct (ks @ rs)" and "set (ks @ rs) \<subseteq> {..<length (attrs s)}"
  shows "\<exists>t'. sort_reinsert p t = Some t' \<and> relinked s t'
    \<and> chain (nexts t') (first_attr t') (foldl (insert_in (attr_before s)) ks rs)"
  using assms(2-)
proof (induction rs arbitrary: p t ks)
  case Nil
  then show ?case by (subst sort_reinsert.simps) auto
next
  case (Cons x rs)
  have len: "length (attrs t) = length (attrs s)" by (rule relinked_length) fact
  obtain k ks' where ks: "ks = k # ks'" using Cons.prems(2) by (cases ks) auto
  have x: "p = Some x" "x < length (attrs t)" "first_attr t = Some k" "k < length (attrs t)"
    and rs: "chain (nexts t) (nexts t x) rs" using Cons.prems len ks by auto
  have c: "compare_attr x k t = Some (attr_before s x k)"
    by (rule compare_before [OF assms(1) Cons.prems(1)]) (use x len in auto)
  have "\<exists>t1. (if attr_before s x k then do { s \<leftarrow> set_next x (Some k) t; Some (s\<lparr>first_attr := Some x\<rparr>) }
        else sort_place x (Some k) t) = Some t1 \<and> relinked s t1
      \<and> chain (nexts t1) (first_attr t1) (insert_in (attr_before s) ks x)
      \<and> (\<forall>z. z \<notin> set (x # ks) \<longrightarrow> nexts t1 z = nexts t z)"
  proof (cases "attr_before s x k")
    case True
    from x(2) obtain t1 where t1: "set_next x (Some k) t = Some t1" "relinked t t1" "nexts t1 = (nexts t)(x := Some k)"
      "first_attr t1 = first_attr t" by (rule set_next_eq)
    have "relinked s (t1\<lparr>first_attr := Some x\<rparr>)"
      using Cons.prems(1) t1(2) set_first_relinked(1) by (blast intro: relinked_trans)
    moreover have "chain (nexts t1) (Some k) ks"
      using Cons.prems(3,5) t1(3) x(3) by (auto simp: chain_upd)
    ultimately show ?thesis using True t1 ks by (simp add: insert_in_def set_first_relinked(2))
  next
    case False
    have "\<exists>t'. sort_place x (Some k) t = Some t' \<and> relinked s t' \<and> first_attr t' = first_attr t
      \<and> chain (nexts t') (Some k) (place_in (attr_before s) x (k # ks'))
      \<and> (\<forall>z. z \<notin> set (x # k # ks') \<longrightarrow> nexts t' z = nexts t z)"
      by (rule sort_place_refines [OF assms(1) Cons.prems(1)]) (use Cons.prems x ks in auto)
    with False x(3) ks show ?thesis by (auto simp: insert_in_def)
  qed
  then obtain t1 where step: "(if attr_before s x k then do { s \<leftarrow> set_next x (Some k) t; Some (s\<lparr>first_attr := Some x\<rparr>) }
        else sort_place x (Some k) t) = Some t1" and t1: "relinked s t1"
      "chain (nexts t1) (first_attr t1) (insert_in (attr_before s) ks x)"
      "\<And>z. z \<notin> set (x # ks) \<Longrightarrow> nexts t1 z = nexts t z" by blast
  have m: "set (insert_in (attr_before s) ks x) = insert x (set ks)" "insert_in (attr_before s) ks x \<noteq> []"
    "distinct (insert_in (attr_before s) ks x) = distinct (x # ks)"
    using mset_insert_in [of "attr_before s" ks x]
    by (metis mset.simps(2) set_mset_mset set_mset_add_mset_insert) (metis mset_insert_in add_mset_not_empty mset_zero_iff, metis mset.simps(2) mset_insert_in mset_eq_imp_distinct_iff)
  have "z \<notin> set (x # ks)" if "z \<in> set rs" for z using Cons.prems(5) that by auto
  then have "chain (nexts t1) (nexts t x) rs = chain (nexts t) (nexts t x) rs"
    by (intro chain_cong t1(3))
  with rs have "\<exists>t'. sort_reinsert (nexts t x) t1 = Some t' \<and> relinked s t'
    \<and> chain (nexts t') (first_attr t') (foldl (insert_in (attr_before s)) (insert_in (attr_before s) ks x) rs)"
    by (intro Cons.IH) (use t1 m Cons.prems(5,6) in auto)
  moreover have "sort_reinsert p t = sort_reinsert (nexts t x) t1"
    using x c step by (subst sort_reinsert.simps) (simp add: nexts_def)
  ultimately show ?case by simp
qed

lemma relinked_ok:
  assumes "mrp_ok s" and "relinked s t" and "attr_list t xs"
  shows "mrp_ok t"
proof -
  note f = nolink_fields [OF relinked_attr [OF assms(2)]]
  from assms(2) obtain as fa where t: "t = s\<lparr>attrs := as, first_attr := fa\<rparr>" by (auto simp: relinked_def)
  have "attr_ok t (attrs t ! i)" if "i < length (attrs t)" for i
  proof -
    have i: "i < length (attrs s)" using that relinked_length [OF assms(2)] by simp
    have "attr_ok s (attrs s ! i)" by (rule wf_attr_ok) fact+
    moreover have "num_ports t = num_ports s" "stream_table t = stream_table s" "mvrp_entries t = mvrp_entries s"
      by (simp_all add: t)
    ultimately show ?thesis
      by (simp add: attr_ok_def info_ok_def in_use_def bound_def f [OF i] split: attribute_info.splits)
  qed
  moreover have "pinned (attrs t ! i)" if "owned i t" for i
  proof -
    have "owned i s" using that by (simp add: t owned_def)
    then have "i < length (attrs s)" "pinned (attrs s ! i)" using assms(1) by (auto simp: mrp_ok_def)
    then show ?thesis by (simp add: pinned_def bound_def f)
  qed
  moreover have "owned i t = owned i s" for i by (simp add: t owned_def)
  moreover have "entry_ok t = entry_ok s" "sizes_ok t = sizes_ok s" "buf_ok t = buf_ok s" "stream_table t = stream_table s"
    by (simp_all add: t entry_ok_def fun_eq_iff sizes_ok_def buf_ok_def)
  ultimately show ?thesis
    using assms(1,3) relinked_length [OF assms(2)] unfolding mrp_ok_def all_set_conv_all_nth by auto
qed

lemma sort_attrs_refines:
  assumes "mrp_ok s" and "attr_list s xs"
  obtains t where "sort_attrs s = Some t" "relinked s t" "attr_list t (sort_list (attr_before s) xs)" "mrp_ok t"
proof (cases xs)
  case Nil
  with assms(2) have "first_attr s = None" by (simp add: attr_list_def)
  then have "sort_attrs s = Some s"
    by (simp add: sort_attrs_def sort_unlink.simps [of None] sort_reinsert.simps [of None])
  with assms Nil that [of s] show ?thesis by (simp add: sort_list_def)
next
  case (Cons x rest)
  have set: "set xs = {0..<length (attrs s)}" and dist: "distinct xs"
    using assms(2) by (auto simp: attr_list_set attr_list_distinct)
  obtain k r where kr: "split_run (attr_before s) xs [] = (k, r)" by fastforce
  have ms: "mset k + mset r = mset xs" using mset_split_run [OF kr] by simp
  then have kset: "set (k @ r) = set xs" "distinct (k @ r)"
    using dist by (metis mset_append mset_eq_setD, metis mset_append mset_eq_imp_distinct_iff)
  have "k \<noteq> []" using split_run_nonempty [of xs "attr_before s" "[]"] Cons kr by simp
  have first: "first_attr s = Some x" and ch: "chain (nexts s) (Some x) (x # rest)"
    using assms(2) Cons by (auto simp: attr_list_def)
  have "\<exists>ti t. sort_unlink (Some x) None None s = Some (ti, t) \<and> relinked s t
    \<and> chain (nexts t) (first_attr t) ([] @ k) \<and> chain (nexts t) ti r"
    by (rule sort_unlink_refines [OF assms(1) relinked_refl, where rest = rest and st = "[]"])
      (use first ch Cons dist set kr in auto)
  then obtain ti t where t: "sort_unlink (Some x) None None s = Some (ti, t)" "relinked s t"
    "chain (nexts t) (first_attr t) k" "chain (nexts t) ti r" by auto
  have "\<exists>t'. sort_reinsert ti t = Some t' \<and> relinked s t'
    \<and> chain (nexts t') (first_attr t') (foldl (insert_in (attr_before s)) k r)"
    by (rule sort_reinsert_refines [OF assms(1) t(2)]) (use t \<open>k \<noteq> []\<close> kset set in auto)
  then obtain t' where t': "sort_reinsert ti t = Some t'" "relinked s t'"
    "chain (nexts t') (first_attr t') (sort_list (attr_before s) xs)"
    using kr by (auto simp: sort_list_def)
  have "attr_list t' (sort_list (attr_before s) xs)"
    using t' assms(2) by (simp add: attr_list_def mset_sort_list relinked_length)
  moreover have "sort_attrs s = Some t'" using first t t' by (simp add: sort_attrs_def)
  ultimately show ?thesis using that t'(2) relinked_ok [OF assms(1) t'(2)] by blast
qed

section \<open>The effect of a LeaveAll\<close>

definition left_all :: "mrp_attribute_state \<Rightarrow> mrp_attribute_state \<Rightarrow> bool" where
  "left_all a a' \<longleftrightarrow> registrar_state a' = (if registrar_state a = MRP_IN then MRP_LV else registrar_state a)
     \<and> applicant_state a' = after_receive_leave (applicant_state a) \<and> ident a' = ident a"

definition addressed :: "mrp_attribute_type option \<Rightarrow> nat \<Rightarrow> mrp_attribute_state \<Rightarrow> bool" where
  "addressed t port a \<longleftrightarrow> in_use a \<and> Some (attribute_type a) = t \<and> port_num a = port"

lemma leave_all_update:
  assumes "mrp_ok u" and "x < length (attrs u)" and "port < num_ports u"
  shows "\<exists>u'. mrp_update_state MRP_EVENT_RECEIVE_LEAVE_ALL x 0 port u = Some u' \<and> attrs u' = (attrs u)[x := attrs u' ! x]
     \<and> left_all (attrs u ! x) (attrs u' ! x)"
  using assms(2) wf_sizes [OF assms(1,3)]
  by (auto simp: mrp_update_state_def registrar_update_def restart_mvrp_leaveall_def restart_msrp_leaveall_def start_leave_timer_def
      left_all_def ident_def start_avb_timer_def get_local_time_def Let_def put_attr_def applicant_update_def)

lemma leave_all_step:
  assumes "mrp_ok u" and "x < length (attrs u)" and "port < num_ports u"
  shows "\<exists>u'. type_event_step t MRP_EVENT_RECEIVE_LEAVE_ALL port x u = Some u' \<and> attrs u' = (attrs u)[x := attrs u' ! x]
     \<and> (if addressed t port (attrs u ! x) then left_all (attrs u ! x) (attrs u' ! x) else attrs u' ! x = attrs u ! x)"
  using leave_all_update [OF assms] assms(2) by (auto simp: type_event_step_def addressed_def)

lemma leave_all_each:
  assumes "port < num_ports r" and "stays r u" and "distinct xs" and "set xs \<subseteq> {..<length (attrs r)}"
  shows "\<exists>u'. for_each xs (type_event_step t MRP_EVENT_RECEIVE_LEAVE_ALL port) u = Some u'
     \<and> (\<forall>j. if j \<in> set xs \<and> addressed t port (attrs u ! j) then left_all (attrs u ! j) (attrs u' ! j) else attrs u' ! j = attrs u ! j)"
  using assms(2-4)
proof (induction xs arbitrary: u)
  case (Cons x xs)
  let ?f = "type_event_step t MRP_EVENT_RECEIVE_LEAVE_ALL port"
  have x: "x < length (attrs u)" using Cons.prems by (simp add: stays_frame)
  obtain v where v: "?f x u = Some v" "attrs v = (attrs u)[x := attrs v ! x]"
    "if addressed t port (attrs u ! x) then left_all (attrs u ! x) (attrs v ! x) else attrs v ! x = attrs u ! x"
    using leave_all_step [of u x port t] Cons.prems(1) x assms(1) by (auto simp: stays_wf stays_frame)
  have "tot (?f x u) (stays r)"
    using Cons.prems(1,3) assms(1)
    by (auto simp: type_event_step_def tot_simps stays_frame intro!: update_state_rx_call)
  then have "stays r v" using v(1) by (simp add: tot_def)
  then obtain w where w: "for_each xs ?f v = Some w"
    "\<forall>j. if j \<in> set xs \<and> addressed t port (attrs v ! j) then left_all (attrs v ! j) (attrs w ! j) else attrs w ! j = attrs v ! j"
    using Cons.IH [of v] Cons.prems by auto
  have o: "attrs v ! j = attrs u ! j" if "j \<noteq> x" for j
    using that v(2) by (metis nth_list_update_neq)
  have "if j \<in> set (x # xs) \<and> addressed t port (attrs u ! j) then left_all (attrs u ! j) (attrs w ! j) else attrs w ! j = attrs u ! j" for j
  proof (cases "j = x")
    case True
    with w(2) Cons.prems(2) have "attrs w ! j = attrs v ! j" by auto
    with True v(3) show ?thesis by simp
  next
    case False
    with w(2) o [of j] show ?thesis by (metis set_ConsD list.set_intros(2))
  qed
  then show ?case using v(1) w(1) by auto
qed simp

lemma leave_all_effect:
  assumes "mrp_ok s" and "port < num_ports s"
  shows "\<exists>u. attribute_type_event t MRP_EVENT_RECEIVE_LEAVE_ALL port s = Some u \<and> stays s u
     \<and> (\<forall>j < length (attrs s). if addressed t port (attrs s ! j) then left_all (attrs s ! j) (attrs u ! j) else attrs u ! j = attrs s ! j)"
proof -
  let ?f = "type_event_step t MRP_EVENT_RECEIVE_LEAVE_ALL port"
  obtain xs where xs: "attr_list s xs" using assms(1) by (auto simp: mrp_ok_def)
  then have sub: "set xs \<subseteq> {..<length (attrs s)}" "set xs = {0..<length (attrs s)}" "distinct xs"
    by (auto simp: attr_list_set attr_list_distinct)
  note r = stays_refl [OF assms(1)]
  have f: "tot (?f x u) (stays s)" if "stays s u" "x < length (attrs s)" for x u
    using that assms(2) by (auto simp: type_event_step_def tot_simps stays_frame intro!: update_state_rx_call)
  have c: "chain (nexts s) (first_attr s) xs" using xs by (simp add: attr_list_def)
  obtain u where u: "for_each xs ?f s = Some u"
    "\<forall>j. if j \<in> set xs \<and> addressed t port (attrs s ! j) then left_all (attrs s ! j) (attrs u ! j) else attrs u ! j = attrs s ! j"
    using leave_all_each [OF assms(2) r sub(3,1), of t] by blast
  have "walk ?f (first_attr s) s = Some u" "stays s u"
    using walk_chain [OF c r sub(1), of ?f] f u(1) by (auto simp: tot_def)
  with u(2) sub(2) show ?thesis by (auto simp: attribute_type_event_def)
qed

end
