(* ===== verification/Mvrp.thy ===== *)
theory Mvrp
  imports Mrp_List
begin

text \<open>
  VLAN registration, \<^verbatim>\<open>src/srp/avb_mvrp.c\<close>. The table \<open>mvrp_entries\<close> has \<open>max_num_vlan\<close> entries for each
  port, each with an attribute of its own whose \<open>attribute_info\<close> points back at the entry's VLAN
  number.
\<close>

section \<open>Model\<close>

definition last_match :: "(nat \<Rightarrow> bool option) \<Rightarrow> nat list \<Rightarrow> nat option option" where
  "last_match test js = for_each js (\<lambda>j found. do { b \<leftarrow> test j; Some (if b then Some j else found) }) None"

definition put_entry :: "nat \<Rightarrow> (mvrp_entry \<Rightarrow> mvrp_entry) \<Rightarrow> ms \<Rightarrow> ms option" where
  "put_entry k f s = do { e \<leftarrow> rd (mvrp_entries s) k; Some (s\<lparr>mvrp_entries := (mvrp_entries s)[k := f e]\<rparr>) }"

definition mvrp_init_entry :: "nat \<Rightarrow> nat \<Rightarrow> ms \<Rightarrow> ms option" where
  "mvrp_init_entry j idx s = do {
     s \<leftarrow> put_entry idx (\<lambda>e. e\<lparr>mv_active := False\<rparr>) s;
     let (st, s) = mrp_get_attr s;
     s \<leftarrow> put_entry idx (\<lambda>e. e\<lparr>mv_attr := st\<rparr>) s;
     mrp_attribute_init st MVRP_VID_VECTOR j True (InfoVlan idx) s
   }"

definition avb_mvrp_init :: "ms \<Rightarrow> ms option" where
  "avb_mvrp_init s = for_each [0..<num_ports s] (\<lambda>j s.
     for_each [0..<max_num_vlan s] (\<lambda>i s. mvrp_init_entry j (j * max_num_vlan s + i) s) s) s"

definition entry_port :: "mvrp_entry \<Rightarrow> ms \<Rightarrow> nat option" where
  "entry_port e s = do { st \<leftarrow> mv_attr e; a \<leftarrow> rd (attrs s) st; Some (port_num a) }"

definition entry_observer :: "mvrp_entry \<Rightarrow> ms \<Rightarrow> bool option" where
  "entry_observer e s = do { st \<leftarrow> mv_attr e; a \<leftarrow> rd (attrs s) st; Some (mrp_is_observer a) }"

definition find_joined :: "int \<Rightarrow> nat \<Rightarrow> ms \<Rightarrow> nat option option" where
  "find_joined vlan port s = last_match (\<lambda>i. do {
     e \<leftarrow> rd (mvrp_entries s) i;
     if mv_active e \<and> mv_vlan e = vlan then do { p \<leftarrow> entry_port e s; Some (p = port) } else Some False
   }) [0..<length (mvrp_entries s)]"

definition find_free :: "nat \<Rightarrow> ms \<Rightarrow> nat option option" where
  "find_free port s = first_match (\<lambda>i. do {
     e \<leftarrow> rd (mvrp_entries s) i;
     if \<not> mv_active e then do { p \<leftarrow> entry_port e s; Some (p = port) } else Some False
   }) [0..<length (mvrp_entries s)]"

definition find_observer :: "nat \<Rightarrow> ms \<Rightarrow> nat option option" where
  "find_observer port s = first_match (\<lambda>i. do {
     e \<leftarrow> rd (mvrp_entries s) i;
     if mv_active e then do {
       ob \<leftarrow> entry_observer e s;
       if ob then do { p \<leftarrow> entry_port e s; Some (p = port) } else Some False
     } else Some False
   }) [0..<length (mvrp_entries s)]"

definition avb_join_vlan :: "int \<Rightarrow> nat \<Rightarrow> ms \<Rightarrow> (bool \<times> ms) option" where
  "avb_join_vlan vlan port s = do {
     found \<leftarrow> find_joined vlan port s;
     found \<leftarrow> (if found = None then find_free port s else Some found);
     found \<leftarrow> (if found = None then find_observer port s else Some found);
     (case found of
        None \<Rightarrow> Some (False, s)
      | Some k \<Rightarrow> do {
          s \<leftarrow> put_entry k (\<lambda>e. e\<lparr>mv_active := True, mv_vlan := vlan\<rparr>) s;
          e \<leftarrow> rd (mvrp_entries s) k;
          st \<leftarrow> mv_attr e;
          s \<leftarrow> mrp_mad_begin st s;
          s \<leftarrow> mrp_mad_join st True s;
          Some (True, s)
        })
   }"

definition avb_leave_vlan :: "int \<Rightarrow> ms \<Rightarrow> ms option" where
  "avb_leave_vlan vlan s = do {
     found \<leftarrow> last_match (\<lambda>i. do { e \<leftarrow> rd (mvrp_entries s) i; Some (mv_active e \<and> mv_vlan e = vlan) })
               [0..<length (mvrp_entries s)];
     (case found of
        None \<Rightarrow> Some s
      | Some k \<Rightarrow> do {
          e \<leftarrow> rd (mvrp_entries s) k;
          st \<leftarrow> mv_attr e;
          s \<leftarrow> mrp_mad_leave st s;
          put_entry k (\<lambda>e. e\<lparr>mv_active := False\<rparr>) s
        })
   }"

definition avb_mvrp_match_vid_vector :: "nat \<Rightarrow> bytes \<Rightarrow> nat \<Rightarrow> nat \<Rightarrow> ms \<Rightarrow> bool option" where
  "avb_mvrp_match_vid_vector attr pkt fv i s = do {
     a \<leftarrow> rd (attrs s) attr;
     v0 \<leftarrow> rd pkt fv;
     v1 \<leftarrow> rd pkt (fv + 1);
     my_vlan \<leftarrow> vlan_of s (attribute_info a);
     Some (int (unat v0 * 256 + unat v1 + i) = my_vlan)
   }"

definition avb_mvrp_vid_vector_join_ind :: "nat \<Rightarrow> ms \<Rightarrow> ms option" where
  "avb_mvrp_vid_vector_join_ind attr s = Some s"

definition avb_mvrp_vid_vector_leave_ind :: "nat \<Rightarrow> ms \<Rightarrow> ms option" where
  "avb_mvrp_vid_vector_leave_ind attr s = Some s"

section \<open>VLAN requests keep the invariant\<close>

lemma put_entry_post:
  assumes "stays r s" and "\<And>e. mv_attr (f e) = mv_attr e" and "\<And>u. stays r u \<Longrightarrow> Q u"
  shows "post (put_entry k f s) Q"
proof -
  let ?s = "s\<lparr>mvrp_entries := (mvrp_entries s)[k := f (mvrp_entries s ! k)]\<rparr>"
  have "stays s ?s" if "k < length (mvrp_entries s)"
  proof -
    have m: "map mv_attr ((mvrp_entries s)[k := f (mvrp_entries s ! k)]) = map mv_attr (mvrp_entries s)"
      using that assms(2) by (simp add: list_update_map_same)
    then have st: "steady s ?s" by (simp add: steady_def)
    have "mrp_ok s" by (rule stays_wf) fact
    moreover have "attr_ok ?s = attr_ok s"
      by (simp add: attr_ok_def info_ok_def fun_eq_iff split: attribute_info.split)
    moreover have "attr_list ?s = attr_list s" by (simp add: attr_list_def nexts_def [abs_def] fun_eq_iff)
    moreover have "entry_ok ?s = entry_ok s" "sizes_ok ?s = sizes_ok s" "buf_ok ?s = buf_ok s"
      by (simp_all add: entry_ok_def fun_eq_iff sizes_ok_def buf_ok_def)
    ultimately have "mrp_ok ?s" using steady_owned [OF st] by (simp add: mrp_ok_def)
    with st show ?thesis by (simp add: stays_def)
  qed
  then show ?thesis using assms(1,3) by (auto simp: put_entry_def post_simps intro: stays_trans)
qed

lemma entry_attr:
  assumes "stays r s" and "k < length (mvrp_entries s)" and "mv_attr (mvrp_entries s ! k) = Some st"
  shows "st < length (attrs r)" "bound (attrs r ! st)"
proof -
  have "owned st s" using assms(2,3) by (auto simp: owned_def dest: nth_mem)
  then have "st < length (attrs s)" "bound (attrs s ! st)"
    using stays_wf [OF assms(1)] by (auto simp: mrp_ok_def pinned_def)
  with assms(1) show "st < length (attrs r)" "bound (attrs r ! st)" by (simp_all add: stays_frame stays_ident)
qed

lemma avb_join_vlan_post:
  assumes "stays r s" and "\<And>b u. stays r u \<Longrightarrow> Q (b, u)"
  shows "post (avb_join_vlan vlan port s) Q"
proof -
  have join: "post (do {
          s \<leftarrow> put_entry k (\<lambda>e. e\<lparr>mv_active := True, mv_vlan := vlan\<rparr>) s;
          e \<leftarrow> rd (mvrp_entries s) k;
          st \<leftarrow> mv_attr e;
          s \<leftarrow> mrp_mad_begin st s;
          s \<leftarrow> mrp_mad_join st True s;
          Some (True, s)
        }) Q" for k
    unfolding post_construct
    by (rule put_entry_post [OF assms(1)])
      (auto simp: post_simps post_def [of "mv_attr e" for e]
        intro!: tot_post [OF mrp_mad_begin_tot] tot_post [OF mrp_mad_join_tot] assms(2) dest: entry_attr)
  show ?thesis
    unfolding avb_join_vlan_def
    by (auto simp: post_simps assms intro!: join [simplified post_simps] post_any [where m = "find_joined v p s" for v p s]
      post_any [where m = "find_free p s" for p s] post_any [where m = "find_observer p s" for p s])
qed

lemma avb_leave_vlan_post:
  assumes "stays r s" and "\<And>u. stays r u \<Longrightarrow> Q u"
  shows "post (avb_leave_vlan vlan s) Q"
  unfolding avb_leave_vlan_def
  by (auto simp: post_simps assms post_def [of "mv_attr e" for e]
    intro!: post_any [where m = "last_match t xs" for t xs] tot_post [OF mrp_mad_leave_tot [OF assms(1)]] put_entry_post
    dest: entry_attr [OF assms(1)])

section \<open>Joining and leaving a VLAN\<close>

lemma mrp_mad_begin_eq:
  "st < length (attrs s) \<Longrightarrow> mrp_mad_begin st s = Some (s\<lparr>attrs := (attrs s)[st := (attrs s ! st)
     \<lparr>leaveTimer := init_avb_timer (leaveTimer (attrs s ! st)) 1, registrar_state := MRP_MT, applicant_state := MRP_VO\<rparr>]\<rparr>)"
  by (simp add: mrp_mad_begin_def mrp_update_state_def registrar_update_def applicant_update_def put_attr_def)

lemma mrp_mad_join_new_eq:
  "st < length (attrs s) \<Longrightarrow> mrp_mad_join st True s = Some (s\<lparr>attrs := (attrs s)[st := (attrs s ! st)
     \<lparr>remove_after_next_tx := False, applicant_state := MRP_VN\<rparr>]\<rparr>)"
  by (simp add: mrp_mad_join_def mrp_update_state_def registrar_update_def applicant_update_def put_attr_def)

lemma first_match_find:
  assumes "\<And>j. j \<in> set js \<Longrightarrow> test j = Some (P j)"
  shows "first_match test js = Some (List.find P js)"
  using assms by (induction js) auto

lemma last_match_find:
  assumes "\<And>j. j \<in> set js \<Longrightarrow> test j = Some (P j)"
  shows "last_match test js = Some (List.find P (rev js))"
proof -
  have "for_each js (\<lambda>j found. do { b \<leftarrow> test j; Some (if b then Some j else found) }) d
      = Some (case List.find P (rev js) of None \<Rightarrow> d | Some j \<Rightarrow> Some j)" for d
    using assms
  proof (induction js arbitrary: d)
    case (Cons j js)
    have f: "List.find P (xs @ [j]) = (case List.find P xs of None \<Rightarrow> if P j then Some j else None | r \<Rightarrow> r)" for xs
      by (induction xs) auto
    from Cons show ?case by (simp add: f split: option.split)
  qed simp
  then show ?thesis by (simp add: last_match_def split: option.split)
qed

text \<open>After initialisation every entry of the table has its attribute.\<close>

definition entries_bound :: "ms \<Rightarrow> bool" where
  "entries_bound s \<longleftrightarrow> (\<forall>e \<in> set (mvrp_entries s). \<exists>st. mv_attr e = Some st \<and> st < length (attrs s))"

definition port_of :: "ms \<Rightarrow> nat \<Rightarrow> nat" where
  "port_of s k = port_num (attrs s ! the (mv_attr (mvrp_entries s ! k)))"

definition joined_entry :: "int \<Rightarrow> nat \<Rightarrow> ms \<Rightarrow> nat \<Rightarrow> bool" where
  "joined_entry vlan port s k \<longleftrightarrow> mv_active (mvrp_entries s ! k) \<and> mv_vlan (mvrp_entries s ! k) = vlan \<and> port_of s k = port"

definition free_entry :: "nat \<Rightarrow> ms \<Rightarrow> nat \<Rightarrow> bool" where
  "free_entry port s k \<longleftrightarrow> \<not> mv_active (mvrp_entries s ! k) \<and> port_of s k = port"

definition observer_entry :: "nat \<Rightarrow> ms \<Rightarrow> nat \<Rightarrow> bool" where
  "observer_entry port s k \<longleftrightarrow> mv_active (mvrp_entries s ! k)
     \<and> mrp_is_observer (attrs s ! the (mv_attr (mvrp_entries s ! k))) \<and> port_of s k = port"

lemma entry_lookups:
  assumes "entries_bound s" and "k < length (mvrp_entries s)"
  shows "entry_port (mvrp_entries s ! k) s = Some (port_of s k)"
    "entry_observer (mvrp_entries s ! k) s = Some (mrp_is_observer (attrs s ! the (mv_attr (mvrp_entries s ! k))))"
proof -
  obtain st where "mv_attr (mvrp_entries s ! k) = Some st" "st < length (attrs s)"
    using assms nth_mem unfolding entries_bound_def by blast
  then show "entry_port (mvrp_entries s ! k) s = Some (port_of s k)"
    "entry_observer (mvrp_entries s ! k) s = Some (mrp_is_observer (attrs s ! the (mv_attr (mvrp_entries s ! k))))"
    by (simp_all add: entry_port_def entry_observer_def port_of_def)
qed

lemma find_entries:
  assumes "entries_bound s"
  shows "find_joined vlan port s = Some (List.find (joined_entry vlan port s) (rev [0..<length (mvrp_entries s)]))"
    "find_free port s = Some (List.find (free_entry port s) [0..<length (mvrp_entries s)])"
    "find_observer port s = Some (List.find (observer_entry port s) [0..<length (mvrp_entries s)])"
  unfolding find_joined_def find_free_def find_observer_def
  by (rule last_match_find first_match_find,
    use assms in \<open>auto simp: entry_lookups joined_entry_def free_entry_def observer_entry_def\<close>)+

lemma join_entry:
  assumes "entries_bound s" and "k < length (mvrp_entries s)" and "mv_attr (mvrp_entries s ! k) = Some st"
  shows "do { s \<leftarrow> put_entry k (\<lambda>e. e\<lparr>mv_active := True, mv_vlan := vlan\<rparr>) s;
          e \<leftarrow> rd (mvrp_entries s) k;
          st \<leftarrow> mv_attr e;
          s \<leftarrow> mrp_mad_begin st s;
          s \<leftarrow> mrp_mad_join st True s;
          Some (True, s) } =
    Some (True, s\<lparr>mvrp_entries := (mvrp_entries s)[k := (mvrp_entries s ! k)\<lparr>mv_active := True, mv_vlan := vlan\<rparr>],
      attrs := (attrs s)[st := (attrs s ! st)\<lparr>leaveTimer := init_avb_timer (leaveTimer (attrs s ! st)) 1, registrar_state := MRP_MT,
        remove_after_next_tx := False, applicant_state := MRP_VN\<rparr>]\<rparr>)"
proof -
  have "st < length (attrs s)" using assms nth_mem by (fastforce simp: entries_bound_def)
  with assms(2,3) show ?thesis
    by (simp add: put_entry_def mrp_mad_begin_eq mrp_mad_join_new_eq)
qed

definition join_place :: "int \<Rightarrow> nat \<Rightarrow> ms \<Rightarrow> nat option" where
  "join_place vlan port s = (case List.find (joined_entry vlan port s) (rev [0..<length (mvrp_entries s)]) of
     Some k \<Rightarrow> Some k
   | None \<Rightarrow> (case List.find (free_entry port s) [0..<length (mvrp_entries s)] of
       Some k \<Rightarrow> Some k
     | None \<Rightarrow> List.find (observer_entry port s) [0..<length (mvrp_entries s)]))"

lemma join_place_Some:
  "join_place vlan port s = Some k \<Longrightarrow> k < length (mvrp_entries s) \<and> port_of s k = port
     \<and> (joined_entry vlan port s k \<or> (\<forall>i < length (mvrp_entries s). \<not> joined_entry vlan port s i) \<and> (free_entry port s k \<or> observer_entry port s k))"
  by (auto simp: join_place_def find_Some_iff find_None_iff joined_entry_def free_entry_def observer_entry_def rev_nth split: option.splits)

lemma join_place_None:
  "join_place vlan port s = None \<Longrightarrow> k < length (mvrp_entries s) \<Longrightarrow>
     \<not> joined_entry vlan port s k \<and> \<not> free_entry port s k \<and> \<not> observer_entry port s k"
  by (auto simp: join_place_def find_None_iff split: option.splits)

lemma avb_join_vlan_eq:
  assumes "entries_bound s"
  shows "avb_join_vlan vlan port s = (case join_place vlan port s of
     None \<Rightarrow> Some (False, s)
   | Some k \<Rightarrow> (let st = the (mv_attr (mvrp_entries s ! k)) in
       Some (True, s\<lparr>mvrp_entries := (mvrp_entries s)[k := (mvrp_entries s ! k)\<lparr>mv_active := True, mv_vlan := vlan\<rparr>],
        attrs := (attrs s)[st := (attrs s ! st)\<lparr>leaveTimer := init_avb_timer (leaveTimer (attrs s ! st)) 1, registrar_state := MRP_MT,
          remove_after_next_tx := False, applicant_state := MRP_VN\<rparr>]\<rparr>)))"
proof -
  have j: "avb_join_vlan vlan port s = (case join_place vlan port s of
     None \<Rightarrow> Some (False, s)
   | Some k \<Rightarrow> do { s \<leftarrow> put_entry k (\<lambda>e. e\<lparr>mv_active := True, mv_vlan := vlan\<rparr>) s;
          e \<leftarrow> rd (mvrp_entries s) k;
          st \<leftarrow> mv_attr e;
          s \<leftarrow> mrp_mad_begin st s;
          s \<leftarrow> mrp_mad_join st True s;
          Some (True, s) })"
    by (simp add: avb_join_vlan_def find_entries [OF assms] join_place_def split: option.split)
  show ?thesis
  proof (cases "join_place vlan port s")
    case (Some k)
    then have k: "k < length (mvrp_entries s)" by (simp add: join_place_Some)
    then obtain st where "mv_attr (mvrp_entries s ! k) = Some st"
      using assms nth_mem unfolding entries_bound_def by blast
    with join_entry [OF assms k] Some show ?thesis by (simp add: j)
  qed (simp add: j)
qed

text \<open>C16: joining a VLAN on a port. The request succeeds exactly when the port has an entry that is already joined to the VLAN, or is
  free, or whose attribute has become an observer; it then declares the VLAN as new through one of these entries,
  an already joined one if there is one, and leaves the other entries alone. Otherwise it reports failure and changes nothing.\<close>

theorem join_vlan_declares:
  assumes "entries_bound s"
  shows "\<exists>b u. avb_join_vlan vlan port s = Some (b, u)
     \<and> (b \<longleftrightarrow> (\<exists>k < length (mvrp_entries s). joined_entry vlan port s k \<or> free_entry port s k \<or> observer_entry port s k))
     \<and> (if b then \<exists>k < length (mvrp_entries s). joined_entry vlan port u k
            \<and> applicant_state (attrs u ! the (mv_attr (mvrp_entries s ! k))) = MRP_VN
            \<and> (\<forall>i. i \<noteq> k \<longrightarrow> mvrp_entries u ! i = mvrp_entries s ! i)
            \<and> ((\<exists>i < length (mvrp_entries s). joined_entry vlan port s i) \<longrightarrow> joined_entry vlan port s k)
        else u = s)"
proof (cases "join_place vlan port s")
  case None
  then show ?thesis using join_place_None [OF None] by (auto simp: avb_join_vlan_eq [OF assms])
next
  case (Some k)
  note p = join_place_Some [OF Some]
  then obtain st where st: "mv_attr (mvrp_entries s ! k) = Some st" "st < length (attrs s)"
    using assms nth_mem unfolding entries_bound_def by blast
  let ?u = "s\<lparr>mvrp_entries := (mvrp_entries s)[k := (mvrp_entries s ! k)\<lparr>mv_active := True, mv_vlan := vlan\<rparr>],
        attrs := (attrs s)[st := (attrs s ! st)\<lparr>leaveTimer := init_avb_timer (leaveTimer (attrs s ! st)) 1, registrar_state := MRP_MT,
          remove_after_next_tx := False, applicant_state := MRP_VN\<rparr>]\<rparr>"
  have j: "avb_join_vlan vlan port s = Some (True, ?u)" using Some st by (simp add: avb_join_vlan_eq [OF assms])
  have u: "joined_entry vlan port ?u k" using p st by (simp add: joined_entry_def port_of_def)
  show ?thesis unfolding j
    using p u st by (intro exI [of _ True] exI [of _ ?u]) (auto intro!: exI [of _ k])
qed

lemma vlan_device: "\<exists>s. avb_mvrp_init (boot_memory 1 2 1 2 (\<lambda>i. 0)) = Some s \<and> entries_bound s \<and> length (mvrp_entries s) = 2
    \<and> map mv_active (mvrp_entries s) = [False, False] \<and> map (port_of s) [0, 1] = [0, 0]"
proof -
  have "(case avb_mvrp_init (boot_memory 1 2 1 2 (\<lambda>i. 0)) of None \<Rightarrow> False
     | Some s \<Rightarrow> list_all (\<lambda>e. case mv_attr e of None \<Rightarrow> False | Some st \<Rightarrow> st < length (attrs s)) (mvrp_entries s)
         \<and> length (mvrp_entries s) = 2 \<and> map mv_active (mvrp_entries s) = [False, False] \<and> map (port_of s) [0, 1] = [0, 0])"
    by code_simp
  then show ?thesis by (auto simp: entries_bound_def list_all_iff split: option.splits)
qed

theorem join_vlan_declares_witness:
  "\<exists>s b u. avb_mvrp_init (boot_memory 1 2 1 2 (\<lambda>i. 0)) = Some s \<and> avb_join_vlan 2 0 s = Some (b, u)"
  using vlan_device join_vlan_declares [of _ 2 0] by blast

lemma find_unique:
  "(\<And>i. i \<in> set xs \<Longrightarrow> P i \<longleftrightarrow> i = k) \<Longrightarrow> k \<in> set xs \<Longrightarrow> List.find P xs = Some k"
  by (induction xs) auto

lemma avb_leave_vlan_eq:
  assumes "entries_bound s"
  shows "avb_leave_vlan vlan s = (case List.find (\<lambda>k. mv_active (mvrp_entries s ! k) \<and> mv_vlan (mvrp_entries s ! k) = vlan)
       (rev [0..<length (mvrp_entries s)]) of
     None \<Rightarrow> Some s
   | Some k \<Rightarrow> (let st = the (mv_attr (mvrp_entries s ! k)) in
       Some (s\<lparr>attrs := (attrs s)[st := (attrs s ! st)\<lparr>applicant_state := applicant_next MRP_EVENT_LV (applicant_state (attrs s ! st))\<rparr>],
         mvrp_entries := (mvrp_entries s)[k := (mvrp_entries s ! k)\<lparr>mv_active := False\<rparr>]\<rparr>)))"
proof -
  have l: "mrp_mad_leave st s = Some (s\<lparr>attrs := (attrs s)[st := (attrs s ! st)\<lparr>applicant_state :=
      applicant_next MRP_EVENT_LV (applicant_state (attrs s ! st))\<rparr>]\<rparr>)" if "st < length (attrs s)" for st
    using that by (simp add: mrp_mad_leave_def mrp_update_state_def registrar_update_def applicant_update_def put_attr_def)
  have f: "last_match (\<lambda>i. do { e \<leftarrow> rd (mvrp_entries s) i; Some (mv_active e \<and> mv_vlan e = vlan) }) [0..<length (mvrp_entries s)] =
     Some (List.find (\<lambda>k. mv_active (mvrp_entries s ! k) \<and> mv_vlan (mvrp_entries s ! k) = vlan) (rev [0..<length (mvrp_entries s)]))"
    by (rule last_match_find) simp
  show ?thesis
  proof (cases "List.find (\<lambda>k. mv_active (mvrp_entries s ! k) \<and> mv_vlan (mvrp_entries s ! k) = vlan) (rev [0..<length (mvrp_entries s)])")
    case (Some k)
    then have k: "k < length (mvrp_entries s)" by (auto simp: find_Some_iff rev_nth)
    then obtain st where "mv_attr (mvrp_entries s ! k) = Some st" "st < length (attrs s)"
      using assms nth_mem unfolding entries_bound_def by blast
    with k Some show ?thesis by (simp add: avb_leave_vlan_def f l put_entry_def)
  qed (simp add: avb_leave_vlan_def f)
qed

text \<open>C17: leaving a VLAN undoes joining it. When no entry was joined to the VLAN and joining it succeeds, a leave frees the entry again,
  so that no entry is joined to the VLAN, and its attribute has a Leave to send.\<close>

theorem leave_undoes_join:
  assumes "entries_bound s" and "avb_join_vlan vlan port s = Some (True, u)"
    and "\<forall>k < length (mvrp_entries s). \<not> (mv_active (mvrp_entries s ! k) \<and> mv_vlan (mvrp_entries s ! k) = vlan)"
  shows "\<exists>k < length (mvrp_entries s). \<exists>v. avb_leave_vlan vlan u = Some v
     \<and> applicant_state (attrs v ! the (mv_attr (mvrp_entries v ! k))) = MRP_LA
     \<and> (\<forall>i < length (mvrp_entries s). \<not> (mv_active (mvrp_entries v ! i) \<and> mv_vlan (mvrp_entries v ! i) = vlan))"
proof -
  obtain k where k: "join_place vlan port s = Some k"
    using assms(2) by (cases "join_place vlan port s") (simp_all add: avb_join_vlan_eq [OF assms(1)])
  note p = join_place_Some [OF k]
  then obtain st where st: "mv_attr (mvrp_entries s ! k) = Some st" "st < length (attrs s)"
    using assms(1) nth_mem unfolding entries_bound_def by blast
  have u: "u = s\<lparr>mvrp_entries := (mvrp_entries s)[k := (mvrp_entries s ! k)\<lparr>mv_active := True, mv_vlan := vlan\<rparr>],
        attrs := (attrs s)[st := (attrs s ! st)\<lparr>leaveTimer := init_avb_timer (leaveTimer (attrs s ! st)) 1, registrar_state := MRP_MT,
          remove_after_next_tx := False, applicant_state := MRP_VN\<rparr>]\<rparr>"
    using assms(2) k st by (simp add: avb_join_vlan_eq [OF assms(1)])
  have b: "entries_bound u"
    using assms(1) p st unfolding entries_bound_def by (auto simp: u dest!: set_update_subset_insert [THEN subsetD])
  let ?P = "\<lambda>i. mv_active (mvrp_entries u ! i) \<and> mv_vlan (mvrp_entries u ! i) = vlan"
  have P: "?P i \<longleftrightarrow> i = k" if "i < length (mvrp_entries s)" for i
    using assms(3) that p by (auto simp: u nth_list_update)
  have ku: "mv_attr (mvrp_entries u ! k) = Some st" "applicant_state (attrs u ! st) = MRP_VN" using p st by (simp_all add: u)
  have lu: "length (mvrp_entries u) = length (mvrp_entries s)" by (simp add: u)
  have "List.find ?P (rev [0..<length (mvrp_entries u)]) = Some k"
    unfolding lu by (rule find_unique) (use P p in auto)
  then have v: "avb_leave_vlan vlan u = Some (u\<lparr>attrs := (attrs u)[st := (attrs u ! st)\<lparr>applicant_state := MRP_LA\<rparr>],
         mvrp_entries := (mvrp_entries u)[k := (mvrp_entries u ! k)\<lparr>mv_active := False\<rparr>]\<rparr>)"
    using ku by (simp add: avb_leave_vlan_eq [OF b])
  then show ?thesis using p st P assms(3) by (intro exI [of _ k]) (auto simp: u nth_list_update)
qed

theorem leave_undoes_join_witness:
  "\<exists>s u v. avb_mvrp_init (boot_memory 1 2 1 2 (\<lambda>i. 0)) = Some s \<and> avb_join_vlan 2 0 s = Some (True, u) \<and> avb_leave_vlan 2 u = Some v"
proof -
  obtain s where s: "avb_mvrp_init (boot_memory 1 2 1 2 (\<lambda>i. 0)) = Some s" "entries_bound s" "length (mvrp_entries s) = 2"
    "map mv_active (mvrp_entries s) = [False, False]" "port_of s 0 = 0"
    using vlan_device by auto
  have a: "\<not> mv_active (mvrp_entries s ! k)" if "k < 2" for k
    using s(3,4) that by (auto simp: less_2_cases_iff list_eq_iff_nth_eq)
  have "free_entry 0 s 0" using a [of 0] s(5) by (simp add: free_entry_def)
  then have "join_place 2 0 s \<noteq> None" using join_place_None [of 2 0 s 0] s(3) by auto
  then obtain u where u: "avb_join_vlan 2 0 s = Some (True, u)"
    by (auto simp: avb_join_vlan_eq [OF s(2)] Let_def)
  from leave_undoes_join [OF s(2) u] a s(1,3) u show ?thesis by auto
qed

end
