(* ===== verification/Srp.thy ===== *)
theory Srp
  imports Mvrp
begin

text \<open>
  Stream reservation, \<^verbatim>\<open>src/srp/avb_srp.c\<close>: matching received attributes, the indications the
  state machines raise, propagation between the two ports of a bridge, and the requests of the
  talker and listener applications.

  The manager is called through the client functions of \<^verbatim>\<open>api/avb.h\<close>. While one of these calls is
  running the reservation task is not serving its own interface, so the manager is given
  \<open>busy_srp\<close>, on which a call back into the reservation task faults. A received packet is a byte
  list with the offset of the first value; it is returned where the code writes into it.
\<close>

section \<open>Model: domain\<close>

definition busy_srp :: "ms srp_if" where
  "busy_srp = \<lparr>register_stream_request = (\<lambda>_ _. None), deregister_stream_request = (\<lambda>_ _. None),
     register_attach_request = (\<lambda>_ _ _. None), deregister_attach_request = (\<lambda>_ _. None),
     leave_vlan = avb_leave_vlan\<rparr>"

definition srp_domain_init :: "ms \<Rightarrow> ms option" where
  "srp_domain_init s = do {
     s \<leftarrow> for_each [0..<num_ports s] (\<lambda>i s. do {
            let (st, s) = mrp_get_attr s;
            da \<leftarrow> wr (domain_attr s) i st;
            s \<leftarrow> mrp_attribute_init st MSRP_DOMAIN_VECTOR i True InfoNull (s\<lparr>domain_attr := da\<rparr>);
            b \<leftarrow> wr (srp_domain_boundary_port s) i True;
            Some (s\<lparr>srp_domain_boundary_port := b\<rparr>) }) s;
     Some (s\<lparr>current_vlan_id_from_domain := AVB_DEFAULT_VLAN\<rparr>)
   }"

definition srp_domain_join :: "ms \<Rightarrow> ms option" where
  "srp_domain_join s = for_each [0..<num_ports s] (\<lambda>i s. do {
     p \<leftarrow> rd (domain_attr s) i;
     st \<leftarrow> p;
     s \<leftarrow> mrp_mad_begin st s;
     mrp_mad_join st True s }) s"

section \<open>Model: propagation between ports\<close>

definition create_propagated_attribute_and_join :: "nat \<Rightarrow> bool \<Rightarrow> ms \<Rightarrow> ms option" where
  "create_propagated_attribute_and_join attr new s = do {
     let (st, s) = mrp_get_attr s;
     a \<leftarrow> rd (attrs s) attr;
     s \<leftarrow> mrp_attribute_init st (attribute_type a) (opposite_port (port_num a)) False (attribute_info a) s;
     j \<leftarrow> st;
     s \<leftarrow> mrp_mad_begin j s;
     s \<leftarrow> mrp_mad_join j new s;
     put_attr j (\<lambda>a. a\<lparr>propagated := True\<rparr>) s
   }"

definition set_bw_reserved :: "nat \<Rightarrow> nat \<Rightarrow> bool \<Rightarrow> ms \<Rightarrow> ms option" where
  "set_bw_reserved entry port b s = do {
     e \<leftarrow> rd (stream_table s) entry;
     bw \<leftarrow> wr (bw_reserved e) port b;
     put_stream entry (\<lambda>e. e\<lparr>bw_reserved := bw\<rparr>) s
   }"

definition get_bw_reserved :: "nat option \<Rightarrow> nat \<Rightarrow> ms \<Rightarrow> bool option" where
  "get_bw_reserved entry port s = do { k \<leftarrow> entry; e \<leftarrow> rd (stream_table s) k; rd (bw_reserved e) port }"

definition frame_size_of :: "ms \<Rightarrow> attribute_info \<Rightarrow> int option" where
  "frame_size_of s i = do { (k, e) \<leftarrow> stream_of s i; Some (sint (tspec_max_frame_size (reservation e))) }"

definition join_and_propagate :: "nat \<Rightarrow> ms \<Rightarrow> ms option" where
  "join_and_propagate m s = do { s \<leftarrow> mrp_mad_join m True s; put_attr m (\<lambda>a. a\<lparr>propagated := True\<rparr>) s }"

definition avb_srp_map_join :: "nat \<Rightarrow> bool \<Rightarrow> bool \<Rightarrow> ms \<Rightarrow> ms option" where
  "avb_srp_map_join attr new listener s = do {
     a \<leftarrow> rd (attrs s) attr;
     let port = port_num a;
     let info = attribute_info a;
     matched_pair \<leftarrow> mrp_match_attribute_pair_by_stream_id attr True False s;
     matched_opposite \<leftarrow> mrp_match_attr_by_stream_and_type attr True False s;
     foreign \<leftarrow> (case matched_pair of
                   None \<Rightarrow> Some False
                 | Some t \<Rightarrow> do { b \<leftarrow> rd (attrs s) t; Some (\<not> propagated b \<and> \<not> here b) });
     s \<leftarrow> (if matched_opposite = None \<and> (\<not> listener \<or> foreign)
          then create_propagated_attribute_and_join attr new s else Some s);
     s \<leftarrow> (if listener \<and> foreign then do {
            sid \<leftarrow> stream_id_of s info;
            let entry = srp_match_reservation_entry_by_id sid s;
            reserved \<leftarrow> get_bw_reserved entry port s;
            s \<leftarrow> (if \<not> reserved then do {
                   k \<leftarrow> entry;
                   s \<leftarrow> set_bw_reserved k port True s;
                   size \<leftarrow> frame_size_of s info;
                   srp_increase_port_bandwidth size 1 port s
                 } else Some s);
            (case matched_opposite of Some m \<Rightarrow> join_and_propagate m s | None \<Rightarrow> Some s)
          } else Some s);
     (case matched_opposite of
        Some m \<Rightarrow> if \<not> listener then join_and_propagate m s else Some s
      | None \<Rightarrow> Some s)
   }"

definition avb_srp_map_leave :: "nat \<Rightarrow> ms \<Rightarrow> ms option" where
  "avb_srp_map_leave attr s = do {
     a \<leftarrow> rd (attrs s) attr;
     let port = port_num a;
     let info = attribute_info a;
     matched_pair \<leftarrow> mrp_match_attribute_pair_by_stream_id attr True False s;
     matched_opposite \<leftarrow> mrp_match_attr_by_stream_and_type attr True False s;
     if attribute_type a = MSRP_LISTENER then do {
       sid \<leftarrow> stream_id_of s info;
       let entry = srp_match_reservation_entry_by_id sid s;
       (case (matched_opposite, matched_pair) of
          (Some m, Some t) \<Rightarrow> do {
            tb \<leftarrow> rd (attrs s) t;
            if \<not> here tb then do {
              reserved \<leftarrow> get_bw_reserved entry port s;
              if reserved then do {
                size \<leftarrow> frame_size_of s info;
                s \<leftarrow> srp_decrease_port_bandwidth size 1 port s;
                k \<leftarrow> entry;
                s \<leftarrow> set_bw_reserved k port False s;
                mb \<leftarrow> rd (attrs s) m;
                s \<leftarrow> (if propagated mb \<and> \<not> here mb then mrp_mad_leave m s else Some s);
                mrp_change_applicant_state attr MRP_UNUSED s
              } else Some s
            } else Some s
          }
        | _ \<Rightarrow> Some s)
     }
     else if is_talker (attribute_type a) then do {
       sid \<leftarrow> stream_id_of s info;
       let entry = srp_match_reservation_entry_by_id sid s;
       s \<leftarrow> (case matched_pair of
              None \<Rightarrow> Some s
            | Some t \<Rightarrow> do {
                tb \<leftarrow> rd (attrs s) t;
                reserved \<leftarrow> get_bw_reserved entry (port_num tb) s;
                if reserved then do {
                  size \<leftarrow> frame_size_of s info;
                  s \<leftarrow> srp_decrease_port_bandwidth size 1 (port_num tb) s;
                  k \<leftarrow> entry;
                  set_bw_reserved k (port_num tb) False s
                } else Some s });
       s \<leftarrow> (case matched_opposite of Some m \<Rightarrow> mrp_mad_leave m s | None \<Rightarrow> Some s);
       matched_this \<leftarrow> mrp_match_attribute_pair_by_stream_id attr False False s;
       (case matched_this of Some m \<Rightarrow> mrp_mad_leave m s | None \<Rightarrow> Some s)
     }
     else Some s
   }"

section \<open>Model: matching received attributes\<close>

definition mac_bytes :: "u64 \<Rightarrow> bytes" where
  "mac_bytes x = take 2 (le_bytes32 (drop_bit 16 (byterev (ucast (drop_bit 32 x))))) @ le_bytes32 (byterev (ucast x))"

text \<open>
  \<open>first_value_mac x0\<close> is the destination address computed from the packet when the accumulator
  starts at \<open>x0\<close>; the code leaves it uninitialised.
\<close>

definition first_value_mac :: "u64 \<Rightarrow> bytes \<Rightarrow> nat \<Rightarrow> bytes" where
  "first_value_mac x0 mac i = mac_bytes (foldl (\<lambda>x b. push_bit 8 x + ucast b) x0 mac + of_nat i)"

definition rd16 :: "bytes \<Rightarrow> nat \<Rightarrow> u16 option" where
  "rd16 pkt p = do { a \<leftarrow> rd pkt p; b \<leftarrow> rd pkt (p + 1); Some (ntoh_16 (a, b)) }"

definition rd32 :: "bytes \<Rightarrow> nat \<Rightarrow> u32 option" where
  "rd32 pkt p = do { a \<leftarrow> rd pkt p; b \<leftarrow> rd pkt (p + 1); c \<leftarrow> rd pkt (p + 2); d \<leftarrow> rd pkt (p + 3);
     Some (ntoh_32 (a, b, c, d)) }"

definition talker_parameters :: "bytes \<Rightarrow> nat \<Rightarrow> nat \<Rightarrow> avb_srp_info \<Rightarrow> avb_srp_info option" where
  "talker_parameters pkt fv i r = do {
     vid \<leftarrow> rd16 pkt (fv + 14);
     mac \<leftarrow> read_block pkt (fv + 8) 6;
     size \<leftarrow> rd16 pkt (fv + 16);
     interval \<leftarrow> rd16 pkt (fv + 18);
     ts \<leftarrow> rd pkt (fv + 20);
     lat \<leftarrow> rd32 pkt (fv + 21);
     Some (r\<lparr>vlan_id := vid, dest_mac_addr := first_value_mac 0 mac i, tspec_max_frame_size := size,
             tspec_max_interval := interval, tspec := ts, accumulated_latency := lat\<rparr>)
   }"

definition avb_srp_match_talker_advertise ::
    "nat \<Rightarrow> bytes \<Rightarrow> nat \<Rightarrow> nat \<Rightarrow> bool \<Rightarrow> bool \<Rightarrow> ms \<Rightarrow> (bool \<times> bytes \<times> ms) option" where
  "avb_srp_match_talker_advertise attr pkt fv i leave_all failed s = do {
     a \<leftarrow> rd (attrs s) attr;
     if attribute_info a = InfoNull then Some (False, pkt, s)
     else do {
       (k, e) \<leftarrow> stream_of s (attribute_info a);
       sid \<leftarrow> read_block pkt fv 8;
       let same = (stream_id64 (stream_id (reservation e)) = ntoh64 sid + of_nat i);
       ts \<leftarrow> rd pkt (fv + 20);
       let sr_class_priority = drop_bit 5 ts AND 7;
       if num_ports s = 1 \<and> \<not> leave_all \<and> same then
         (if sr_class_priority \<noteq> AVB_SRP_TSPEC_PRIORITY_DEFAULT then do {
            s \<leftarrow> put_stream k (\<lambda>e. e\<lparr>reservation_failed := True\<rparr>) s;
            Some (False, pkt, s)
          }
          else do {
            (pkt, s) \<leftarrow> (if failed then do {
                 s \<leftarrow> put_attr attr (\<lambda>a. a\<lparr>attribute_type := MSRP_TALKER_FAILED\<rparr>) s;
                 bridge \<leftarrow> read_block pkt (fv + 25) 8;
                 code \<leftarrow> rd pkt (fv + 33);
                 s \<leftarrow> put_stream k (\<lambda>e. e\<lparr>reservation_failed := True,
                        reservation := (reservation e)\<lparr>failure_bridge_id := bridge, failure_code := code\<rparr>\<rparr>) s;
                 Some (pkt, s)
               } else do {
                 s \<leftarrow> put_attr attr (\<lambda>a. a\<lparr>attribute_type := MSRP_TALKER_ADVERTISE\<rparr>) s;
                 (pkt, s) \<leftarrow> (if reservation_failed e then do {
                      s \<leftarrow> put_stream k (\<lambda>e. e\<lparr>reservation := (reservation e)\<lparr>failure_bridge_id := replicate 8 0\<rparr>\<rparr>) s;
                      pkt \<leftarrow> wr pkt (fv + 33) 0;
                      Some (pkt, s)
                    } else Some (pkt, s));
                 s \<leftarrow> put_stream k (\<lambda>e. e\<lparr>reservation_failed := False\<rparr>) s;
                 Some (pkt, s)
               });
            s \<leftarrow> (if \<not> talker_present e then do {
                 e \<leftarrow> rd (stream_table s) k;
                 r \<leftarrow> talker_parameters pkt fv i (reservation e);
                 s \<leftarrow> put_stream k (\<lambda>e. e\<lparr>reservation := r\<rparr>) s;
                 (x, s) \<leftarrow> srp_add_reservation_entry r s;
                 Some s
               } else Some s);
            Some (True, pkt, s)
          })
       else Some (same, pkt, s)
     }
   }"

definition avb_srp_match_listener :: "nat \<Rightarrow> bytes \<Rightarrow> nat \<Rightarrow> nat \<Rightarrow> nat \<Rightarrow> ms \<Rightarrow> bool option" where
  "avb_srp_match_listener attr pkt fv i four s = do {
     a \<leftarrow> rd (attrs s) attr;
     if attribute_info a = InfoNull then Some False
     else if four = AVB_SRP_FOUR_PACKED_EVENT_IGNORE then Some False
     else do {
       my \<leftarrow> stream_id_of s (attribute_info a);
       sid \<leftarrow> read_block pkt fv 8;
       Some (stream_id64 my = ntoh64 sid + of_nat i)
     }
   }"

definition avb_srp_match_domain :: "nat \<Rightarrow> bytes \<Rightarrow> nat \<Rightarrow> nat \<Rightarrow> ms \<Rightarrow> (bool \<times> ms) option" where
  "avb_srp_match_domain attr pkt fv i s = do {
     c \<leftarrow> rd pkt fv;
     p \<leftarrow> rd pkt (fv + 1);
     vid \<leftarrow> rd16 pkt (fv + 2);
     if c + of_nat i = AVB_SRP_SRCLASS_DEFAULT \<and> p + of_nat i = AVB_SRP_TSPEC_PRIORITY_DEFAULT
     then Some (True, s\<lparr>current_vlan_id_from_domain := ucast vid\<rparr>)
     else Some (False, s)
   }"

section \<open>Model: indications\<close>

definition listener_enable :: "nat \<Rightarrow> nat \<Rightarrow> ms \<Rightarrow> (bool \<times> ms) option" where
  "listener_enable attr stream s = do {
     a \<leftarrow> rd (attrs s) attr;
     let port = port_num a;
     sid \<leftarrow> stream_id_of s (attribute_info a);
     let entry = srp_match_reservation_entry_by_id sid s;
     both \<leftarrow> (if num_ports s = 2 then do { m \<leftarrow> mrp_match_attr_by_stream_and_type attr True False s; Some (m \<noteq> None) }
              else Some False);
     if both then do {
       other \<leftarrow> get_bw_reserved entry (opposite_port port) s;
       this \<leftarrow> get_bw_reserved entry port s;
       if other \<and> \<not> this then do {
         size \<leftarrow> frame_size_of s (attribute_info a);
         s \<leftarrow> srp_increase_port_bandwidth size 0 port s;
         let s = set_avb_source_port stream (- 1) s;
         k \<leftarrow> entry;
         s \<leftarrow> set_bw_reserved k port True s;
         Some (True, s)
       } else Some (False, s)
     }
     else do {
       talker \<leftarrow> mrp_match_type_non_prop_attribute MSRP_TALKER_ADVERTISE sid (Some port) s;
       if talker \<noteq> None then do {
         this \<leftarrow> get_bw_reserved entry port s;
         s \<leftarrow> (if \<not> this then do {
                size \<leftarrow> frame_size_of s (attribute_info a);
                s \<leftarrow> srp_increase_port_bandwidth size 0 port s;
                let s = set_avb_source_port stream (int port) s;
                k \<leftarrow> entry;
                set_bw_reserved k port True s
              } else Some (set_avb_source_port stream (int port) s));
         Some (True, s)
       } else Some (False, s)
     }
   }"

definition avb_srp_listener_join_ind :: "nat \<Rightarrow> bool \<Rightarrow> nat \<Rightarrow> ms \<Rightarrow> ms option" where
  "avb_srp_listener_join_ind attr new four s = do {
     a \<leftarrow> rd (attrs s) attr;
     sid \<leftarrow> stream_id_of s (attribute_info a);
     let stream = avb_get_source_stream_index_from_stream_id sid s;
     s \<leftarrow> (if num_ports s = 2 then avb_srp_map_join attr new True s else Some s);
     (case stream of
        None \<Rightarrow> Some s
      | Some n \<Rightarrow> do {
          state \<leftarrow> get_source_state n s;
          (enable_stream, s) \<leftarrow> listener_enable attr n s;
          if enable_stream \<and> state = STATE_POTENTIAL
             \<and> (four = AVB_SRP_FOUR_PACKED_EVENT_READY \<or> four = AVB_SRP_FOUR_PACKED_EVENT_READY_FAILED)
          then do { (b, s) \<leftarrow> set_source_state busy_srp n STATE_ENABLED s; Some s }
          else Some s
        })
   }"

definition avb_srp_listener_leave_ind :: "nat \<Rightarrow> nat \<Rightarrow> ms \<Rightarrow> ms option" where
  "avb_srp_listener_leave_ind attr four s = do {
     a \<leftarrow> rd (attrs s) attr;
     let port = port_num a;
     sid \<leftarrow> stream_id_of s (attribute_info a);
     let stream = avb_get_source_stream_index_from_stream_id sid s;
     matched_opposite \<leftarrow> mrp_match_attr_by_stream_and_type attr True False s;
     let entry = srp_match_reservation_entry_by_id sid s;
     s \<leftarrow> (if num_ports s = 2 then avb_srp_map_leave attr s else Some s);
     (case stream of
        None \<Rightarrow> Some s
      | Some n \<Rightarrow> do {
          reserved \<leftarrow> get_bw_reserved entry port s;
          s \<leftarrow> (if reserved then do {
                 size \<leftarrow> frame_size_of s (attribute_info a);
                 s \<leftarrow> srp_decrease_port_bandwidth size 0 port s;
                 let s = (if matched_opposite \<noteq> None then set_avb_source_port n (int (opposite_port port)) s else s);
                 k \<leftarrow> entry;
                 set_bw_reserved k port False s
               } else Some s);
          state \<leftarrow> get_source_state n s;
          if state = STATE_ENABLED \<and> matched_opposite = None then do {
            (b, s) \<leftarrow> set_source_state busy_srp n STATE_POTENTIAL s;
            reserved \<leftarrow> get_bw_reserved entry port s;
            if reserved then do {
              size \<leftarrow> frame_size_of s (attribute_info a);
              s \<leftarrow> srp_decrease_port_bandwidth size 0 port s;
              k \<leftarrow> entry;
              set_bw_reserved k port False s
            } else Some s
          } else Some s
        })
   }"

definition avb_srp_talker_join_ind :: "nat \<Rightarrow> bool \<Rightarrow> ms \<Rightarrow> ms option" where
  "avb_srp_talker_join_ind attr new s =
     (if num_ports s = 2 then do {
        a \<leftarrow> rd (attrs s) attr;
        sid \<leftarrow> stream_id_of s (attribute_info a);
        let stream = avb_get_sink_stream_index_from_stream_id sid s;
        matched_this \<leftarrow> mrp_match_attribute_pair_by_stream_id attr False True s;
        s \<leftarrow> (case (stream, matched_this) of
               (Some n, Some m) \<Rightarrow> do {
                 b \<leftarrow> rd (attrs s) m;
                 if here b then do {
                   matched_opposite \<leftarrow> mrp_match_attribute_pair_by_stream_id attr True True s;
                   s \<leftarrow> (case matched_opposite of
                          Some x \<Rightarrow> mrp_change_applicant_state x MRP_UNUSED s | None \<Rightarrow> Some s);
                   s \<leftarrow> mrp_mad_begin m s;
                   mrp_mad_join m True s
                 } else Some s
               }
             | _ \<Rightarrow> Some s);
        avb_srp_map_join attr new False s
      } else Some s)"

text \<open>
  Attributes point into the stream table, never into the manager's table of sinks, so the search
  for a sink at the same address finds none.
\<close>

definition avb_get_sink_stream_index_from_pointer :: "attribute_info \<Rightarrow> nat option" where
  "avb_get_sink_stream_index_from_pointer p = None"

definition avb_srp_talker_leave_ind :: "nat \<Rightarrow> ms \<Rightarrow> ms option" where
  "avb_srp_talker_leave_ind attr s = do {
     a \<leftarrow> rd (attrs s) attr;
     if num_ports s = 2 then
       (if avb_get_sink_stream_index_from_pointer (attribute_info a) \<noteq> None then Some s
        else avb_srp_map_leave attr s)
     else do {
       (k, e) \<leftarrow> stream_of s (attribute_info a);
       put_stream k (\<lambda>e. e\<lparr>talker_present := False\<rparr>) s
     }
   }"

definition avb_srp_domain_join_ind :: "nat \<Rightarrow> ms \<Rightarrow> ms option" where
  "avb_srp_domain_join_ind attr s = do {
     a \<leftarrow> rd (attrs s) attr;
     b \<leftarrow> wr (srp_domain_boundary_port s) (port_num a) False;
     let s = s\<lparr>srp_domain_boundary_port := b\<rparr>;
     s \<leftarrow> for_each [0..<length (sources s)] (\<lambda>i s. do {
            vlan \<leftarrow> get_source_vlan i s;
            if vlan = 0 then do {
              (b, s) \<leftarrow> set_source_vlan busy_srp i (sint (current_vlan_id_from_domain s)) s; Some s }
            else Some s }) s;
     for_each [0..<length (sinks s)] (\<lambda>i s. do {
       vlan \<leftarrow> get_sink_vlan i s;
       if vlan = 0 then do {
         (b, s) \<leftarrow> set_sink_vlan busy_srp i (sint (current_vlan_id_from_domain s)) s; Some s }
       else Some s }) s
   }"

definition avb_srp_domain_leave_ind :: "nat \<Rightarrow> ms \<Rightarrow> ms option" where
  "avb_srp_domain_leave_ind attr s = do {
     a \<leftarrow> rd (attrs s) attr;
     b \<leftarrow> wr (srp_domain_boundary_port s) (port_num a) True;
     Some (s\<lparr>srp_domain_boundary_port := b\<rparr>)
   }"

section \<open>Model: requests of the applications\<close>

definition match_talker_on_port :: "stream_id \<Rightarrow> nat option \<Rightarrow> ms \<Rightarrow> nat option option" where
  "match_talker_on_port sid port s = do {
     t \<leftarrow> mrp_match_type_non_prop_attribute MSRP_TALKER_ADVERTISE sid port s;
     if t = None then mrp_match_type_non_prop_attribute MSRP_TALKER_FAILED sid port s else Some t
   }"

definition leave_here :: "nat \<Rightarrow> ms \<Rightarrow> ms option" where
  "leave_here m s = do { s \<leftarrow> put_attr m (\<lambda>a. a\<lparr>here := False\<rparr>) s; mrp_mad_leave m s }"

definition avb_srp_leave_talker_attrs :: "stream_id \<Rightarrow> ms \<Rightarrow> ms option" where
  "avb_srp_leave_talker_attrs sid s = for_each [0..<num_ports s] (\<lambda>i s. do {
     t \<leftarrow> match_talker_on_port sid (Some i) s;
     s \<leftarrow> (case t of Some m \<Rightarrow> mrp_mad_leave m s | None \<Rightarrow> Some s);
     if num_ports s = 1 then do {
       l \<leftarrow> mrp_match_type_non_prop_attribute MSRP_LISTENER sid (Some 0) s;
       (case l of Some m \<Rightarrow> leave_here m s | None \<Rightarrow> Some s)
     } else Some s }) s"

definition create_talker_on_port :: "avb_srp_info \<Rightarrow> nat \<Rightarrow> nat \<Rightarrow> ms \<Rightarrow> ms option" where
  "create_talker_on_port resv k i s = do {
     t \<leftarrow> match_talker_on_port (stream_id resv) (Some i) s;
     s \<leftarrow> (if vlan_id resv = 0
          then put_stream k (\<lambda>e. e\<lparr>reservation := (reservation e)\<lparr>vlan_id := ucast (current_vlan_id_from_domain s)\<rparr>\<rparr>) s
          else Some s);
     e \<leftarrow> rd (stream_table s) k;
     (b, s) \<leftarrow> avb_join_vlan (sint (vlan_id (reservation e))) i s;
     s \<leftarrow> (case t of
            None \<Rightarrow> (case mrp_get_attr s of
                (None, s) \<Rightarrow> Some s
              | (Some j, s) \<Rightarrow> do {
                  s \<leftarrow> mrp_attribute_init (Some j) MSRP_TALKER_ADVERTISE i True (InfoStream k) s;
                  s \<leftarrow> mrp_mad_begin j s;
                  mrp_mad_join j True s })
          | Some m \<Rightarrow> mrp_mad_join m True s);
     if num_ports s = 1 then do {
       l \<leftarrow> mrp_match_type_non_prop_attribute MSRP_LISTENER (stream_id resv) (Some i) s;
       (case l of
          Some m \<Rightarrow> Some s
        | None \<Rightarrow> (case mrp_get_attr s of
              (None, s) \<Rightarrow> Some s
            | (Some j, s) \<Rightarrow> do {
                s \<leftarrow> mrp_attribute_init (Some j) MSRP_LISTENER i False (InfoStream k) s;
                mrp_mad_begin j s }))
     } else Some s
   }"

definition avb_srp_create_and_join_talker_advertise_attrs :: "avb_srp_info \<Rightarrow> ms \<Rightarrow> (u16 \<times> ms) option" where
  "avb_srp_create_and_join_talker_advertise_attrs resv s = do {
     (stream_ptr, s) \<leftarrow> srp_add_reservation_entry resv s;
     s \<leftarrow> (case stream_ptr of
            Some k \<Rightarrow> for_each [0..<num_ports s] (create_talker_on_port resv k) s
          | None \<Rightarrow> Some s);
     k \<leftarrow> stream_ptr;
     e \<leftarrow> rd (stream_table s) k;
     Some (vlan_id (reservation e), s)
   }"

definition avb_srp_leave_listener_attrs :: "stream_id \<Rightarrow> ms \<Rightarrow> ms option" where
  "avb_srp_leave_listener_attrs sid s =
     (if num_ports s = 2 then do {
        t \<leftarrow> match_talker_on_port sid None s;
        (case t of
           None \<Rightarrow> Some s
         | Some m \<Rightarrow> do {
             opp \<leftarrow> mrp_match_attribute_pair_by_stream_id m True False s;
             this \<leftarrow> mrp_match_attribute_pair_by_stream_id m False False s;
             (case (opp, this) of
                (Some x, Some l) \<Rightarrow> put_attr l (\<lambda>a. a\<lparr>here := False\<rparr>) s
              | (None, Some l) \<Rightarrow> leave_here l s
              | _ \<Rightarrow> Some s)
           })
      } else do {
        l \<leftarrow> mrp_match_type_non_prop_attribute MSRP_LISTENER sid (Some 0) s;
        t \<leftarrow> match_talker_on_port sid (Some 0) s;
        s \<leftarrow> (case l of Some m \<Rightarrow> leave_here m s | None \<Rightarrow> Some s);
        (case t of
           Some m \<Rightarrow> put_attr m (\<lambda>a. a\<lparr>here := False, remove_after_next_tx := True\<rparr>) s
         | None \<Rightarrow> Some s)
      })"

definition join_disabled_listener :: "stream_id \<Rightarrow> int \<Rightarrow> nat \<Rightarrow> nat \<Rightarrow> ms \<Rightarrow> ms option" where
  "join_disabled_listener sid vid k i s = do {
     l \<leftarrow> mrp_match_type_non_prop_attribute MSRP_LISTENER sid (Some i) s;
     (b, s) \<leftarrow> avb_join_vlan vid i s;
     s \<leftarrow> (case l of
            None \<Rightarrow> (case mrp_get_attr s of
                (None, s) \<Rightarrow> Some s
              | (Some j, s) \<Rightarrow> do {
                  s \<leftarrow> mrp_attribute_init (Some j) MSRP_LISTENER i True (InfoStream k) s;
                  if num_ports s = 1 then do { s \<leftarrow> mrp_mad_begin j s; mrp_mad_join j True s } else Some s })
          | Some m \<Rightarrow> if num_ports s = 1 then mrp_mad_join m True s else Some s);
     if num_ports s = 1 then
       (case mrp_get_attr s of
          (None, s) \<Rightarrow> Some s
        | (Some j, s) \<Rightarrow> do {
            s \<leftarrow> mrp_attribute_init (Some j) MSRP_TALKER_ADVERTISE i False (InfoStream k) s;
            mrp_mad_begin j s })
     else Some s
   }"

definition avb_srp_join_listener_attrs :: "stream_id \<Rightarrow> u16 \<Rightarrow> ms \<Rightarrow> (u16 \<times> ms) option" where
  "avb_srp_join_listener_attrs sid vlan s = do {
     adv \<leftarrow> mrp_match_type_non_prop_attribute MSRP_TALKER_ADVERTISE sid None s;
     fail \<leftarrow> mrp_match_type_non_prop_attribute MSRP_TALKER_FAILED sid None s;
     let vid = (if vlan = 0 then ucast (current_vlan_id_from_domain s) else vlan);
     s \<leftarrow> (case adv of
            Some t \<Rightarrow> do {
              l \<leftarrow> mrp_match_attribute_pair_by_stream_id t False False s;
              (l, s) \<leftarrow> (case l of
                   Some m \<Rightarrow> Some (Some m, s)
                 | None \<Rightarrow> (case mrp_get_attr s of
                       (None, s) \<Rightarrow> Some (None, s)
                     | (Some j, s) \<Rightarrow> do {
                         ta \<leftarrow> rd (attrs s) t;
                         (b, s) \<leftarrow> avb_join_vlan (sint vid) (port_num ta) s;
                         ta \<leftarrow> rd (attrs s) t;
                         s \<leftarrow> mrp_attribute_init (Some j) MSRP_LISTENER (port_num ta) True (attribute_info ta) s;
                         s \<leftarrow> mrp_mad_begin j s;
                         Some (Some j, s) }));
              (case l of
                 None \<Rightarrow> Some s
               | Some m \<Rightarrow> do {
                   la \<leftarrow> rd (attrs s) m;
                   (b, s) \<leftarrow> avb_join_vlan (sint vid) (port_num la) s;
                   s \<leftarrow> (if num_ports s = 2 then put_attr m (\<lambda>a. a\<lparr>here := True\<rparr>) s else Some s);
                   mrp_mad_join m True s })
            }
          | None \<Rightarrow>
              (if fail = None then do {
                 (stream_ptr, s) \<leftarrow> srp_add_reservation_entry_stream_id_only sid s;
                 (case stream_ptr of
                    Some k \<Rightarrow> for_each [0..<num_ports s] (join_disabled_listener sid (sint vid) k) s
                  | None \<Rightarrow> Some s)
               } else Some s));
     Some (vid, s)
   }"

definition avb_srp_process_new_attribute_from_packet ::
    "mrp_attribute_type \<Rightarrow> bytes \<Rightarrow> nat \<Rightarrow> nat \<Rightarrow> nat \<Rightarrow> ms \<Rightarrow> (nat option \<times> ms) option" where
  "avb_srp_process_new_attribute_from_packet t pkt fv num port s = do {
     bs \<leftarrow> read_block pkt fv 8;
     let streamId = ntoh64 bs + of_nat num;
     let sid = (ucast (drop_bit 32 streamId), ucast streamId);
     (stream_ptr, s) \<leftarrow>
       (if is_talker t then do {
          r \<leftarrow> talker_parameters pkt fv num (zero_srp_info\<lparr>stream_id := sid\<rparr>);
          srp_add_reservation_entry r s
        }
        else if t = MSRP_LISTENER then srp_add_reservation_entry_stream_id_only sid s
        else Some (None, s));
     (case stream_ptr of
        Some k \<Rightarrow> (case mrp_get_attr s of (st, s) \<Rightarrow> do {
            s \<leftarrow> mrp_attribute_init st t port False (InfoStream k) s;
            Some (st, s) })
      | None \<Rightarrow> Some (None, s))
   }"

text \<open>The reservation task as the manager sees it when it is serving its interface.\<close>

definition srp_task_if :: "ms srp_if" where
  "srp_task_if = \<lparr>register_stream_request = avb_srp_create_and_join_talker_advertise_attrs,
     deregister_stream_request = avb_srp_leave_talker_attrs,
     register_attach_request = avb_srp_join_listener_attrs,
     deregister_attach_request = avb_srp_leave_listener_attrs,
     leave_vlan = avb_leave_vlan\<rparr>"

section \<open>Running out of table entries\<close>

lemma no_entry:
  assumes "\<forall>e \<in> set (stream_table s). stream_id (reservation e) \<noteq> sid \<and> stream_id (reservation e) \<noteq> (0, 0)"
  shows "srp_match_reservation_entry_by_id sid s = None"
  by (cases rule: match_entry_cases [of sid s]) (use assms in auto)

text \<open>C30: registering a stream follows a null pointer when the stream table is full: with no entry for the stream and none free,
  the request reads the VLAN of the entry it failed to get.\<close>

theorem register_stream_full_table:
  assumes "\<forall>e \<in> set (stream_table s). stream_id (reservation e) \<noteq> stream_id resv \<and> stream_id (reservation e) \<noteq> (0, 0)"
  shows "avb_srp_create_and_join_talker_advertise_attrs resv s = None"
  using talker_entry.ins_full(1) [OF no_entry [OF assms]]
  by (simp add: avb_srp_create_and_join_talker_advertise_attrs_def)

theorem register_stream_full_table_witness:
  "avb_srp_create_and_join_talker_advertise_attrs (zero_srp_info\<lparr>stream_id := (5, 6)\<rparr>) known_stream = None"
  using register_stream_full_table [of known_stream "zero_srp_info\<lparr>stream_id := (5, 6)\<rparr>"]
  by (simp add: known_stream_def known_entry_def)



end
