(* ===== verification/Srp_Inv.thy ===== *)
theory Srp_Inv
  imports Srp
begin

text \<open>
  Every operation of \<^verbatim>\<open>src/srp/avb_srp.c\<close> keeps the invariant \<open>mrp_ok\<close>.

  \<open>stays s u\<close> (from \<open>Mrp_Inv\<close>) is used for operations that leave the identity of every attribute
  alone, \<open>sound s u\<close> for those that may initialise or retype one. \<open>found s m\<close> records what a
  successful search guarantees about the attribute it returns. The collection \<open>sound_calls\<close> and
  the bundles \<open>search_calls\<close>, \<open>found_calls\<close> and \<open>read_calls\<close> are the rules by which the proofs
  step over a call.
\<close>

section \<open>The manager's calls keep the invariant\<close>

lemma stays_mgr:
  assumes "stays r s"
  shows "stays r (emit m s)" "stays r (s\<lparr>sources := a\<rparr>)" "stays r (s\<lparr>sinks := b\<rparr>)" "stays r (s\<lparr>inputs := c\<rparr>)"
    "stays r (s\<lparr>current_vlan_id_from_domain := v\<rparr>)" "stays r (set_avb_source_port n p s)"
  by (rule stays_trans [OF assms], rule stays_view; simp add: stays_wf [OF assms] wf_view_def emit_def set_avb_source_port_def)+

lemma stays_resize:
  assumes "stays r s"
  shows "length b = length (port_bandwidth s) \<Longrightarrow> stays r (s\<lparr>port_bandwidth := b\<rparr>)"
    "length d = length (srp_domain_boundary_port s) \<Longrightarrow> stays r (s\<lparr>srp_domain_boundary_port := d\<rparr>)"
  by (rule stays_trans [OF assms], rule stays_view; simp add: stays_wf [OF assms] wf_view_def)+

lemma configure_talker_stream_post:
  assumes "stays r s" and "\<And>u. stays r u \<Longrightarrow> Q u"
  shows "post (configure_talker_stream source n s) Q"
  unfolding configure_talker_stream_def
  by (auto simp: post_simps intro!: post_any [where m = "read_block xs i n" for xs :: "int list" and i n]
    post_any [where m = "for_each xs f s" for xs :: "int list" and f and s :: "media_info list \<times> u32"] assms stays_mgr)

lemma update_source_state_busy:
  assumes "stays r s" and "\<And>u. stays r u \<Longrightarrow> Q u"
  shows "post (update_source_state busy_srp n prev st s) Q"
  unfolding update_source_state_def busy_srp_def
  by (auto simp: post_simps Let_def rd_int_def intro!: configure_talker_stream_post avb_leave_vlan_post assms stays_mgr
    post_any [where m = "read_block xs i n" for xs :: "int list" and i n]
    post_any [where m = "source_map_valid a b s" for a b and s :: ms]
    post_any [where m = "for_each xs f s" for xs :: "int list" and f and s :: "media_info list"])

lemma update_sink_state_busy:
  assumes "stays r s" and "\<And>u. stays r u \<Longrightarrow> Q u"
  shows "post (update_sink_state busy_srp n prev st s) Q"
  unfolding update_sink_state_def busy_srp_def set_avb_sink_map_def
  by (auto simp: post_simps Let_def rd_int_def intro!: assms stays_mgr
    post_any [where m = "read_block xs i n" for xs :: "int list" and i n])

lemma manager_call_posts:
  assumes "stays r s" and "\<And>b u. stays r u \<Longrightarrow> Q (b, u)"
  shows "post (set_source_state busy_srp n v s) Q" "post (set_source_vlan busy_srp n w s) Q"
    "post (set_sink_vlan busy_srp n w s) Q"
  unfolding set_source_state_def set_source_vlan_def set_sink_vlan_def put_source_def put_sink_def
    set_source_info_def set_sink_info_def get_source_info_def get_sink_info_def
  by (auto simp: post_simps Let_def assms intro!: update_source_state_busy [where r = r] update_sink_state_busy [where r = r] stays_mgr)


section \<open>Allocation of attributes\<close>

text \<open>\<open>sound\<close> is \<open>stays\<close> without the promise about identities: an attribute may have been initialised.\<close>

definition sound :: "ms \<Rightarrow> ms \<Rightarrow> bool" where
  "sound s s' \<longleftrightarrow> mrp_ok s' \<and> steady s s'"

lemma sound_refl: "mrp_ok s \<Longrightarrow> sound s s"
  by (simp add: sound_def)

lemma sound_stays: "sound r s \<Longrightarrow> stays s u \<Longrightarrow> sound r u"
  by (auto simp: sound_def stays_def intro: steady_trans)

lemma stays_sound: "stays s u \<Longrightarrow> sound s u"
  by (simp add: sound_def stays_def)

lemma sound_trans: "sound r s \<Longrightarrow> sound s u \<Longrightarrow> sound r u"
  by (auto simp: sound_def intro: steady_trans)

lemma sound_frame:
  assumes "sound s t"
  shows "length (attrs t) = length (attrs s)" "num_ports t = num_ports s"
    "length (stream_table t) = length (stream_table s)" "length (mvrp_entries t) = length (mvrp_entries s)"
    "owned j t = owned j s" "mrp_ok t"
  using assms steady_owned [of s t j]
  by (auto simp: sound_def steady_def dest: map_eq_imp_length_eq)

definition fits :: "ms \<Rightarrow> mrp_attribute_type \<Rightarrow> attribute_info \<Rightarrow> bool" where
  "fits s t i \<longleftrightarrow> (case i of
       InfoNull \<Rightarrow> t = MSRP_DOMAIN_VECTOR
     | InfoStream k \<Rightarrow> k < length (stream_table s) \<and> stream_type t
     | InfoVlan k \<Rightarrow> k < length (mvrp_entries s) \<and> t = MVRP_VID_VECTOR)"

lemma fits_ok: "fits s (attribute_type a) (attribute_info a) \<longleftrightarrow> info_ok s a \<and> bound a"
  by (auto simp: fits_def info_ok_def bound_def stream_type_def split: attribute_info.splits)

lemma fits_frame: "sound r s \<Longrightarrow> fits s t i = fits r t i"
  by (simp add: fits_def sound_frame split: attribute_info.split)

lemma mrp_get_attr_cases:
  assumes "mrp_ok s"
  obtains (full) "mrp_get_attr s = (None, s)"
  | (free) j u where "mrp_get_attr s = (Some j, u)" "j < length (attrs s)" "\<not> owned j s" "stays s u"
      "applicant_state (attrs s ! j) = MRP_UNUSED"
proof (cases "find_index (\<lambda>a. applicant_state a = MRP_UNUSED) (attrs s)")
  case None
  then show ?thesis using full by (simp add: mrp_get_attr_def)
next
  case (Some j)
  then have j: "j < length (attrs s)" "applicant_state (attrs s ! j) = MRP_UNUSED"
    by (auto dest: find_index_Some)
  then have no: "\<not> owned j s" using assms by (auto simp: mrp_ok_def pinned_def)
  have "attr_upd s j ((attrs s ! j)\<lparr>applicant_state := MRP_DISABLED\<rparr>)"
    by (rule attr_upd_applicant) (use assms j in \<open>auto simp: in_use_def\<close>)
  then have "stays s (s\<lparr>attrs := (attrs s)[j := (attrs s ! j)\<lparr>applicant_state := MRP_DISABLED\<rparr>]\<rparr>)"
    by (intro stays_update) (use assms j in \<open>auto simp: ident_def\<close>)
  with Some j no show ?thesis by (intro free) (simp_all add: mrp_get_attr_def)
qed

lemma mrp_attribute_init_post:
  assumes "sound r s" and "\<not> owned j r" and "port < num_ports r" and "fits r t i"
    and "\<And>u. sound r u \<Longrightarrow> fits u (attribute_type (attrs u ! j)) (attribute_info (attrs u ! j)) \<Longrightarrow>
           j < length (attrs u) \<Longrightarrow> Q u"
  shows "post (mrp_attribute_init (Some j) t port h i s) Q"
proof (cases "j < length (attrs s)")
  case True
  let ?a = "(attrs s ! j)\<lparr>attribute_type := t, attribute_info := i, port_num := port, propagated := False, here := h\<rparr>"
  let ?u = "s\<lparr>attrs := (attrs s)[j := ?a]\<rparr>"
  have ok: "mrp_ok s" and f: "fits s t i" using assms(1,4) by (simp_all add: sound_frame fits_frame)
  have "info_ok s ?a" "bound ?a" using f fits_ok [of s ?a] by simp_all
  then have "attr_upd s j ?a" using assms(1-3) by (simp add: attr_upd_def attr_ok_def sound_frame)
  then have "mrp_ok ?u" using ok True by (intro wf_update_attr)
  then have "sound s ?u" by (simp add: sound_def steady_def)
  with assms(1) have "sound r ?u" by (rule sound_trans)
  moreover have "fits ?u t i" using f by (simp add: fits_def split: attribute_info.splits)
  ultimately have "Q ?u" using True by (intro assms(5)) simp_all
  with True show ?thesis by (simp add: mrp_attribute_init_def put_attr_def post_simps)
qed (simp add: mrp_attribute_init_def put_attr_def post_simps)

lemma sound_post: "post m (stays s) \<Longrightarrow> sound r s \<Longrightarrow> (\<And>u. sound r u \<Longrightarrow> stays s u \<Longrightarrow> Q u) \<Longrightarrow> post m Q"
  unfolding post_def by (blast intro: sound_stays)

lemma mad_sound_posts:
  assumes "sound r s" and "j < length (attrs s)" and "\<And>u. sound r u \<Longrightarrow> stays s u \<Longrightarrow> Q u"
  shows "bound (attrs s ! j) \<Longrightarrow> post (mrp_mad_begin j s) Q"
    "bound (attrs s ! j) \<Longrightarrow> post (mrp_mad_join j new s) Q"
    "post (mrp_mad_leave j s) Q"
  by (rule sound_post [OF _ assms(1,3)], rule tot_post,
      (rule mrp_mad_begin_tot mrp_mad_join_tot mrp_mad_leave_tot),
      use assms(1,2) in \<open>simp_all add: sound_frame stays_refl\<close>)+

lemma new_attribute_post:
  assumes "sound r s" and "\<not> owned j r" and "port < num_ports r" and "fits r t i"
    and "\<And>u. sound r u \<Longrightarrow> j < length (attrs u) \<Longrightarrow> bound (attrs u ! j) \<Longrightarrow> post (k u) Q"
  shows "post (do { s \<leftarrow> mrp_attribute_init (Some j) t port h i s; s \<leftarrow> mrp_mad_begin j s; k s }) Q"
  unfolding post_construct
  by (rule mrp_attribute_init_post [OF assms(1-4)], rule mad_sound_posts(1))
    (auto simp: fits_ok stays_frame stays_ident intro: assms(5))

lemma get_attr_post:
  assumes "sound r s" and "post (k None s) Q"
    and "\<And>j u. j < length (attrs s) \<Longrightarrow> \<not> owned j s \<Longrightarrow> stays s u \<Longrightarrow> sound r u \<Longrightarrow> post (k (Some j) u) Q"
  shows "post (case mrp_get_attr s of (st, t) \<Rightarrow> k st t) Q"
  by (rule mrp_get_attr_cases [OF sound_frame(6) [OF assms(1)]])
    (use assms in \<open>auto intro: sound_stays\<close>)

lemma stream_fits:
  assumes "mrp_ok s" and "a < length (attrs s)" and "attribute_info (attrs s ! a) = InfoStream k"
  shows "fits s (attribute_type (attrs s ! a)) (InfoStream k)" "bound (attrs s ! a)"
  using wf_attr_ok [OF assms(1,2)] assms(3)
  by (auto simp: fits_def attr_ok_def info_ok_def bound_def stream_type_def)

lemma opposite_port_less: "num_ports s = 2 \<Longrightarrow> opposite_port p < num_ports s"
  by (simp add: opposite_port_def)

lemma create_propagated_post:
  assumes "mrp_ok s" and "num_ports s = 2" and "attr < length (attrs s)"
    and "attribute_info (attrs s ! attr) = InfoStream k"
  shows "post (create_propagated_attribute_and_join attr new s) (sound s)"
  unfolding create_propagated_attribute_and_join_def Let_def
proof (rule get_attr_post [OF sound_refl [OF assms(1)]])
  fix j u assume j: "j < length (attrs s)" "\<not> owned j s" "stays s u" "sound s u"
  have "post (do { s \<leftarrow> mrp_attribute_init (Some j) (attribute_type (attrs u ! attr)) (opposite_port (port_num (attrs u ! attr)))
        False (attribute_info (attrs u ! attr)) u; s \<leftarrow> mrp_mad_begin j s; s \<leftarrow> mrp_mad_join j new s;
        put_attr j (\<lambda>a. a\<lparr>propagated := True\<rparr>) s }) (sound s)"
    by (rule new_attribute_post [OF j(4,2) opposite_port_less])
      (use assms stream_fits(1) [OF assms(1,3,4)] stays_ident [OF j(3) assms(3)] in
        \<open>auto simp: post_simps core_def ident_def
          intro!: mad_sound_posts put_core_post [OF stays_refl] intro: sound_stays dest: sound_frame(6)\<close>)
  then show "post (do { a \<leftarrow> rd (attrs u) attr;
        s \<leftarrow> mrp_attribute_init (Some j) (attribute_type a) (opposite_port (port_num a)) False (attribute_info a) u;
        j \<leftarrow> Some j; s \<leftarrow> mrp_mad_begin j s; s \<leftarrow> mrp_mad_join j new s;
        put_attr j (\<lambda>a. a\<lparr>propagated := True\<rparr>) s }) (sound s)"
    by (simp add: post_simps)
qed (simp add: post_simps mrp_attribute_init_def)

section \<open>Searches\<close>

lemma first_match_Some: "first_match test js = Some (Some j) \<Longrightarrow> j \<in> set js \<and> test j = Some True"
  by (induction js) (auto simp: bind_eq_Some_conv split: if_splits)

lemma stream_id_of_Some: "stream_id_of s i = Some x \<Longrightarrow> \<exists>k. i = InfoStream k"
  by (auto simp: stream_id_of_def stream_of_def bind_eq_Some_conv split: attribute_info.splits)

lemma same_stream_True: "same_stream s i k = Some True \<Longrightarrow> (\<exists>x. i = InfoStream x) \<and> (\<exists>y. k = InfoStream y)"
  by (auto simp: same_stream_def bind_eq_Some_conv split: if_splits dest: stream_id_of_Some)

text \<open>Every search that succeeds returns an attribute with a pointer into the stream table.\<close>

definition found :: "ms \<Rightarrow> nat option \<Rightarrow> bool" where
  "found s m \<longleftrightarrow> (\<forall>j. m = Some j \<longrightarrow> j < length (attrs s) \<and> (\<exists>k. attribute_info (attrs s ! j) = InfoStream k))"

lemma search_posts:
  "post (mrp_match_type_non_prop_attribute t sid port s) (found s)"
  "post (mrp_match_attr_by_stream_and_type a op md s) (found s)"
  "post (mrp_match_attribute_pair_by_stream_id a op md s) (found s)"
proof -
  show "post (mrp_match_type_non_prop_attribute t sid port s) (found s)"
    unfolding mrp_match_type_non_prop_attribute_def
    by (auto simp: post_def found_def bind_eq_Some_conv rd_Some_iff split: if_splits
        dest!: first_match_Some dest: stream_id_of_Some)
  show "post (mrp_match_attr_by_stream_and_type a op md s) (found s)"
    unfolding mrp_match_attr_by_stream_and_type_def
    by (auto simp: post_def found_def bind_eq_Some_conv rd_Some_iff split: if_splits
        dest!: first_match_Some dest: same_stream_True)
  show "post (mrp_match_attribute_pair_by_stream_id a op md s) (found s)"
    unfolding mrp_match_attribute_pair_by_stream_id_def
    by (auto simp: post_def found_def bind_eq_Some_conv rd_Some_iff split: if_splits
        dest!: first_match_Some dest: same_stream_True)
qed

lemmas search_calls = search_posts [THEN post_call]

lemma found_stays: "found s m \<Longrightarrow> stays s u \<Longrightarrow> found u m"
  by (auto simp: found_def stays_frame stays_ident)

lemma foundD:
  assumes "mrp_ok s" and "found s (Some m)"
  shows "m < length (attrs s)" "bound (attrs s ! m)"
  using assms stream_fits(2) by (auto simp: found_def)

section \<open>Calls\<close>

named_theorems sound_calls \<open>calls of operations that keep the invariant and the identities\<close>

lemma sound_call:
  "(mrp_ok s \<Longrightarrow> post m (stays s)) \<Longrightarrow> sound r s \<Longrightarrow> (\<And>u. sound r u \<Longrightarrow> stays s u \<Longrightarrow> Q u) \<Longrightarrow> post m Q"
  by (blast intro: sound_post dest: sound_frame(6))

lemma sound_call_pair:
  "(mrp_ok s \<Longrightarrow> post m (\<lambda>x. stays s (snd x))) \<Longrightarrow> sound r s \<Longrightarrow> (\<And>b u. sound r u \<Longrightarrow> stays s u \<Longrightarrow> Q (b, u)) \<Longrightarrow> post m Q"
  unfolding post_def by (metis prod.collapse sound_stays sound_frame(6))

lemma bandwidth_stays:
  "mrp_ok s \<Longrightarrow> post (srp_increase_port_bandwidth x y p s) (stays s)"
  "mrp_ok s \<Longrightarrow> post (srp_decrease_port_bandwidth x y p s) (stays s)"
  by (auto simp: srp_increase_port_bandwidth_def srp_decrease_port_bandwidth_def post_simps
      intro!: stays_resize stays_refl)

lemma set_bw_reserved_stays: "mrp_ok s \<Longrightarrow> post (set_bw_reserved e p b s) (stays s)"
  unfolding set_bw_reserved_def post_construct post_array
proof (intro impI put_stream_post [OF stays_refl])
  fix x assume "mrp_ok s" "e < length (stream_table s)" "p < length (bw_reserved (stream_table s ! e))" "entry_ok s x"
  then show "entry_ok s (x\<lparr>bw_reserved := (bw_reserved (stream_table s ! e))[p := b]\<rparr>)"
    using wf_entry_ok [of s e] by (simp add: entry_ok_def)
qed

lemma change_applicant_stays: "mrp_ok s \<Longrightarrow> post (mrp_change_applicant_state st MRP_UNUSED s) (stays s)"
  by (auto simp: mrp_change_applicant_state_def post_simps intro!: srp_cleanup_post [OF stays_refl])

lemma vlan_stays:
  "mrp_ok s \<Longrightarrow> post (avb_join_vlan v p s) (\<lambda>x. stays s (snd x))"
  "mrp_ok s \<Longrightarrow> post (avb_leave_vlan v s) (stays s)"
  by (auto intro: avb_join_vlan_post [OF stays_refl] avb_leave_vlan_post [OF stays_refl])

lemma put_core_stays: "mrp_ok s \<Longrightarrow> (\<And>a. core (f a) = core a) \<Longrightarrow> post (put_attr j f s) (stays s)"
  by (auto intro: put_core_post [OF stays_refl])

lemma put_stream_stays: "mrp_ok s \<Longrightarrow> (\<And>e. entry_ok s e \<Longrightarrow> entry_ok s (f e)) \<Longrightarrow> post (put_stream k f s) (stays s)"
  by (auto intro: put_stream_post [OF stays_refl])

lemma manager_stays:
  "mrp_ok s \<Longrightarrow> post (set_source_state busy_srp n v s) (\<lambda>x. stays s (snd x))"
  "mrp_ok s \<Longrightarrow> post (set_source_vlan busy_srp n w s) (\<lambda>x. stays s (snd x))"
  "mrp_ok s \<Longrightarrow> post (set_sink_vlan busy_srp n w s) (\<lambda>x. stays s (snd x))"
  by (auto intro: manager_call_posts [OF stays_refl])

lemmas srp_sound_calls [sound_calls] =
  bandwidth_stays [THEN sound_call] set_bw_reserved_stays [THEN sound_call]
  change_applicant_stays [THEN sound_call] vlan_stays(2) [THEN sound_call]
  vlan_stays(1) [THEN sound_call_pair] manager_stays [THEN sound_call_pair]

lemmas read_calls =
  post_any [where m = "stream_id_of s i" for s i]
  post_any [where m = "frame_size_of s i" for s i]
  post_any [where m = "get_bw_reserved e p s" for e p s]
  post_any [where m = "get_source_state n s" for n and s :: ms]
  post_any [where m = "entry :: nat option" for entry]

section \<open>Propagation keeps the invariant\<close>

lemma mad_stays:
  "mrp_ok s \<Longrightarrow> found s (Some m) \<Longrightarrow> post (mrp_mad_begin m s) (stays s)"
  "mrp_ok s \<Longrightarrow> found s (Some m) \<Longrightarrow> post (mrp_mad_join m new s) (stays s)"
  "mrp_ok s \<Longrightarrow> found s (Some m) \<Longrightarrow> post (mrp_mad_leave m s) (stays s)"
  by (auto intro!: tot_post mrp_mad_begin_tot mrp_mad_join_tot mrp_mad_leave_tot stays_refl dest: foundD)

lemma join_and_propagate_stays:
  "mrp_ok s \<Longrightarrow> found s (Some m) \<Longrightarrow> post (join_and_propagate m s) (stays s)"
  unfolding join_and_propagate_def post_construct
  by (rule post_call [OF mad_stays(2)]) (auto simp: core_def ident_def intro!: put_core_post)

text \<open>Calls on an attribute found by an earlier search.\<close>

lemma found_calls:
  assumes "sound r s" and "found s (Some m)" and "\<And>u. sound r u \<Longrightarrow> stays s u \<Longrightarrow> Q u"
  shows "post (mrp_mad_begin m s) Q" "post (mrp_mad_join m new s) Q" "post (mrp_mad_leave m s) Q"
    "post (join_and_propagate m s) Q"
proof -
  note f = sound_frame(6) [OF assms(1)] assms(2)
  show "post (mrp_mad_begin m s) Q" "post (mrp_mad_join m new s) Q" "post (mrp_mad_leave m s) Q"
    "post (join_and_propagate m s) Q"
    by (auto intro: assms(3) sound_post [OF mad_stays(1) [OF f] assms(1)] sound_post [OF mad_stays(2) [OF f] assms(1)]
        sound_post [OF mad_stays(3) [OF f] assms(1)] sound_post [OF join_and_propagate_stays [OF f] assms(1)])
qed

lemma stays_start:
  assumes "mrp_ok s"
  shows "stays s s" "sound s s"
  using assms by (simp_all add: stays_refl sound_refl)

lemma create_propagated_call:
  assumes "mrp_ok s" and "num_ports s = 2" and "attr < length (attrs s)"
    and "attribute_info (attrs s ! attr) = InfoStream k" and "\<And>u. sound s u \<Longrightarrow> Q u"
  shows "post (create_propagated_attribute_and_join attr new s) Q"
  by (rule post_call [OF create_propagated_post [OF assms(1-4)] assms(5)])

lemma avb_srp_map_join_post:
  assumes "mrp_ok s" and "num_ports s = 2" and "attr < length (attrs s)"
    and "attribute_info (attrs s ! attr) = InfoStream k"
  shows "post (avb_srp_map_join attr new listener s) (sound s)"
  unfolding avb_srp_map_join_def Let_def
  by (auto simp: post_simps assms(3) stays_start [OF assms(1)]
    intro!: search_calls create_propagated_call [OF assms] sound_calls [where r = s] found_calls [where r = s] read_calls
    intro: found_stays stays_trans)

lemma avb_srp_map_leave_post:
  assumes "mrp_ok s"
  shows "post (avb_srp_map_leave attr s) (sound s)"
  unfolding avb_srp_map_leave_def Let_def
  by (auto simp: post_simps stays_start [OF assms(1)]
    intro!: search_calls sound_calls [where r = s] found_calls [where r = s] read_calls
    intro: found_stays stays_trans)

section \<open>Received attributes keep the invariant\<close>

lemma sound_self: "sound r s \<Longrightarrow> stays s s"
  by (simp add: stays_refl sound_frame(6))

lemma put_type_post:
  assumes "sound r s" and "is_talker t" and "attr < length (attrs s) \<Longrightarrow> is_talker (attribute_type (attrs s ! attr))"
    and "\<And>u. sound r u \<Longrightarrow> Q u"
  shows "post (put_attr attr (\<lambda>a. a\<lparr>attribute_type := t\<rparr>) s) Q"
proof (cases "attr < length (attrs s)")
  case True
  let ?a = "attrs s ! attr" and ?u = "s\<lparr>attrs := (attrs s)[attr := (attrs s ! attr)\<lparr>attribute_type := t\<rparr>]\<rparr>"
  have ok: "mrp_ok s" using assms(1) by (rule sound_frame)
  have a: "is_talker (attribute_type ?a)" "attr_ok s ?a" using assms(3) True wf_attr_ok [OF ok True] by simp_all
  then have "\<not> owned attr s" using ok by (auto simp: mrp_ok_def pinned_def is_talker_def)
  moreover have "attr_ok s (?a\<lparr>attribute_type := t\<rparr>)"
    using a assms(2) by (auto simp: attr_ok_def info_ok_def bound_def in_use_def is_talker_def stream_type_def split: attribute_info.splits)
  ultimately have "mrp_ok ?u" using ok True by (intro wf_update_attr) (simp_all add: attr_upd_def)
  then have "sound s ?u" by (simp add: sound_def steady_def)
  with assms(1,4) have "Q ?u" by (blast intro: sound_trans)
  with True show ?thesis by (simp add: put_attr_def post_simps)
qed (simp add: put_attr_def post_simps)

lemma length_first_value_mac [simp]: "length (first_value_mac x mac i) = 6"
  by (simp add: first_value_mac_def mac_bytes_def le_bytes32_def)

lemma talker_parameters_post:
  "(\<And>r'. length (dest_mac_addr r') = 6 \<Longrightarrow> failure_bridge_id r' = failure_bridge_id r \<Longrightarrow> Q r') \<Longrightarrow>
   post (talker_parameters pkt fv i r) Q"
  unfolding talker_parameters_def
  by (auto simp: post_simps intro!: post_any [where m = "rd16 p i" for p i] post_any [where m = "rd32 p i" for p i]
    post_any [where m = "read_block xs i n" for xs :: bytes and i n])

lemma put_stream_call [sound_calls]:
  "sound r s \<Longrightarrow> (\<And>e. entry_ok s e \<Longrightarrow> entry_ok s (f e)) \<Longrightarrow>
   (\<And>u. sound r u \<Longrightarrow> stays s u \<Longrightarrow> k < length (stream_table s) \<Longrightarrow> Q u) \<Longrightarrow> post (put_stream k f s) Q"
  using put_stream_stays [of s f k] unfolding post_def
  by (auto simp: put_stream_Some sound_frame(6) intro: sound_stays)

lemma add_entry_calls [sound_calls]:
  assumes "sound r s" and "\<And>e u. sound r u \<Longrightarrow> stays s u \<Longrightarrow> (\<And>k. e = Some k \<Longrightarrow> k < length (stream_table s)) \<Longrightarrow> Q (e, u)"
  shows "length (dest_mac_addr v) = 6 \<Longrightarrow> post (srp_add_reservation_entry v s) Q"
    "post (srp_add_reservation_entry_stream_id_only sid s) Q"
  unfolding srp_add_reservation_entry_def srp_add_reservation_entry_stream_id_only_def
  by (auto simp: post_simps Let_def entry_ok_def copy_without_failure_info_def zero_srp_info_def sound_self [OF assms(1)]
    intro!: put_stream_call [OF assms(1)] assms)


lemma stream_of_post:
  "(\<And>k. i = InfoStream k \<Longrightarrow> k < length (stream_table s) \<Longrightarrow> Q (k, stream_table s ! k)) \<Longrightarrow> post (stream_of s i) Q"
  by (auto simp: stream_of_def post_simps split: attribute_info.split)

lemma read_block_post: "(\<And>ys. length ys = n \<Longrightarrow> Q ys) \<Longrightarrow> post (read_block xs i n) Q"
  by (auto simp: post_def dest: read_block_length)

lemma sound_entry:
  assumes "sound r s" and "k < length (stream_table s)"
  shows "length (failure_bridge_id (reservation (stream_table s ! k))) = 8"
  using wf_entry_ok [OF sound_frame(6) [OF assms(1)] assms(2)] by (simp add: entry_ok_def)

lemma match_talker_advertise_post:
  assumes "mrp_ok s" and "attr < length (attrs s) \<Longrightarrow> is_talker (attribute_type (attrs s ! attr))"
  shows "post (avb_srp_match_talker_advertise attr pkt fv i la failed s) (\<lambda>(b, p, u). sound s u)"
  unfolding avb_srp_match_talker_advertise_def Let_def
  by (auto simp: post_simps stays_start [OF assms(1)] entry_ok_def is_talker_def
    intro!: stream_of_post read_block_post talker_parameters_post sound_calls [where r = s]
      put_type_post [where r = s] assms(2) intro: sound_entry)

lemma match_domain_post: "mrp_ok s \<Longrightarrow> post (avb_srp_match_domain attr pkt fv i s) (\<lambda>(b, u). stays s u)"
  by (auto simp: avb_srp_match_domain_def post_simps intro!: post_any [where m = "rd16 p i" for p i] stays_mgr stays_refl)

section \<open>Indications keep the invariant\<close>

lemma sound_mgr:
  "sound r s \<Longrightarrow> sound r (set_avb_source_port n p s)"
  by (blast intro: sound_stays stays_mgr sound_self)

lemma listener_enable_post:
  assumes "mrp_ok s"
  shows "post (listener_enable attr n s) (\<lambda>x. sound s (snd x))"
  unfolding listener_enable_def Let_def
  by (auto simp: post_simps stays_start [OF assms] intro!: search_calls read_calls sound_calls [where r = s] sound_mgr)

text \<open>Calls of operations that are only known to be \<open>sound\<close>.\<close>

lemma only_sound_call:
  "(mrp_ok s \<Longrightarrow> post m (sound s)) \<Longrightarrow> sound r s \<Longrightarrow> (\<And>u. sound r u \<Longrightarrow> Q u) \<Longrightarrow> post m Q"
  unfolding post_def by (blast intro: sound_trans sound_frame(6))

lemma only_sound_call_pair:
  "(mrp_ok s \<Longrightarrow> post m (\<lambda>x. sound s (snd x))) \<Longrightarrow> sound r s \<Longrightarrow> (\<And>b u. sound r u \<Longrightarrow> Q (b, u)) \<Longrightarrow> post m Q"
  unfolding post_def by (metis prod.collapse sound_trans sound_frame(6))

lemma stream_id_of_post: "(\<And>x k. i = InfoStream k \<Longrightarrow> Q x) \<Longrightarrow> post (stream_id_of s i) Q"
  by (auto simp: post_def dest: stream_id_of_Some)

lemma listener_join_ind_post:
  assumes "mrp_ok s"
  shows "post (avb_srp_listener_join_ind attr new four s) (sound s)"
  unfolding avb_srp_listener_join_ind_def Let_def
  by (auto simp: post_simps stays_start [OF assms]
    intro!: stream_id_of_post avb_srp_map_join_post [OF assms, THEN post_call] 
      listener_enable_post [THEN only_sound_call_pair, where r = s] sound_calls [where r = s]
      post_any [where m = "get_source_state n s" for n and s :: ms])

lemma listener_leave_ind_post:
  assumes "mrp_ok s"
  shows "post (avb_srp_listener_leave_ind attr four s) (sound s)"
  unfolding avb_srp_listener_leave_ind_def Let_def
  by (auto simp: post_simps stays_start [OF assms]
    intro!: read_calls search_calls avb_srp_map_leave_post [OF assms, THEN post_call] sound_calls [where r = s] sound_mgr)

lemma talker_leave_ind_post:
  assumes "mrp_ok s"
  shows "post (avb_srp_talker_leave_ind attr s) (sound s)"
  unfolding avb_srp_talker_leave_ind_def
  by (auto simp: post_simps stays_start [OF assms] entry_ok_def avb_get_sink_stream_index_from_pointer_def
    intro!: stream_of_post avb_srp_map_leave_post [OF assms] sound_calls [where r = s])

lemma map_join_call:
  assumes "sound r s" and "num_ports s = 2" and "attr < length (attrs s)"
    and "attribute_info (attrs s ! attr) = InfoStream k" and "\<And>u. sound r u \<Longrightarrow> Q u"
  shows "post (avb_srp_map_join attr new listener s) Q"
  by (rule post_call [OF avb_srp_map_join_post [OF sound_frame(6) [OF assms(1)] assms(2-4)]])
    (rule assms(5), rule sound_trans [OF assms(1)])

lemma talker_join_ind_post:
  assumes "mrp_ok s"
  shows "post (avb_srp_talker_join_ind attr new s) (sound s)"
  unfolding avb_srp_talker_join_ind_def Let_def
  by (auto simp: post_simps stays_start [OF assms] stays_frame stays_ident
    intro!: stream_id_of_post search_calls sound_calls [where r = s] found_calls [where r = s] map_join_call [where r = s]
    intro: found_stays stays_trans)

lemma domain_join_ind_post:
  assumes "mrp_ok s"
  shows "post (avb_srp_domain_join_ind attr s) (sound s)"
proof -
  have vl: "post (do { vlan \<leftarrow> get_source_vlan i u; if vlan = 0 then do {
              (b, s) \<leftarrow> set_source_vlan busy_srp i (sint (current_vlan_id_from_domain u)) u; Some s } else Some u }) (sound s)"
    "post (do { vlan \<leftarrow> get_sink_vlan i u; if vlan = 0 then do {
              (b, s) \<leftarrow> set_sink_vlan busy_srp i (sint (current_vlan_id_from_domain u)) u; Some s } else Some u }) (sound s)"
    if "sound s u" for i u
    using that by (auto simp: post_simps intro!: post_any [where m = "get_source_vlan n s" for n and s :: ms]
      post_any [where m = "get_sink_vlan n s" for n and s :: ms] sound_calls [where r = s])
  show ?thesis
    unfolding avb_srp_domain_join_ind_def Let_def post_construct
    by (auto simp: post_array intro!: post_call [OF post_for_each [where P = "sound s", OF _ vl(1)]]
      post_for_each [where P = "sound s", OF _ vl(2)] stays_sound stays_resize stays_refl assms)
qed

lemma domain_leave_ind_post: "mrp_ok s \<Longrightarrow> post (avb_srp_domain_leave_ind attr s) (sound s)"
  by (auto simp: avb_srp_domain_leave_ind_def post_simps intro!: stays_sound stays_resize stays_refl)

section \<open>Requests keep the invariant\<close>

lemma found_not_owned:
  assumes "mrp_ok s" and "found s (Some m)"
  shows "\<not> owned m s"
proof
  assume "owned m s"
  then have "pinned (attrs s ! m)" "m < length (attrs s)" using assms(1) by (auto simp: mrp_ok_def)
  with assms wf_attr_ok [of s m] show False
    by (auto simp: found_def pinned_def attr_ok_def info_ok_def stream_type_def)
qed

lemma put_here_call:
  assumes "sound r s" and "found s (Some m)" and "\<And>a. ident (f a) = ident a \<and> applicant_state (f a) = applicant_state a"
    and "\<And>u. sound r u \<Longrightarrow> stays s u \<Longrightarrow> Q u"
  shows "post (put_attr m f s) Q"
proof -
  let ?a = "attrs s ! m" and ?u = "s\<lparr>attrs := (attrs s)[m := f (attrs s ! m)]\<rparr>"
  have ok: "mrp_ok s" by (rule sound_frame) fact
  have m: "m < length (attrs s)" using assms(2) by (simp add: found_def)
  have a: "attribute_type (f ?a) = attribute_type ?a" "attribute_info (f ?a) = attribute_info ?a"
    "port_num (f ?a) = port_num ?a" "next_attr (f ?a) = next_attr ?a" "applicant_state (f ?a) = applicant_state ?a"
    using assms(3) [of ?a] by (simp_all add: ident_def)
  have "attr_upd s m (f ?a)"
    using wf_attr_ok [OF ok m] found_not_owned [OF ok assms(2)] foundD(2) [OF ok assms(2)]
    by (simp add: attr_upd_def attr_ok_def info_ok_def in_use_def bound_def a split: attribute_info.splits)
  then have "stays s ?u" using ok m assms(3) by (intro stays_update) simp_all
  with assms(1,4) m show ?thesis by (auto simp: put_attr_def post_simps intro: sound_stays)
qed

lemma leave_here_call:
  assumes "sound r s" and "found s (Some m)" and "\<And>u. sound r u \<Longrightarrow> stays s u \<Longrightarrow> Q u"
  shows "post (leave_here m s) Q"
  unfolding leave_here_def post_construct
  by (rule put_here_call [OF assms(1,2)])
    (auto simp: ident_def intro!: found_calls [where r = r] assms(2) intro: found_stays [OF assms(2)] assms(3) stays_trans)

lemma match_talker_on_port_post: "post (match_talker_on_port sid p s) (found s)"
  by (auto simp: match_talker_on_port_def post_simps intro!: search_calls)

lemma leave_talker_attrs_post:
  assumes "mrp_ok s"
  shows "post (avb_srp_leave_talker_attrs sid s) (sound s)"
  unfolding avb_srp_leave_talker_attrs_def
  by (rule post_for_each)
    (auto simp: post_simps stays_start [OF assms]
      intro!: match_talker_on_port_post [THEN post_call] search_calls found_calls [where r = s] leave_here_call [where r = s])

lemma leave_listener_attrs_post:
  assumes "mrp_ok s"
  shows "post (avb_srp_leave_listener_attrs sid s) (sound s)"
  unfolding avb_srp_leave_listener_attrs_def
  by (auto simp: post_simps stays_start [OF assms] ident_def
      intro!: match_talker_on_port_post [THEN post_call] search_calls leave_here_call [where r = s] put_here_call [where r = s]
      intro: found_stays)

lemma get_attr_None: "mrp_get_attr s = (None, u) \<Longrightarrow> u = s"
  by (auto simp: mrp_get_attr_def split: option.splits)

lemma get_attr_Some:
  assumes "mrp_get_attr s = (Some j, u)" and "sound r s"
  shows "sound r u" "stays s u" "\<not> owned j r"
proof -
  have ok: "mrp_ok s" by (rule sound_frame) fact
  have "\<not> owned j s \<and> stays s u"
    by (rule mrp_get_attr_cases [OF ok]) (use assms(1) in auto)
  with assms(2) show "sound r u" "stays s u" "\<not> owned j r"
    by (auto simp: sound_frame intro: sound_stays)
qed

text \<open>A fresh attribute for a stream: initialised, started, and joined when asked to.\<close>

lemma new_stream_attr:
  assumes "sound r s" and "\<not> owned j r" and "port < num_ports r" and "k < length (stream_table r)" and "stream_type t"
    and "\<And>u. sound r u \<Longrightarrow> found u (Some j) \<Longrightarrow> Q u"
  shows "post (mrp_attribute_init (Some j) t port h (InfoStream k) s) Q"
proof (cases "j < length (attrs s)")
  case True
  let ?u = "s\<lparr>attrs := (attrs s)[j := (attrs s ! j)\<lparr>attribute_type := t, attribute_info := InfoStream k,
      port_num := port, propagated := False, here := h\<rparr>]\<rparr>"
  have i: "mrp_attribute_init (Some j) t port h (InfoStream k) s = Some ?u"
    using True by (simp add: mrp_attribute_init_def put_attr_def)
  have "post (mrp_attribute_init (Some j) t port h (InfoStream k) s) (sound r)"
    by (rule mrp_attribute_init_post [OF assms(1-3)]) (use assms(4,5) in \<open>auto simp: fits_def\<close>)
  with i have "sound r ?u" by (simp add: post_simps)
  moreover have "found ?u (Some j)" using True by (simp add: found_def)
  ultimately show ?thesis unfolding i by (simp add: post_simps assms(6))
qed (simp add: mrp_attribute_init_def put_attr_def post_simps)

lemma stream_types [simp]:
  "stream_type MSRP_TALKER_ADVERTISE" "stream_type MSRP_TALKER_FAILED" "stream_type MSRP_LISTENER"
  by (simp_all add: stream_type_def)

lemma create_talker_on_port_post:
  assumes "sound r s" and "i < num_ports r" and "k < length (stream_table r)"
  shows "post (create_talker_on_port resv k i s) (sound r)"
  unfolding create_talker_on_port_def
  by (auto simp: post_simps entry_ok_def assms
    intro!: match_talker_on_port_post [THEN post_call] search_calls sound_calls [where r = r] found_calls [where r = r]
      new_stream_attr [where r = r]
    intro: found_stays stays_trans get_attr_Some(1,2)
    dest!: get_attr_None dest: get_attr_Some(3))

lemma create_and_join_talker_post:
  assumes "mrp_ok s" and "length (dest_mac_addr resv) = 6"
  shows "post (avb_srp_create_and_join_talker_advertise_attrs resv s) (\<lambda>x. sound s (snd x))"
  unfolding avb_srp_create_and_join_talker_advertise_attrs_def
  by (auto simp: post_simps stays_start [OF assms(1)] assms(2) stays_frame
    intro!: sound_calls [where r = s] post_call [OF post_for_each [where P = "sound s"]] create_talker_on_port_post [where r = s])

lemma join_disabled_listener_post:
  assumes "sound r s" and "i < num_ports r" and "k < length (stream_table r)"
  shows "post (join_disabled_listener sid vid k i s) (sound r)"
  unfolding join_disabled_listener_def
  by (auto simp: post_simps assms
    intro!: search_calls sound_calls [where r = r] found_calls [where r = r] new_stream_attr [where r = r]
    intro: found_stays stays_trans get_attr_Some(1,2)
    dest!: get_attr_None dest: get_attr_Some(3))

lemma new_stream_attr_option:
  assumes "sound r s" and "mrp_get_attr s = (st, s1)" and "port < num_ports r" and "k < length (stream_table r)" and "stream_type t"
    and "\<And>u. sound r u \<Longrightarrow> found u st \<Longrightarrow> Q u"
  shows "post (mrp_attribute_init st t port h (InfoStream k) s1) Q"
proof (cases st)
  case None
  then show ?thesis by (simp add: mrp_attribute_init_def post_simps)
next
  case (Some j)
  with assms(1,2) have "sound r s1" "\<not> owned j r" by (auto dest: get_attr_Some)
  with assms(3-6) Some show ?thesis by (auto intro: new_stream_attr)
qed

lemma process_new_attribute_post:
  assumes "mrp_ok s" and "port < num_ports s"
  shows "post (avb_srp_process_new_attribute_from_packet t pkt fv num port s) (\<lambda>(st, u). sound s u \<and> found u st)"
  unfolding avb_srp_process_new_attribute_from_packet_def Let_def
  by (auto simp: post_simps stays_start [OF assms(1)] assms(2) found_def [of _ None] is_talker_def
    intro!: read_block_post talker_parameters_post sound_calls [where r = s]
    intro: new_stream_attr_option [where r = s])

text \<open>Initialising a fresh attribute from an attribute found by a search.\<close>

lemma new_attr_like:
  assumes "sound r s" and "\<not> owned j r" and "found s (Some t)"
    and "\<And>u. sound r u \<Longrightarrow> found u (Some j) \<Longrightarrow> Q u"
  shows "post (mrp_attribute_init (Some j) MSRP_LISTENER (port_num (attrs s ! t)) h (attribute_info (attrs s ! t)) s) Q"
proof -
  from assms(3) obtain k where t: "t < length (attrs s)" "attribute_info (attrs s ! t) = InfoStream k"
    by (auto simp: found_def)
  have ok: "mrp_ok s" by (rule sound_frame) fact
  have "port_num (attrs s ! t) < num_ports r" "k < length (stream_table r)"
    using wf_attr_ok [OF ok t(1)] t(2) assms(1) by (auto simp: attr_ok_def info_ok_def sound_frame)
  with t(2) assms show ?thesis by (auto intro: new_stream_attr)
qed

lemma join_listener_attrs_post:
  assumes "mrp_ok s"
  shows "post (avb_srp_join_listener_attrs sid vlan s) (\<lambda>x. sound s (snd x))"
  unfolding avb_srp_join_listener_attrs_def Let_def
  using stays_start(2) [OF assms]
  by (auto simp: post_simps ident_def stays_frame
    intro!: search_calls sound_calls [where r = s] found_calls [where r = s] new_attr_like [where r = s]
      put_here_call [where r = s] post_call [OF post_for_each [where P = "sound s"]] join_disabled_listener_post [where r = s]
    intro: found_stays stays_trans get_attr_Some(1,2)
    dest!: get_attr_None dest: get_attr_Some(3))

end
