(* ===== verification/Mrp_Task.thy ===== *)
theory Mrp_Task
  imports Srp_Inv
begin

text \<open>
  The reservation task: indications, periodic processing and packet reception of
  \<^verbatim>\<open>src/srp/avb_mrp.c\<close>, and the event loop of \<^verbatim>\<open>src/srp/avb_srp.xc\<close> as the step relation
  \<open>srp_step\<close>.
\<close>

section \<open>Model: indications\<close>

definition send_join_indication :: "nat \<Rightarrow> bool \<Rightarrow> nat \<Rightarrow> ms \<Rightarrow> ms option" where
  "send_join_indication st new four s = do {
     a \<leftarrow> rd (attrs s) st;
     case attribute_type a of
       MSRP_TALKER_ADVERTISE \<Rightarrow> avb_srp_talker_join_ind st new s
     | MSRP_TALKER_FAILED \<Rightarrow> Some s
     | MSRP_LISTENER \<Rightarrow> avb_srp_listener_join_ind st new four s
     | MSRP_DOMAIN_VECTOR \<Rightarrow> avb_srp_domain_join_ind st s
     | MVRP_VID_VECTOR \<Rightarrow> avb_mvrp_vid_vector_join_ind st s
     | MMRP_MAC_VECTOR \<Rightarrow> Some s
   }"

definition send_leave_indication :: "nat \<Rightarrow> nat \<Rightarrow> ms \<Rightarrow> ms option" where
  "send_leave_indication st four s = do {
     a \<leftarrow> rd (attrs s) st;
     case attribute_type a of
       MSRP_TALKER_ADVERTISE \<Rightarrow> avb_srp_talker_leave_ind st s
     | MSRP_TALKER_FAILED \<Rightarrow> Some s
     | MSRP_LISTENER \<Rightarrow> avb_srp_listener_leave_ind st four s
     | MSRP_DOMAIN_VECTOR \<Rightarrow> avb_srp_domain_leave_ind st s
     | MVRP_VID_VECTOR \<Rightarrow> avb_mvrp_vid_vector_leave_ind st s
     | MMRP_MAC_VECTOR \<Rightarrow> Some s
   }"

section \<open>Model: periodic processing\<close>

definition poll_list_timer ::
    "(ms \<Rightarrow> avb_timer list) \<Rightarrow> (avb_timer list \<Rightarrow> ms \<Rightarrow> ms) \<Rightarrow> nat \<Rightarrow> ms \<Rightarrow> (bool \<times> ms) option" where
  "poll_list_timer get put i s = do {
     t \<leftarrow> rd (get s) i;
     let (b, t, s) = avb_timer_expired t s;
     Some (b, put ((get s)[i := t]) s)
   }"

definition start_list_timer ::
    "(ms \<Rightarrow> avb_timer list) \<Rightarrow> (avb_timer list \<Rightarrow> ms \<Rightarrow> ms) \<Rightarrow> nat \<Rightarrow> u32 \<Rightarrow> ms \<Rightarrow> ms option" where
  "start_list_timer get put i period s = do {
     t \<leftarrow> rd (get s) i;
     let (t, s) = start_avb_timer t period s;
     Some (put ((get s)[i := t]) s)
   }"

abbreviation put_periodic :: "avb_timer list \<Rightarrow> ms \<Rightarrow> ms" where
  "put_periodic t s \<equiv> s\<lparr>periodic_timer := t\<rparr>"
abbreviation put_join :: "avb_timer list \<Rightarrow> ms \<Rightarrow> ms" where
  "put_join t s \<equiv> s\<lparr>joinTimer := t\<rparr>"
abbreviation put_msrp_la :: "avb_timer list \<Rightarrow> ms \<Rightarrow> ms" where
  "put_msrp_la t s \<equiv> s\<lparr>msrp_leaveall_timer := t\<rparr>"
abbreviation put_mvrp_la :: "avb_timer list \<Rightarrow> ms \<Rightarrow> ms" where
  "put_mvrp_la t s \<equiv> s\<lparr>mvrp_leaveall_timer := t\<rparr>"

definition periodic_timers :: "nat \<Rightarrow> ms \<Rightarrow> ms option" where
  "periodic_timers i s = do {
     (expired, s) \<leftarrow> poll_list_timer periodic_timer put_periodic i s;
     s \<leftarrow> (if expired then do {
            s \<leftarrow> global_event MRP_EVENT_PERIODIC i s;
            start_list_timer periodic_timer put_periodic i periodic_interval s
          } else Some s);
     (expired, s) \<leftarrow> poll_list_timer msrp_leaveall_timer put_msrp_la i s;
     s \<leftarrow> (if expired then do {
            s \<leftarrow> msrp_types_event MRP_EVENT_RECEIVE_LEAVE_ALL i s;
            act \<leftarrow> wr (msrp_leaveall_active s) i True;
            start_list_timer msrp_leaveall_timer put_msrp_la i leaveall_interval (s\<lparr>msrp_leaveall_active := act\<rparr>)
          } else Some s);
     (expired, s) \<leftarrow> poll_list_timer mvrp_leaveall_timer put_mvrp_la i s;
     (if expired then do {
        s \<leftarrow> attribute_type_event (Some MVRP_VID_VECTOR) MRP_EVENT_RECEIVE_LEAVE_ALL i s;
        act \<leftarrow> wr (mvrp_leaveall_active s) i True;
        start_list_timer mvrp_leaveall_timer put_mvrp_la i leaveall_interval (s\<lparr>mvrp_leaveall_active := act\<rparr>)
      } else Some s)
   }"

definition leave_all_msg :: "mrp_attribute_type \<Rightarrow> nat \<Rightarrow> ms \<Rightarrow> ms option" where
  "leave_all_msg t i s = do { s \<leftarrow> create_empty_msg t True s; mrp_send i s }"

definition transmit_opportunity :: "nat \<Rightarrow> ms \<Rightarrow> ms option" where
  "transmit_opportunity i s = do {
     s \<leftarrow> start_list_timer joinTimer put_join i MRP_JOINTIMER_PERIOD_CENTISECONDS s;
     s \<leftarrow> sort_attrs s;
     la \<leftarrow> rd (mvrp_leaveall_active s) i;
     let tx_event = (if la then MRP_EVENT_TX_LEAVE_ALL else MRP_EVENT_TX);
     s \<leftarrow> configure_send_buffer mvrp_dest_mac (of_nat AVB_MVRP_ETHERTYPE) s;
     s \<leftarrow> (if la then do {
            s \<leftarrow> leave_all_msg MVRP_VID_VECTOR i s;
            act \<leftarrow> wr (mvrp_leaveall_active s) i False;
            Some (s\<lparr>mvrp_leaveall_active := act\<rparr>)
          } else Some s);
     s \<leftarrow> attribute_type_event (Some MVRP_VID_VECTOR) tx_event i s;
     s \<leftarrow> force_send i s;
     la \<leftarrow> rd (msrp_leaveall_active s) i;
     let tx_event = (if la then MRP_EVENT_TX_LEAVE_ALL else MRP_EVENT_TX);
     s \<leftarrow> configure_send_buffer srp_dest_mac (of_nat AVB_SRP_ETHERTYPE) s;
     s \<leftarrow> (if la then do {
            s \<leftarrow> leave_all_msg MSRP_TALKER_ADVERTISE i s;
            s \<leftarrow> leave_all_msg MSRP_TALKER_FAILED i s;
            s \<leftarrow> leave_all_msg MSRP_LISTENER i s;
            s \<leftarrow> leave_all_msg MSRP_DOMAIN_VECTOR i s;
            act \<leftarrow> wr (msrp_leaveall_active s) i False;
            Some (s\<lparr>msrp_leaveall_active := act\<rparr>)
          } else Some s);
     s \<leftarrow> msrp_types_event tx_event i s;
     force_send i s
   }"

definition pending_step :: "nat \<Rightarrow> ms \<Rightarrow> ms option" where
  "pending_step j s = do {
     a \<leftarrow> rd (attrs s) j;
     if pending_indications a \<noteq> 0 then do {
       s \<leftarrow> (if pending_indications a AND PENDING_JOIN_NEW \<noteq> 0
            then send_join_indication j True (four_vector_parameter a) s else Some s);
       a \<leftarrow> rd (attrs s) j;
       s \<leftarrow> (if pending_indications a AND PENDING_JOIN \<noteq> 0
            then send_join_indication j False (four_vector_parameter a) s else Some s);
       a \<leftarrow> rd (attrs s) j;
       s \<leftarrow> (if pending_indications a AND PENDING_LEAVE \<noteq> 0
            then send_leave_indication j (four_vector_parameter a) s else Some s);
       put_attr j (\<lambda>a. a\<lparr>pending_indications := 0\<rparr>) s
     } else Some s
   }"

definition boundary_step :: "nat \<Rightarrow> nat \<Rightarrow> ms \<Rightarrow> ms option" where
  "boundary_step i j s = do {
     a \<leftarrow> rd (attrs s) j;
     boundary \<leftarrow> rd (srp_domain_boundary_port s) i;
     let resv_info = attribute_info a;
     if attribute_type a = MSRP_TALKER_ADVERTISE \<and> boundary then do {
       s \<leftarrow> put_attr j (\<lambda>a. a\<lparr>attribute_type := MSRP_TALKER_FAILED\<rparr>) s;
       s \<leftarrow> (if resv_info = InfoNull then Some s
            else do {
              (k, e) \<leftarrow> stream_of s resv_info;
              mac \<leftarrow> read_block (send_buf s) 8 6;
              put_stream k (\<lambda>e. e\<lparr>talker_present := False,
                reservation := (reservation e)\<lparr>failure_code := 8, failure_bridge_id := [0, 0] @ mac\<rparr>\<rparr>) s });
       if here a then mrp_mad_join j True s else Some s
     }
     else if attribute_type a = MSRP_TALKER_FAILED \<and> \<not> boundary \<and> resv_info \<noteq> InfoNull then do {
       (k, e) \<leftarrow> stream_of s resv_info;
       if failure_code (reservation e) = 8 then do {
         s \<leftarrow> put_attr j (\<lambda>a. a\<lparr>attribute_type := MSRP_TALKER_ADVERTISE\<rparr>) s;
         s \<leftarrow> put_stream k (\<lambda>e. e\<lparr>talker_present := True\<rparr>) s;
         if here a then mrp_mad_join j True s else Some s
       } else Some s
     }
     else Some s
   }"

definition leave_timer_step :: "nat \<Rightarrow> nat \<Rightarrow> ms \<Rightarrow> ms option" where
  "leave_timer_step i j s = do {
     a \<leftarrow> rd (attrs s) j;
     let (b, t, s) = avb_timer_expired (leaveTimer a) s;
     s \<leftarrow> put_attr j (\<lambda>a. a\<lparr>leaveTimer := t\<rparr>) s;
     if b then mrp_update_state MRP_EVENT_LEAVETIMER j 0 i s else Some s
   }"

definition periodic_attr :: "nat \<Rightarrow> nat \<Rightarrow> ms \<Rightarrow> ms option" where
  "periodic_attr i j s = do {
     a \<leftarrow> rd (attrs s) j;
     if applicant_state a = MRP_UNUSED then Some s
     else if port_num a \<noteq> i then Some s
     else do {
       s \<leftarrow> pending_step j s;
       s \<leftarrow> boundary_step i j s;
       leave_timer_step i j s
     }
   }"

definition mrp_periodic :: "ms \<Rightarrow> ms option" where
  "mrp_periodic s = for_each [0..<num_ports s] (\<lambda>i s. do {
     s \<leftarrow> periodic_timers i s;
     (expired, s) \<leftarrow> poll_list_timer joinTimer put_join i s;
     s \<leftarrow> (if expired then transmit_opportunity i s else Some s);
     for_each [0..<length (attrs s)] (periodic_attr i) s }) s"

section \<open>Model: reception\<close>

definition mrp_in :: "nat \<Rightarrow> nat \<Rightarrow> nat \<Rightarrow> nat \<Rightarrow> ms \<Rightarrow> ms option" where
  "mrp_in three four st port s =
     (if three = 0 then mrp_update_state MRP_EVENT_RECEIVE_NEW st four port s
      else if three = 1 then mrp_update_state MRP_EVENT_RECEIVE_JOININ st four port s
      else if three = 2 then mrp_update_state MRP_EVENT_RECEIVE_IN st four port s
      else if three = 3 then mrp_update_state MRP_EVENT_RECEIVE_JOINMT st four port s
      else if three = 4 then mrp_update_state MRP_EVENT_RECEIVE_MT st four port s
      else if three = 5 then mrp_update_state MRP_EVENT_RECEIVE_LEAVE st four port s
      else Some s)"

definition match_attribute_of_same_type ::
    "mrp_attribute_type option \<Rightarrow> nat \<Rightarrow> bytes \<Rightarrow> nat \<Rightarrow> nat \<Rightarrow> nat \<Rightarrow> nat \<Rightarrow> bool \<Rightarrow> ms
     \<Rightarrow> (bool \<times> bytes \<times> ms) option" where
  "match_attribute_of_same_type attr_type attr pkt fv i four port leave_all s = do {
     a \<leftarrow> rd (attrs s) attr;
     if \<not> in_use a then Some (False, pkt, s)
     else if port_num a \<noteq> port then Some (False, pkt, s)
     else (case attr_type of
         None \<Rightarrow> Some (False, pkt, s)
       | Some t \<Rightarrow>
           if \<not> (attribute_type a \<le> MSRP_TALKER_FAILED \<and> t \<le> MSRP_TALKER_FAILED) \<and> attribute_type a \<noteq> t
           then Some (False, pkt, s)
           else (case t of
               MSRP_TALKER_ADVERTISE \<Rightarrow> avb_srp_match_talker_advertise attr pkt fv i leave_all False s
             | MSRP_TALKER_FAILED \<Rightarrow> avb_srp_match_talker_advertise attr pkt fv i leave_all True s
             | MSRP_LISTENER \<Rightarrow> do { b \<leftarrow> avb_srp_match_listener attr pkt fv i four s; Some (b, pkt, s) }
             | MSRP_DOMAIN_VECTOR \<Rightarrow> do { (b, s) \<leftarrow> avb_srp_match_domain attr pkt fv i s; Some (b, pkt, s) }
             | MVRP_VID_VECTOR \<Rightarrow> do { b \<leftarrow> avb_mvrp_match_vid_vector attr pkt fv i s; Some (b, pkt, s) }
             | MMRP_MAC_VECTOR \<Rightarrow> Some (False, pkt, s)))
   }"

text \<open>One value of a vector offered to every attribute, then to the table of new attributes.\<close>

definition receive_value ::
    "mrp_attribute_type option \<Rightarrow> nat \<Rightarrow> nat \<Rightarrow> nat \<Rightarrow> nat \<Rightarrow> nat \<Rightarrow> bool \<Rightarrow> bytes \<times> ms
     \<Rightarrow> (bytes \<times> ms) option" where
  "receive_value attr_type fv i three four port leave_all ps = do {
     (matched, pkt, s) \<leftarrow> for_each [0..<length (attrs (snd ps))] (\<lambda>j (matched, pkt, s). do {
         (m, pkt, s) \<leftarrow> match_attribute_of_same_type attr_type j pkt fv i four port leave_all s;
         if m then do { s \<leftarrow> mrp_in three four j port s; Some (True, pkt, s) }
         else Some (matched, pkt, s) }) (False, fst ps, snd ps);
     if num_ports s = 2 \<and> \<not> matched \<and> \<not> leave_all
        \<and> (attr_type = Some MSRP_TALKER_ADVERTISE \<or> attr_type = Some MSRP_LISTENER) \<and> three \<noteq> 4
     then do {
       t \<leftarrow> attr_type;
       (st, s) \<leftarrow> avb_srp_process_new_attribute_from_packet t pkt fv i port s;
       (case st of
          None \<Rightarrow> Some (pkt, s)
        | Some j \<Rightarrow> do {
            s \<leftarrow> mrp_mad_begin j s;
            s \<leftarrow> mrp_in three four j port s;
            Some (pkt, s) })
     } else Some (pkt, s)
   }"

text \<open>The loop over the values of a vector; a byte outside the three-packed range ends it.\<close>

fun receive_values ::
    "mrp_attribute_type option \<Rightarrow> nat \<Rightarrow> nat \<Rightarrow> nat \<Rightarrow> nat \<Rightarrow> bool \<Rightarrow> nat list \<Rightarrow> bytes \<times> ms
     \<Rightarrow> (bytes \<times> ms) option" where
  "receive_values attr_type fv fvl threepacked_len port leave_all [] ps = Some ps"
| "receive_values attr_type fv fvl threepacked_len port leave_all (i # is) ps = do {
     v \<leftarrow> rd (fst ps) (fv + fvl + i div 3);
     if unat v > 0xD7 then Some ps
     else do {
       let three = decode_threepacked (unat v) (i mod 3);
       four \<leftarrow> (if has_fourpacked_events attr_type then do {
                  w \<leftarrow> rd (fst ps) (fv + fvl + threepacked_len + i div 4);
                  Some (decode_fourpacked (unat w) (i mod 4)) }
               else Some 0);
       ps \<leftarrow> receive_value attr_type fv i three four port leave_all ps;
       receive_values attr_type fv fvl threepacked_len port leave_all is ps
     }
   }"

text \<open>
  \<open>receive_vector\<close> handles the vector at \<open>msg\<close> of the message with header \<open>hdr\<close>. Its first result is
  \<open>None\<close> when the code returns because the vector is too long, otherwise the number of bytes
  after the vector header. \<open>vector_loop\<close> repeats it up to the end mark of the message or the end
  \<open>e\<close> of the packet, and \<open>message_loop\<close> is the loop over messages.
\<close>

definition receive_vector ::
    "nat \<Rightarrow> mrp_attribute_type option \<Rightarrow> nat \<Rightarrow> nat \<Rightarrow> nat \<Rightarrow> nat \<Rightarrow> nat \<Rightarrow> u8 \<Rightarrow> u8 \<Rightarrow> bytes \<times> ms
     \<Rightarrow> (nat option \<times> bytes \<times> ms) option" where
  "receive_vector etype attr_type fvl hdr port e msg m0 m1 ps = do {
     let numvalues = unat (m0 AND 0x1f) * 256 + unat m1;
     let leave_all = (drop_bit 5 (m0 AND 0xe0) = 1);
     let threepacked_len = (numvalues + 2) div 3;
     let fourpacked_len = (if has_fourpacked_events attr_type then (numvalues + 3) div 4 else 0);
     let len = fvl + threepacked_len + fourpacked_len;
     too_long \<leftarrow> (if etype = AVB_SRP_ETHERTYPE then do {
                     al \<leftarrow> attribute_list_length (fst ps) hdr; Some (VEC_HDR + len + FOOTER > al) }
                  else Some False);
     if too_long \<or> msg + VEC_HDR + len > e then Some (None, ps)
     else do {
       s \<leftarrow> (if leave_all then attribute_type_event attr_type MRP_EVENT_RECEIVE_LEAVE_ALL port (snd ps)
            else Some (snd ps));
       ps \<leftarrow> receive_values attr_type (msg + VEC_HDR) fvl threepacked_len port leave_all
              [0..<numvalues] (fst ps, s);
       Some (Some len, ps)
     }
   }"

function vector_loop ::
    "nat \<Rightarrow> mrp_attribute_type option \<Rightarrow> nat \<Rightarrow> nat \<Rightarrow> nat \<Rightarrow> nat \<Rightarrow> nat \<Rightarrow> bytes \<times> ms
     \<Rightarrow> (nat option \<times> bytes \<times> ms) option" where
  "vector_loop etype attr_type fvl hdr port e msg ps =
     (if msg < e then do {
        m0 \<leftarrow> rd (fst ps) msg;
        m1 \<leftarrow> rd (fst ps) (msg + 1);
        if m0 \<noteq> 0 \<or> m1 \<noteq> 0 then do {
          (r, ps) \<leftarrow> receive_vector etype attr_type fvl hdr port e msg m0 m1 ps;
          case r of
            None \<Rightarrow> Some (None, ps)
          | Some len \<Rightarrow> vector_loop etype attr_type fvl hdr port e (msg + VEC_HDR + len) ps
        } else Some (Some msg, ps)
      } else Some (Some msg, ps))"
  by pat_completeness auto
termination
  by (relation "measure (\<lambda>(_, _, _, _, _, e, msg, _). e - msg)") (auto simp: VEC_HDR_def)

declare vector_loop.simps [simp del]

lemma vector_loop_unroll:
  assumes "vector_loop etype attr_type fvl hdr port e msg ps = Some (Some m', ps')"
  shows "m' = msg \<or> msg < e \<and> (\<exists>len ps1.
    vector_loop etype attr_type fvl hdr port e (msg + VEC_HDR + len) ps1 = Some (Some m', ps'))"
  using assms
  by (subst (asm) vector_loop.simps)
    (auto simp: bind_eq_Some_conv split: if_splits option.splits)

lemma vector_loop_advances:
  assumes "vector_loop etype attr_type fvl hdr port e msg ps = Some (Some m', ps')"
  shows "msg \<le> m'"
  using assms
proof (induction "e - msg" arbitrary: msg ps rule: less_induct)
  case less
  from vector_loop_unroll [OF less.prems] show ?case
  proof
    assume "msg < e \<and> (\<exists>len ps1.
      vector_loop etype attr_type fvl hdr port e (msg + VEC_HDR + len) ps1 = Some (Some m', ps'))"
    then obtain len ps1 where "msg < e"
      and l: "vector_loop etype attr_type fvl hdr port e (msg + VEC_HDR + len) ps1 = Some (Some m', ps')"
      by blast
    then have "e - (msg + VEC_HDR + len) < e - msg" by (simp add: VEC_HDR_def)
    from less.hyps [OF this l] show ?case by simp
  qed simp
qed

function message_loop :: "nat \<Rightarrow> u8 \<Rightarrow> nat \<Rightarrow> nat \<Rightarrow> nat \<Rightarrow> bytes \<times> ms \<Rightarrow> (bytes \<times> ms) option" where
  "message_loop etype protocol_version port e msg ps =
     (if msg < e then do {
        m0 \<leftarrow> rd (fst ps) msg;
        m1 \<leftarrow> rd (fst ps) (msg + 1);
        if m0 \<noteq> 0 \<or> m1 \<noteq> 0 then do {
          let first_value_len = unat m1;
          let attr_type = decode_attr_type etype m0;
          if protocol_version = 0 \<and>
             (attr_type = None \<or> first_value_lengths (the attr_type) \<noteq> first_value_len)
          then Some ps
          else do {
            (r, ps) \<leftarrow> vector_loop etype attr_type first_value_len msg port e
                        (msg + (if etype \<noteq> AVB_SRP_ETHERTYPE then MSG_HDR - 2 else MSG_HDR)) ps;
            case r of
              None \<Rightarrow> Some ps
            | Some msg' \<Rightarrow> message_loop etype protocol_version port e (msg' + 2) ps
          }
        } else Some ps
      } else Some ps)"
  by pat_completeness auto
termination
  by (relation "measure (\<lambda>(_, _, _, e, msg, _). e - msg)")
    (auto dest!: vector_loop_advances simp: MSG_HDR_def split: if_splits)

declare message_loop.simps [simp del]

definition avb_mrp_process_packet :: "bytes \<Rightarrow> nat \<Rightarrow> int \<Rightarrow> nat \<Rightarrow> ms \<Rightarrow> ms option" where
  "avb_mrp_process_packet buf etype len port s = do {
     protocol_version \<leftarrow> rd buf 0;
     (pkt, s) \<leftarrow> message_loop etype protocol_version port (nat len) MRP_HDR (buf, s);
     Some s
   }"

datatype eth_packet_type = ETH_IF_STATUS | ETH_DATA

text \<open>
  The status byte that means link up belongs to the Ethernet library and is the parameter
  \<open>link_up\<close>.
\<close>

definition avb_process_srp_control_packet :: "u8 \<Rightarrow> bytes \<Rightarrow> nat \<Rightarrow> eth_packet_type \<Rightarrow> nat \<Rightarrow> ms \<Rightarrow> ms option" where
  "avb_process_srp_control_packet link_up buf0 nbytes packet_type port s =
     (case packet_type of
        ETH_IF_STATUS \<Rightarrow> do {
          b \<leftarrow> rd buf0 0;
          if b = link_up then srp_domain_join s else Some s
        }
      | ETH_DATA \<Rightarrow> do {
          t1 \<leftarrow> rd buf0 13;
          let has_qtag = (t1 = 0x18);
          let eth_hdr_size = (if has_qtag then 18 else 14);
          e0 \<leftarrow> rd buf0 (eth_hdr_size - 2);
          e1 \<leftarrow> rd buf0 (eth_hdr_size - 1);
          let etype = unat e0 * 256 + unat e1;
          let len = int nbytes - int eth_hdr_size;
          dest \<leftarrow> read_block buf0 0 6;
          if etype \<noteq> AVB_SRP_ETHERTYPE \<and> etype \<noteq> AVB_MVRP_ETHERTYPE then Some s
          else if etype = AVB_SRP_ETHERTYPE \<and> dest \<noteq> srp_dest_mac then Some s
          else if etype = AVB_MVRP_ETHERTYPE \<and> dest \<noteq> mvrp_dest_mac then Some s
          else avb_mrp_process_packet (drop eth_hdr_size buf0) etype len port s
        })"

section \<open>Model: the task\<close>

definition srp_task_init :: "bytes \<Rightarrow> ms \<Rightarrow> ms option" where
  "srp_task_init mac s = do {
     s \<leftarrow> mrp_init mac s;
     s \<leftarrow> srp_domain_init s;
     avb_mvrp_init s
   }"

inductive srp_step :: "ms \<Rightarrow> ms \<Rightarrow> bool" where
  packet: "avb_process_srp_control_packet link_up buf0 n t port s = Some s' \<Longrightarrow> port < num_ports s \<Longrightarrow> srp_step s s'"
| periodic: "mrp_periodic s = Some s' \<Longrightarrow> srp_step s s'"
| register_stream: "avb_srp_create_and_join_talker_advertise_attrs resv s = Some (v, s') \<Longrightarrow>
    length (dest_mac_addr resv) = 6 \<Longrightarrow> srp_step s s'"
| deregister_stream: "avb_srp_leave_talker_attrs sid s = Some s' \<Longrightarrow> srp_step s s'"
| register_attach: "avb_srp_join_listener_attrs sid vlan s = Some (v, s') \<Longrightarrow> srp_step s s'"
| deregister_attach: "avb_srp_leave_listener_attrs sid s = Some s' \<Longrightarrow> srp_step s s'"

inductive_cases srp_stepE: "srp_step s s'"

end
