(* ===== verification/Task_Inv.thy ===== *)
theory Task_Inv
  imports Mrp_Task
begin

text \<open>
  The invariant of the reservation task. Every operation of the task of
  \<^verbatim>\<open>src/srp/avb_srp.xc\<close> keeps \<open>mrp_ok\<close>, \<open>srp_task_init\<close> establishes it from zeroed memory, and
  the reachable states of the event loop all satisfy it.
\<close>

section \<open>Periodic processing keeps the invariant\<close>

lemma send_indication_posts:
  assumes "mrp_ok s"
  shows "post (send_join_indication st new four s) (sound s)" "post (send_leave_indication st four s) (sound s)"
  unfolding send_join_indication_def send_leave_indication_def avb_mvrp_vid_vector_join_ind_def avb_mvrp_vid_vector_leave_ind_def
  by (auto simp: post_simps talker_join_ind_post listener_join_ind_post domain_join_ind_post talker_leave_ind_post
      listener_leave_ind_post domain_leave_ind_post stays_start(2) assms split: mrp_attribute_type.split)

lemma expired_eq: "avb_timer_expired t s = (fst (avb_timer_expired t s), fst (snd (avb_timer_expired t s)), s\<lparr>clk_reads := Suc (clk_reads s)\<rparr>)"
  by (simp add: avb_timer_expired_def get_local_time_def Let_def)

lemma list_timer_stays:
  assumes "mrp_ok s"
  shows "post (poll_list_timer periodic_timer put_periodic i s) (\<lambda>x. stays s (snd x))"
    "post (poll_list_timer joinTimer put_join i s) (\<lambda>x. stays s (snd x))"
    "post (poll_list_timer msrp_leaveall_timer put_msrp_la i s) (\<lambda>x. stays s (snd x))"
    "post (poll_list_timer mvrp_leaveall_timer put_mvrp_la i s) (\<lambda>x. stays s (snd x))"
    "post (start_list_timer periodic_timer put_periodic i p s) (stays s)"
    "post (start_list_timer joinTimer put_join i p s) (stays s)"
    "post (start_list_timer msrp_leaveall_timer put_msrp_la i p s) (stays s)"
    "post (start_list_timer mvrp_leaveall_timer put_mvrp_la i p s) (stays s)"
  unfolding poll_list_timer_def start_list_timer_def
  by (subst expired_eq start_timer_eq; auto simp: post_simps Let_def assms wf_view_def intro!: stays_view)+

lemmas list_timer_calls [sound_calls] = list_timer_stays(1-4) [THEN sound_call_pair] list_timer_stays(5-8) [THEN sound_call]

lemma event_stays:
  assumes "mrp_ok s" and "port < num_ports s"
  shows "post (global_event MRP_EVENT_PERIODIC port s) (stays s)"
    "e \<noteq> MRP_EVENT_BEGIN \<Longrightarrow> e \<noteq> MRP_EVENT_NEW \<Longrightarrow> post (attribute_type_event t e port s) (stays s)"
    "e \<noteq> MRP_EVENT_BEGIN \<Longrightarrow> e \<noteq> MRP_EVENT_NEW \<Longrightarrow> post (msrp_types_event e port s) (stays s)"
  using assms stays_refl [OF assms(1)]
  by (auto intro!: tot_post [OF global_event_tot] attribute_type_event_post msrp_types_event_post)

lemma event_calls:
  assumes "sound r s" and "port < num_ports r" and "\<And>u. sound r u \<Longrightarrow> Q u"
  shows "post (global_event MRP_EVENT_PERIODIC port s) Q"
    "e \<noteq> MRP_EVENT_BEGIN \<Longrightarrow> e \<noteq> MRP_EVENT_NEW \<Longrightarrow> post (attribute_type_event t e port s) Q"
    "e \<noteq> MRP_EVENT_BEGIN \<Longrightarrow> e \<noteq> MRP_EVENT_NEW \<Longrightarrow> post (msrp_types_event e port s) Q"
  using assms(2) sound_frame [OF assms(1)]
  by (auto intro!: sound_post [OF event_stays(1) assms(1)] sound_post [OF event_stays(2) assms(1)]
      sound_post [OF event_stays(3) assms(1)] assms(3))

lemma sound_active:
  assumes "sound r s"
  shows "sound r (s\<lparr>mvrp_leaveall_active := (mvrp_leaveall_active s)[p := b]\<rparr>)"
    "sound r (s\<lparr>msrp_leaveall_active := (msrp_leaveall_active s)[p := b]\<rparr>)"
  by (rule sound_stays [OF assms], rule stays_active, rule sound_self [OF assms])+

lemma periodic_timers_post:
  assumes "sound r s" and "i < num_ports r"
  shows "post (periodic_timers i s) (sound r)"
  unfolding periodic_timers_def
  by (auto simp: post_simps assms
    intro!: sound_calls [where r = r] event_calls [where r = r] sound_active)

lemma sort_attrs_sound: "mrp_ok s \<Longrightarrow> post (sort_attrs s) (sound s)"
proof -
  assume ok: "mrp_ok s"
  then obtain xs where "attr_list s xs" by (auto simp: mrp_ok_def)
  with ok obtain t where t: "sort_attrs s = Some t" "relinked s t" "mrp_ok t" by (rule sort_attrs_refines)
  have "steady s t" using t(2) by (auto simp: relinked_def steady_def dest: map_eq_imp_length_eq)
  with t show ?thesis by (simp add: post_simps sound_def)
qed

lemma buf_sound:
  "post m (buf_step s) \<Longrightarrow> sound r s \<Longrightarrow> (\<And>u. sound r u \<Longrightarrow> Q u) \<Longrightarrow> post m Q"
  unfolding post_def by (blast intro: sound_stays stays_buf_step sound_frame(6))

lemma buf_more:
  "post (configure_send_buffer a e s) (buf_step s)" "post (force_send i s) (buf_step s)"
  by (auto intro!: postI dest: buf_steps)

lemma transmit_opportunity_post:
  assumes "sound r s" and "i < num_ports r"
  shows "post (transmit_opportunity i s) (sound r)"
  unfolding transmit_opportunity_def leave_all_msg_def Let_def
  by (auto simp: post_simps assms
    intro!: sound_calls [where r = r] event_calls [where r = r] sound_active sort_attrs_sound [THEN only_sound_call, where r = r]
      buf_posts [THEN buf_sound, where r = r] buf_more [THEN buf_sound, where r = r])

lemma put_core_call:
  "sound r s \<Longrightarrow> (\<And>a. core (f a) = core a) \<Longrightarrow> (\<And>u. sound r u \<Longrightarrow> stays s u \<Longrightarrow> Q u) \<Longrightarrow> post (put_attr j f s) Q"
  by (rule sound_post [OF put_core_stays]) (auto intro: sound_frame(6))

lemma pending_step_post: "mrp_ok s \<Longrightarrow> post (pending_step j s) (sound s)"
  unfolding pending_step_def
  by (auto simp: post_simps stays_start(2) core_def ident_def
    intro!: send_indication_posts [THEN only_sound_call, where r = s] put_core_call [where r = s])

lemma here_bound: "mrp_ok s \<Longrightarrow> j < length (attrs s) \<Longrightarrow> here (attrs s ! j) \<Longrightarrow> bound (attrs s ! j)"
  using wf_attr_ok [of s j] by (simp add: attr_ok_def)

text \<open>A change of type between the two talker kinds leaves the other fields alone.\<close>

lemma retype_post:
  assumes "sound r s" and "is_talker t" and "j < length (attrs s)" and "is_talker (attribute_type (attrs s ! j))"
    and "\<And>u. sound r u \<Longrightarrow> bound (attrs u ! j) = bound (attrs s ! j) \<Longrightarrow> j < length (attrs u) \<Longrightarrow>
          stream_table u = stream_table s \<Longrightarrow> send_buf u = send_buf s \<Longrightarrow> Q u"
  shows "post (put_attr j (\<lambda>a. a\<lparr>attribute_type := t\<rparr>) s) Q"
proof -
  let ?u = "s\<lparr>attrs := (attrs s)[j := (attrs s ! j)\<lparr>attribute_type := t\<rparr>]\<rparr>"
  have "post (put_attr j (\<lambda>a. a\<lparr>attribute_type := t\<rparr>) s) (sound r)"
    by (rule put_type_post [OF assms(1,2)]) (use assms(4) in auto)
  then have "sound r ?u" using assms(3) by (simp add: put_attr_def post_simps)
  moreover have "bound (attrs ?u ! j) = bound (attrs s ! j)"
    using assms(2-4) by (auto simp: bound_def is_talker_def)
  ultimately show ?thesis using assms(3,5) by (simp add: put_attr_def post_simps)
qed

lemma stays_bound: "stays s u \<Longrightarrow> j < length (attrs s) \<Longrightarrow> bound (attrs s ! j) \<Longrightarrow> bound (attrs u ! j) \<and> j < length (attrs u)"
  by (simp add: stays_ident stays_frame)

lemma boundary_step_post:
  assumes "mrp_ok s"
  shows "post (boundary_step i j s) (sound s)"
  unfolding boundary_step_def Let_def
  using here_bound [OF assms, of j] stays_start(2) [OF assms]
  by (auto simp: post_simps entry_ok_def is_talker_def
    intro!: retype_post [where r = s] stream_of_post read_block_post sound_calls [where r = s] mad_sound_posts(2) [where r = s]
    dest: stays_bound)

lemma update_state_call:
  assumes "sound r s" and "st < length (attrs r)" and "port < num_ports r"
    and "e \<noteq> MRP_EVENT_BEGIN" and "e \<noteq> MRP_EVENT_NEW" and "\<And>u. sound r u \<Longrightarrow> stays s u \<Longrightarrow> Q u"
  shows "post (mrp_update_state e st four port s) Q"
  by (rule update_state_post [OF sound_self [OF assms(1)]])
    (use assms in \<open>auto simp: sound_frame intro: sound_stays\<close>)

lemma leave_timer_step_post:
  assumes "mrp_ok s" and "i < num_ports s"
  shows "post (leave_timer_step i j s) (sound s)"
proof -
  have c: "sound s (s\<lparr>clk_reads := Suc (clk_reads s)\<rparr>)"
    by (rule stays_sound, rule stays_view) (simp_all add: assms(1) wf_view_def)
  show ?thesis
    unfolding leave_timer_step_def
    by (subst expired_eq) (auto simp: post_simps Let_def core_def ident_def assms(2)
      intro!: put_core_call [OF c] update_state_call [where r = s])
qed

lemma periodic_attr_post:
  assumes "sound r s" and "i < num_ports r"
  shows "post (periodic_attr i j s) (sound r)"
  unfolding periodic_attr_def
  using assms by (auto simp: post_simps sound_frame
    intro!: pending_step_post [THEN only_sound_call, where r = r] boundary_step_post [THEN only_sound_call, where r = r]
      leave_timer_step_post [THEN only_sound_call, where r = r])

lemma mrp_periodic_post:
  assumes "mrp_ok s"
  shows "post (mrp_periodic s) (sound s)"
  unfolding mrp_periodic_def
  by (rule post_for_each)
    (auto simp: post_simps stays_start(2) [OF assms]
      intro!: periodic_timers_post [where r = s, THEN post_call] sound_calls [where r = s]
        transmit_opportunity_post [where r = s, THEN post_call] post_for_each [where P = "sound s"] periodic_attr_post)

section \<open>Reception keeps the invariant\<close>

lemma mrp_in_post:
  assumes "sound r s" and "st < length (attrs r)" and "port < num_ports r" and "\<And>u. sound r u \<Longrightarrow> Q u"
  shows "post (mrp_in three four st port s) Q"
  unfolding mrp_in_def
  using assms by (auto simp: post_simps intro!: update_state_call [where r = r])

lemma match_same_type_post:
  assumes "sound r s"
  shows "post (match_attribute_of_same_type t attr pkt fv i four port la s) (\<lambda>(b, p, u). sound r u)"
proof -
  have ok: "mrp_ok s" by (rule sound_frame) fact
  have tk: "is_talker ty" if "attribute_type (attrs s ! attr) = ty" "ty \<le> MSRP_TALKER_FAILED" for ty
    using that by (cases ty) (simp_all add: is_talker_def less_eq_mrp_attribute_type_def)
  have m: "post (avb_srp_match_talker_advertise attr pkt fv i la failed s) (\<lambda>(b, p, u). sound r u)"
    if "is_talker (attribute_type (attrs s ! attr))" for failed
    by (rule post_call [OF match_talker_advertise_post [OF ok that]]) (auto intro: sound_trans [OF assms])
  have d: "post (avb_srp_match_domain attr pkt fv i s) (\<lambda>x. \<forall>b u. x = (b, u) \<longrightarrow> sound r u)"
    by (rule post_call [OF match_domain_post [OF ok]]) (auto intro: sound_stays [OF assms])
  show ?thesis
    unfolding match_attribute_of_same_type_def
    using assms
    by (auto simp: post_simps less_eq_mrp_attribute_type_def split: mrp_attribute_type.split
      intro!: m d tk post_any [where m = "avb_srp_match_listener a p f i q s" for a p f i q s]
        post_any [where m = "avb_mvrp_match_vid_vector a p f i s" for a p f i s])
qed

lemma process_new_call:
  assumes "sound r s" and "port < num_ports r" and "\<And>st u. sound r u \<Longrightarrow> found u st \<Longrightarrow> Q (st, u)"
  shows "post (avb_srp_process_new_attribute_from_packet t pkt fv num port s) Q"
  by (rule post_call [OF process_new_attribute_post])
    (use assms in \<open>auto simp: sound_frame intro: sound_trans\<close>)

lemma receive_value_post:
  assumes "sound r (snd ps)" and "port < num_ports r"
  shows "post (receive_value t fv i three four port la ps) (\<lambda>x. sound r (snd x))"
proof -
  have step: "post (do {
         (m, pkt, s) \<leftarrow> match_attribute_of_same_type t j pkt fv i four port la s;
         if m then do { s \<leftarrow> mrp_in three four j port s; Some (True, pkt, s) }
         else Some (matched, pkt, s) }) (\<lambda>(m, p, u). sound r u)"
    if "j < length (attrs r)" "sound r s" for j matched pkt s
    using that(1) assms(2)
    by (auto simp: post_simps intro!: match_same_type_post [OF that(2), THEN post_call] mrp_in_post [where r = r])
  have loop: "post (for_each [0..<length (attrs (snd ps))] (\<lambda>j (matched, pkt, s). do {
         (m, pkt, s) \<leftarrow> match_attribute_of_same_type t j pkt fv i four port la s;
         if m then do { s \<leftarrow> mrp_in three four j port s; Some (True, pkt, s) }
         else Some (matched, pkt, s) }) (False, fst ps, snd ps)) (\<lambda>(m, p, u). sound r u)"
    by (rule post_for_each) (use assms(1) step in \<open>auto simp: sound_frame\<close>)
  have new: "post (do {
       t \<leftarrow> t;
       (st, s) \<leftarrow> avb_srp_process_new_attribute_from_packet t pkt fv i port s;
       (case st of None \<Rightarrow> Some (pkt, s)
        | Some j \<Rightarrow> do { s \<leftarrow> mrp_mad_begin j s; s \<leftarrow> mrp_in three four j port s; Some (pkt, s) }) })
     (\<lambda>x. sound r (snd x))" if "sound r s" for pkt s
    using that assms(2)
    by (auto simp: post_simps sound_frame intro!: post_any [where m = t] process_new_call [where r = r]
        found_calls [where r = r] mrp_in_post [where r = r] dest: foundD [OF sound_frame(6), rotated])
  show ?thesis unfolding receive_value_def post_construct(3)
    by (rule post_call [OF loop]) (auto simp: post_construct(1,4,6) intro!: new)
qed

lemma receive_values_post:
  assumes "sound r (snd ps)" and "port < num_ports r"
  shows "post (receive_values t fv fvl tpl port la is ps) (\<lambda>x. sound r (snd x))"
  using assms(1)
proof (induction "is" arbitrary: ps)
  case (Cons i "is")
  have "post (receive_value t fv i three four port la ps)
      (\<lambda>ps. post (receive_values t fv fvl tpl port la is ps) (\<lambda>x. sound r (snd x)))" for three four
    by (rule post_call [OF receive_value_post [OF Cons.prems assms(2)]]) (rule Cons.IH)
  then show ?case using Cons.prems by (simp add: post_simps Let_def)
qed (simp add: post_simps)

lemma receive_vector_post:
  assumes "sound r (snd ps)" and "port < num_ports r"
  shows "post (receive_vector etype t fvl hdr port e msg m0 m1 ps) (\<lambda>x. sound r (snd (snd x)))"
  unfolding receive_vector_def Let_def
  using assms
  by (auto simp: post_simps intro!: event_calls [where r = r] receive_values_post [where r = r, THEN post_call]
      post_any [where m = "attribute_list_length b h" for b h])

lemma vector_loop_post:
  assumes "sound r (snd ps)" and "port < num_ports r"
  shows "post (vector_loop etype t fvl hdr port e msg ps) (\<lambda>x. sound r (snd (snd x)))"
  using assms(1)
proof (induction "e - msg" arbitrary: msg ps rule: less_induct)
  case less
  have rec: "post (vector_loop etype t fvl hdr port e (msg + VEC_HDR + len) qs) (\<lambda>x. sound r (snd (snd x)))"
    if "msg < e" "sound r (snd qs)" for len qs
    by (rule less.hyps) (use that in \<open>simp_all add: VEC_HDR_def\<close>)
  show ?case
    by (subst vector_loop.simps)
      (auto simp: post_simps less.prems intro!: receive_vector_post [OF less.prems assms(2), THEN post_call] rec)
qed

lemma message_loop_post:
  assumes "sound r (snd ps)" and "port < num_ports r"
  shows "post (message_loop etype v port e msg ps) (\<lambda>x. sound r (snd x))"
  using assms(1)
proof (induction "e - msg" arbitrary: msg ps rule: less_induct)
  case less
  have rec: "post (vector_loop etype t fvl hdr port e m qs) (\<lambda>y. \<forall>a b. y = (a, b) \<longrightarrow>
      (a = None \<longrightarrow> sound r (snd b)) \<and>
      (\<forall>z. a = Some z \<longrightarrow> post (message_loop etype v port e (Suc (Suc z)) b) (\<lambda>x. sound r (snd x))))"
    if "msg < e" "sound r (snd qs)" "msg < m" for t fvl hdr m qs
  proof (rule postI, intro allI impI conjI)
    fix y a b assume y: "vector_loop etype t fvl hdr port e m qs = Some y" "y = (a, b)"
    from postD [OF vector_loop_post [OF that(2) assms(2)] y(1)] y(2) show s: "sound r (snd b)" by simp
    fix z assume "a = Some z"
    with y have "m \<le> z" by (auto dest: vector_loop_advances)
    with that(1,3) show "post (message_loop etype v port e (Suc (Suc z)) b) (\<lambda>x. sound r (snd x))"
      by (intro less.hyps s) simp
  qed
  define off where "off = (if etype \<noteq> AVB_SRP_ETHERTYPE then MSG_HDR - 2 else MSG_HDR)"
  have "0 < off" by (simp add: off_def MSG_HDR_def)
  then show ?case
    by (subst message_loop.simps, fold off_def)
      (auto simp: post_simps Let_def less.prems intro!: rec [THEN post_call])
qed

lemma process_packet_post:
  assumes "mrp_ok s" and "port < num_ports s"
  shows "post (avb_mrp_process_packet buf etype len port s) (sound s)"
  unfolding avb_mrp_process_packet_def
  by (auto simp: post_simps stays_start(2) assms intro!: message_loop_post [where r = s, THEN post_call])

lemma srp_domain_join_post:
  assumes "mrp_ok s"
  shows "post (srp_domain_join s) (sound s)"
proof -
  have d: "j < length (attrs u) \<and> bound (attrs u ! j)" if "sound s u" "i < length (domain_attr u)" "domain_attr u ! i = Some j" for u i j
  proof -
    have "owned j u" using that(2,3) by (auto simp: owned_def in_set_conv_nth)
    then show ?thesis using sound_frame(6) [OF that(1)] by (auto simp: mrp_ok_def pinned_def)
  qed
  show ?thesis
    unfolding srp_domain_join_def
    by (rule post_for_each)
      (auto simp: post_simps stays_start(2) [OF assms] post_def [of "domain_attr s ! i" for s i] dest: d stays_bound
        intro!: mad_sound_posts [where r = s])
qed

lemma control_packet_post:
  assumes "mrp_ok s" and "port < num_ports s"
  shows "post (avb_process_srp_control_packet up buf n t port s) (sound s)"
  unfolding avb_process_srp_control_packet_def
  by (auto simp: post_simps Let_def stays_start(2) assms srp_domain_join_post process_packet_post
    intro!: read_block_post split: eth_packet_type.split)

lemma srp_step_sound:
  assumes "srp_step s s'" and ok: "mrp_ok s"
  shows "sound s s'"
  using assms(1)
proof (cases rule: srp_step.cases)
  case packet
  then show ?thesis using postD [OF control_packet_post [OF ok]] by blast
next
  case periodic
  then show ?thesis using postD [OF mrp_periodic_post [OF ok]] by blast
next
  case register_stream
  then show ?thesis using postD [OF create_and_join_talker_post [OF ok]] by force
next
  case deregister_stream
  then show ?thesis using postD [OF leave_talker_attrs_post [OF ok]] by blast
next
  case (register_attach sid vlan v)
  from postD [OF join_listener_attrs_post [OF ok] this] show ?thesis by simp
next
  case deregister_attach
  then show ?thesis using postD [OF leave_listener_attrs_post [OF ok]] by blast
qed

section \<open>Initialisation establishes the invariant\<close>

text \<open>
  The memory before \<open>srp_task_init\<close>: static variables are zero, so no attribute has a pointer or
  belongs to a component, and the send pointer has its initial value.
\<close>

definition boot :: "ms \<Rightarrow> bool" where
  "boot s \<longleftrightarrow> sizes_ok s \<and> length (send_buf s) = MRP_SEND_BUFFER_SIZE \<and> send_ptr s = body_start
     \<and> attrs s \<noteq> [] \<and> (\<forall>a \<in> set (attrs s). port_num a = 0 \<and> attribute_info a = InfoNull \<and> \<not> here a)
     \<and> (\<forall>e \<in> set (stream_table s). e = zero_stream_entry (num_ports s))
     \<and> (\<forall>e \<in> set (mvrp_entries s). mv_attr e = None) \<and> (\<forall>d \<in> set (domain_attr s). d = None)"

lemma chain_upt:
  assumes "\<And>k. k < n - 1 \<Longrightarrow> nx k = Some (k + 1)" and "nx (n - 1) = None" and "i < n"
  shows "chain nx (Some i) [i..<n]"
  using assms(3)
proof (induction "n - i" arbitrary: i)
  case (Suc d)
  have u: "[i..<n] = i # [Suc i..<n]" using Suc.prems by (rule upt_conv_Cons)
  show ?case
  proof (cases "Suc i < n")
    case True
    with Suc have "chain nx (Some (Suc i)) [Suc i..<n]" by (intro Suc.hyps) simp_all
    with True assms(1) [of i] show ?thesis by (simp add: u)
  next
    case False
    with Suc.prems have "n = Suc i" by simp
    with assms(2) have "nx i = None" by simp
    with False show ?thesis by (simp add: u)
  qed
qed simp

lemma init_port_timers_stays: "mrp_ok s \<Longrightarrow> post (init_port_timers i s) (stays s)"
  by (auto simp: init_port_timers_def start_avb_timer_def get_local_time_def post_simps Let_def wf_view_def intro!: stays_view)

text \<open>What \<open>mrp_init\<close> does to the attributes: all unused, linked in the order of their indices.\<close>

definition unused_attrs :: "ms \<Rightarrow> ms" where
  "unused_attrs u = u\<lparr>attrs := map (\<lambda>i. (attrs u ! i)\<lparr>applicant_state := MRP_UNUSED,
     next_attr := (if i \<noteq> length (attrs u) - 1 then Some (i + 1) else None)\<rparr>) [0..<length (attrs u)],
     first_attr := Some 0\<rparr>"

lemma unused_attrs_ok:
  assumes "boot s" and "buf_step s u"
  shows "mrp_ok (unused_attrs u)"
proof -
  let ?v = "unused_attrs u" and ?n = "length (attrs u)"
  from assms(2) obtain b p c l where u: "u = s\<lparr>send_buf := b, send_ptr := p, current_etype := c, tx_log := l\<rparr>"
    and bo: "buf_ok s \<longrightarrow> buf_ok u" unfolding buf_step_def by blast
  have at: "attrs u = attrs s" "?n > 0" "length (attrs ?v) = ?n" using assms(1) by (auto simp: u boot_def unused_attrs_def)
  have "chain (nexts ?v) (Some 0) [0..<?n]"
    by (rule chain_upt) (use at in \<open>auto simp: nexts_def unused_attrs_def\<close>)
  then have "attr_list ?v [0..<?n]" by (simp add: attr_list_def unused_attrs_def)
  moreover have "buf_ok ?v" using bo assms(1)
    by (simp add: buf_ok_def boot_def unused_attrs_def body_start_def ETH_HDR_def MRP_HDR_def MRP_SEND_BUFFER_SIZE_def)
  moreover have "sizes_ok ?v" using assms(1) by (simp add: boot_def sizes_ok_def u unused_attrs_def)
  moreover have "\<not> owned j ?v" for j using assms(1) by (auto simp: boot_def owned_def u unused_attrs_def)
  moreover have "\<forall>e \<in> set (stream_table ?v). entry_ok ?v e"
    using assms(1) zero_entry_ok [of ?v] by (auto simp: boot_def u unused_attrs_def entry_ok_def)
  moreover have "attr_ok ?v a" if "a \<in> set (attrs ?v)" for a
  proof -
    from that obtain i where "i < ?n" "a = (attrs u ! i)\<lparr>applicant_state := MRP_UNUSED,
        next_attr := (if i \<noteq> ?n - 1 then Some (i + 1) else None)\<rparr>" by (auto simp: unused_attrs_def)
    moreover have "attrs u ! i \<in> set (attrs s)" if "i < ?n" for i using that at by simp
    ultimately show ?thesis using assms(1)
      by (auto simp: attr_ok_def info_ok_def in_use_def boot_def sizes_ok_def u unused_attrs_def)
  qed
  ultimately show ?thesis by (auto simp: mrp_ok_def)
qed

lemma mrp_init_post:
  assumes "boot s"
  shows "post (mrp_init mac s) mrp_ok"
proof -
  have "post (put_bytes 6 b s) (\<lambda>u. post (for_each [0..<num_ports u] init_port_timers (unused_attrs u)) mrp_ok)" for b
    by (rule post_call [OF buf_posts(1)], rule post_for_each)
      (use unused_attrs_ok [OF assms] init_port_timers_stays in \<open>auto intro: post_call stays_wf\<close>)
  then show ?thesis unfolding mrp_init_def Let_def unused_attrs_def
    by (auto simp: post_simps intro!: read_block_post)
qed

text \<open>Giving an unused attribute to a component.\<close>

lemma mrp_ok_own:
  assumes ok: "mrp_ok s" and j: "j < length (attrs s)" "applicant_state (attrs s ! j) = MRP_UNUSED"
    and a: "attr_upd s j a" "pinned a"
    and u: "u = s\<lparr>attrs := (attrs s)[j := a], domain_attr := d, mvrp_entries := es\<rparr>"
    and lens: "length d = length (domain_attr s)" "length es = length (mvrp_entries s)"
    and own: "\<And>k. owned k u \<Longrightarrow> owned k s \<or> k = j"
  shows "mrp_ok u"
proof -
  let ?t = "s\<lparr>attrs := (attrs s)[j := a]\<rparr>"
  have t: "mrp_ok ?t" using ok j(1) a(1) by (rule wf_update_attr)
  have "attr_list u = attr_list ?t" by (simp add: attr_list_def nexts_def [abs_def] fun_eq_iff u)
  moreover have "attr_ok u = attr_ok ?t" using lens
    by (simp add: attr_ok_def info_ok_def fun_eq_iff u split: attribute_info.split)
  moreover have "entry_ok u = entry_ok ?t" "sizes_ok u = sizes_ok ?t" "buf_ok u = buf_ok ?t" "attrs u = attrs ?t"
    "stream_table u = stream_table ?t"
    using lens by (simp_all add: entry_ok_def fun_eq_iff sizes_ok_def buf_ok_def u)
  moreover have "k < length (attrs ?t) \<and> pinned (attrs ?t ! k)" if "owned k u" for k
    using own [OF that] t j(1) a(2) by (auto simp: mrp_ok_def owned_def nth_list_update)
  ultimately show ?thesis using t by (simp add: mrp_ok_def)
qed

lemma get_attr_eq:
  assumes "mrp_get_attr s = (Some j, u)"
  shows "u = s\<lparr>attrs := (attrs s)[j := (attrs s ! j)\<lparr>applicant_state := MRP_DISABLED\<rparr>]\<rparr>"
    "j < length (attrs s)" "applicant_state (attrs s ! j) = MRP_UNUSED"
  using assms by (auto simp: mrp_get_attr_def split: option.splits dest: find_index_Some)

definition own_attr :: "mrp_attribute_type \<Rightarrow> nat \<Rightarrow> attribute_info \<Rightarrow> mrp_attribute_state \<Rightarrow> mrp_attribute_state" where
  "own_attr t port i a = a\<lparr>applicant_state := MRP_DISABLED, attribute_type := t, attribute_info := i, port_num := port,
     propagated := False, here := True\<rparr>"

lemma own_attr_upd:
  assumes "mrp_ok s" and "j < length (attrs s)" and "applicant_state (attrs s ! j) = MRP_UNUSED"
    and "port < num_ports s" and "fits s t i" and "t = MVRP_VID_VECTOR \<or> t = MSRP_DOMAIN_VECTOR"
  shows "attr_upd s j (own_attr t port i (attrs s ! j))" "pinned (own_attr t port i (attrs s ! j))"
proof -
  have "fits s (attribute_type (own_attr t port i (attrs s ! j))) (attribute_info (own_attr t port i (attrs s ! j)))"
    using assms(5) by (simp add: own_attr_def)
  then have "info_ok s (own_attr t port i (attrs s ! j))" "bound (own_attr t port i (attrs s ! j))"
    by (simp_all only: fits_ok)
  then show "attr_upd s j (own_attr t port i (attrs s ! j))" "pinned (own_attr t port i (attrs s ! j))"
    using assms(4,6) by (auto simp: attr_upd_def attr_ok_def pinned_def own_attr_def)
qed

lemma domain_init_step:
  assumes "mrp_ok s" and "i < num_ports s"
  shows "post (do {
            let (st, s) = mrp_get_attr s;
            da \<leftarrow> wr (domain_attr s) i st;
            s \<leftarrow> mrp_attribute_init st MSRP_DOMAIN_VECTOR i True InfoNull (s\<lparr>domain_attr := da\<rparr>);
            b \<leftarrow> wr (srp_domain_boundary_port s) i True;
            Some (s\<lparr>srp_domain_boundary_port := b\<rparr>) }) (\<lambda>u. mrp_ok u \<and> num_ports u = num_ports s)"
proof (cases "fst (mrp_get_attr s)")
  case None
  then show ?thesis by (cases "mrp_get_attr s") (simp add: post_simps mrp_attribute_init_def)
next
  case (Some j)
  then obtain u where g: "mrp_get_attr s = (Some j, u)" by (cases "mrp_get_attr s") auto
  note e = get_attr_eq [OF g]
  let ?v = "s\<lparr>domain_attr := (domain_attr s)[i := Some j],
    attrs := (attrs s)[j := own_attr MSRP_DOMAIN_VECTOR i InfoNull (attrs s ! j)]\<rparr>"
  have v: "?v = s\<lparr>attrs := (attrs s)[j := own_attr MSRP_DOMAIN_VECTOR i InfoNull (attrs s ! j)],
    domain_attr := (domain_attr s)[i := Some j], mvrp_entries := mvrp_entries s\<rparr>" by (cases s) simp
  have upd: "attr_upd s j (own_attr MSRP_DOMAIN_VECTOR i InfoNull (attrs s ! j))"
    "pinned (own_attr MSRP_DOMAIN_VECTOR i InfoNull (attrs s ! j))"
    by (rule own_attr_upd [OF assms(1) e(2,3) assms(2)]; simp add: fits_def)+
  have "mrp_ok ?v"
    by (rule mrp_ok_own [OF assms(1) e(2,3) upd v])
      (auto simp: owned_def dest!: set_update_subset_insert [THEN subsetD])
  then have "stays ?v (?v\<lparr>srp_domain_boundary_port := (srp_domain_boundary_port s)[i := True]\<rparr>)"
    by (intro stays_resize stays_refl) simp_all
  then have "mrp_ok (?v\<lparr>srp_domain_boundary_port := (srp_domain_boundary_port s)[i := True]\<rparr>)"
    by (rule stays_wf)
  then show ?thesis using e(2)
    by (simp add: g e(1) post_simps mrp_attribute_init_def put_attr_def own_attr_def)
qed

lemma srp_domain_init_post:
  assumes "mrp_ok s"
  shows "post (srp_domain_init s) (\<lambda>u. mrp_ok u \<and> num_ports u = num_ports s)"
proof -
  let ?P = "\<lambda>u. mrp_ok u \<and> num_ports u = num_ports s"
  let ?f = "\<lambda>i s. do {
            let (st, s) = mrp_get_attr s;
            da \<leftarrow> wr (domain_attr s) i st;
            s \<leftarrow> mrp_attribute_init st MSRP_DOMAIN_VECTOR i True InfoNull (s\<lparr>domain_attr := da\<rparr>);
            b \<leftarrow> wr (srp_domain_boundary_port s) i True;
            Some (s\<lparr>srp_domain_boundary_port := b\<rparr>) }"
  have "post (for_each [0..<num_ports s] ?f s) ?P"
  proof (rule post_for_each)
    fix i u assume "i \<in> set [0..<num_ports s]" "?P u"
    with domain_init_step [of u i] show "post (?f i u) ?P" by simp
  qed (simp add: assms)
  then have "post (for_each [0..<num_ports s] ?f s)
      (\<lambda>u. ?P (u\<lparr>current_vlan_id_from_domain := AVB_DEFAULT_VLAN\<rparr>))"
    by (rule post_call) (auto intro: stays_wf stays_mgr stays_refl)
  then show ?thesis unfolding srp_domain_init_def post_construct(1,3) .
qed

lemma owned_entry_update:
  "owned ka (s\<lparr>mvrp_entries := (mvrp_entries s)[idx := e\<lparr>mv_attr := Some k\<rparr>], attrs := as\<rparr>) \<Longrightarrow> owned ka s \<or> ka = k"
  by (auto simp: owned_def dest!: set_update_subset_insert [THEN subsetD])

lemma mvrp_init_entry_post:
  assumes "mrp_ok s" and "j < num_ports s"
  shows "post (mvrp_init_entry j idx s) (\<lambda>u. mrp_ok u \<and> num_ports u = num_ports s)"
proof (cases "idx < length (mvrp_entries s)")
  case True
  let ?es = "(mvrp_entries s)[idx := (mvrp_entries s ! idx)\<lparr>mv_active := False\<rparr>]"
  let ?s = "s\<lparr>mvrp_entries := ?es\<rparr>"
  have p: "put_entry idx (\<lambda>e. e\<lparr>mv_active := False\<rparr>) s = Some ?s" using True by (simp add: put_entry_def)
  have "post (put_entry idx (\<lambda>e. e\<lparr>mv_active := False\<rparr>) s) mrp_ok"
    by (rule put_entry_post [OF stays_refl [OF assms(1)]]) (auto intro: stays_wf)
  then have ok: "mrp_ok ?s" by (simp only: p post_construct)
  show ?thesis
  proof (cases "fst (mrp_get_attr ?s)")
    case None
    then show ?thesis
      by (cases "mrp_get_attr ?s") (simp add: mvrp_init_entry_def p post_simps mrp_attribute_init_def post_any)
  next
    case (Some k)
    then obtain u where g: "mrp_get_attr ?s = (Some k, u)" by (cases "mrp_get_attr ?s") auto
    note e = get_attr_eq [OF g]
    have upd: "attr_upd ?s k (own_attr MVRP_VID_VECTOR j (InfoVlan idx) (attrs ?s ! k))"
      "pinned (own_attr MVRP_VID_VECTOR j (InfoVlan idx) (attrs ?s ! k))"
      by (rule own_attr_upd [OF ok e(2,3)]; use assms(2) True in \<open>simp add: fits_def\<close>)+
    let ?v = "?s\<lparr>mvrp_entries := (mvrp_entries ?s)[idx := (mvrp_entries ?s ! idx)\<lparr>mv_attr := Some k\<rparr>],
      attrs := (attrs ?s)[k := own_attr MVRP_VID_VECTOR j (InfoVlan idx) (attrs ?s ! k)]\<rparr>"
    have v: "?v = ?s\<lparr>attrs := (attrs ?s)[k := own_attr MVRP_VID_VECTOR j (InfoVlan idx) (attrs ?s ! k)],
      domain_attr := domain_attr ?s, mvrp_entries := (mvrp_entries ?s)[idx := (mvrp_entries ?s ! idx)\<lparr>mv_attr := Some k\<rparr>]\<rparr>" by (cases s) simp
    have "mrp_ok ?v"
      by (rule mrp_ok_own [OF ok e(2,3) upd v]) (simp, simp, erule owned_entry_update)
    then show ?thesis using e(2) True
      by (simp add: mvrp_init_entry_def p g e(1) post_simps mrp_attribute_init_def put_attr_def put_entry_def own_attr_def)
  qed
qed (simp add: mvrp_init_entry_def put_entry_def post_simps)


lemma avb_mvrp_init_post:
  assumes "mrp_ok s"
  shows "post (avb_mvrp_init s) mrp_ok"
proof -
  let ?P = "\<lambda>u. mrp_ok u \<and> num_ports u = num_ports s"
  have "post (avb_mvrp_init s) ?P"
    unfolding avb_mvrp_init_def
  proof (rule post_for_each)
    fix j u assume j: "j \<in> set [0..<num_ports s]" "?P u"
    show "post (for_each [0..<max_num_vlan u] (\<lambda>i s. mvrp_init_entry j (j * max_num_vlan s + i) s) u) ?P"
    proof (rule post_for_each)
      fix i t assume "?P t"
      with j mvrp_init_entry_post [of t j "j * max_num_vlan t + i"]
      show "post (mvrp_init_entry j (j * max_num_vlan t + i) t) ?P" by simp
    qed (rule j(2))
  qed (simp add: assms)
  then show ?thesis by (rule post_call) simp
qed

lemma srp_task_init_post:
  assumes "boot s"
  shows "post (srp_task_init mac s) mrp_ok"
  unfolding srp_task_init_def post_construct
  by (rule post_call [OF mrp_init_post [OF assms]], rule post_call [OF srp_domain_init_post])
    (auto intro: avb_mvrp_init_post)

text \<open>The states of a running task.\<close>

inductive reachable :: "ms \<Rightarrow> bool" where
  init: "boot s0 \<Longrightarrow> srp_task_init mac s0 = Some s \<Longrightarrow> reachable s"
| step: "reachable s \<Longrightarrow> srp_step s s' \<Longrightarrow> reachable s'"

lemma reachable_ok: "reachable s \<Longrightarrow> mrp_ok s"
proof (induction rule: reachable.induct)
  case (init s0 mac s)
  then show ?case using postD [OF srp_task_init_post] by blast
next
  case (step s s')
  then show ?case using srp_step_sound sound_frame(6) by blast
qed

end
