(* ===== verification/Rx_Defined.thy ===== *)
theory Rx_Defined
  imports Task_Inv
begin

text \<open>
  Packet reception of \<^verbatim>\<open>avb_mrp_process_packet\<close> is defined on every packet: with one port and some
  slack behind the packet, no byte sequence makes it read or write outside its buffers or follow
  an invalid pointer.
\<close>

section \<open>Reception on a one-port device always completes\<close>

text \<open>
  The reception code reads at most 34 bytes beyond a vector header that lies inside the packet, so 40
  bytes of slack behind the declared end make every read and write defined.
\<close>

definition roomy :: "nat \<Rightarrow> bytes \<Rightarrow> bool" where
  "roomy e pkt \<longleftrightarrow> e + 40 \<le> length pkt"

lemma tot_conj: "tot m P \<Longrightarrow> post m Q \<Longrightarrow> tot m (\<lambda>x. P x \<and> Q x)"
  by (auto simp: tot_def post_def)

lemma tot_post_conv: "tot m (\<lambda>x. True) \<Longrightarrow> post m Q \<Longrightarrow> tot m Q"
  by (auto simp: tot_def post_def)

lemma put_stream_tot: "k < length (stream_table s) \<Longrightarrow> Q (s\<lparr>stream_table := (stream_table s)[k := f (stream_table s ! k)]\<rparr>) \<Longrightarrow> tot (put_stream k f s) Q"
  by (simp add: put_stream_def tot_simps)

lemma put_attr_tot: "j < length (attrs s) \<Longrightarrow> Q (s\<lparr>attrs := (attrs s)[j := f (attrs s ! j)]\<rparr>) \<Longrightarrow> tot (put_attr j f s) Q"
  by (simp add: put_attr_def tot_simps)

lemma match_entry_loop_bound:
  "match_entry_loop sid es i d = Some k \<Longrightarrow> k < i + length es \<or> d = Some k"
  by (induction es arbitrary: i d) (force split: if_splits)+

lemma add_entry_defined: "tot (srp_add_reservation_entry r s) (\<lambda>x. True)"
  using match_entry_loop_bound [of "stream_id r" "stream_table s" 0 None]
  by (auto simp: srp_add_reservation_entry_def srp_match_reservation_entry_by_id_def tot_simps intro!: put_stream_tot)

lemma rd16_tot: "p + 2 \<le> length pkt \<Longrightarrow> (\<And>x. Q x) \<Longrightarrow> tot (rd16 pkt p) Q"
  by (simp add: rd16_def tot_simps)

lemma rd32_tot: "p + 4 \<le> length pkt \<Longrightarrow> (\<And>x. Q x) \<Longrightarrow> tot (rd32 pkt p) Q"
  by (simp add: rd32_def tot_simps)

lemma talker_parameters_tot: "fv + 25 \<le> length pkt \<Longrightarrow> (\<And>x. Q x) \<Longrightarrow> tot (talker_parameters pkt fv i r) Q"
  by (auto simp: talker_parameters_def tot_simps intro!: rd16_tot rd32_tot)

lemma match_talker_defined:
  assumes "mrp_ok s" and "attr < length (attrs s)" and "is_talker (attribute_type (attrs s ! attr))"
    and "in_use (attrs s ! attr)" and "fv + 34 \<le> length pkt"
  shows "tot (avb_srp_match_talker_advertise attr pkt fv i la failed s) (\<lambda>(b, p, u). length p = length pkt)"
proof -
  obtain k where k: "attribute_info (attrs s ! attr) = InfoStream k" "k < length (stream_table s)"
    using wf_attr_ok [OF assms(1,2)] assms(3,4)
    by (auto simp: attr_ok_def bound_def info_ok_def is_talker_def stream_type_def split: attribute_info.splits)
  show ?thesis
    unfolding avb_srp_match_talker_advertise_def Let_def
    using assms(2,5) k
    by (auto simp: tot_simps stream_of_def intro!: put_stream_tot put_attr_tot talker_parameters_tot
        tot_call [OF add_entry_defined])
qed


lemma bound_info:
  assumes "mrp_ok s" and "attr < length (attrs s)" and "in_use (attrs s ! attr)"
  shows "info_ok s (attrs s ! attr)" "attribute_type (attrs s ! attr) \<noteq> MSRP_DOMAIN_VECTOR \<Longrightarrow> attribute_info (attrs s ! attr) \<noteq> InfoNull"
  using wf_attr_ok [OF assms(1,2)] assms(3) by (auto simp: attr_ok_def bound_def)

text \<open>What reception keeps: the invariant of the task and the size of the packet buffer.\<close>

definition rx_ok :: "ms \<Rightarrow> nat \<Rightarrow> bytes \<times> ms \<Rightarrow> bool" where
  "rx_ok r n ps \<longleftrightarrow> sound r (snd ps) \<and> length (fst ps) = n"

lemma rx_length: "rx_ok r n ps \<Longrightarrow> length (fst ps) = n"
  by (simp add: rx_ok_def)

lemma match_same_type_tot:
  assumes "sound r s" and "attr < length (attrs s)" and "fv + 34 \<le> length pkt"
  shows "tot (match_attribute_of_same_type t attr pkt fv i four port la s) (\<lambda>(b, p, u). rx_ok r (length pkt) (p, u))"
proof -
  have ok: "mrp_ok s" by (rule sound_frame) fact
  have "tot (match_attribute_of_same_type t attr pkt fv i four port la s) (\<lambda>(b, p, u). length p = length pkt)"
  proof (cases "in_use (attrs s ! attr)")
    case True
    note info = bound_info [OF ok assms(2) True]
    have tk: "is_talker ty" if "attribute_type (attrs s ! attr) = ty" "ty \<le> MSRP_TALKER_FAILED" for ty
      using that by (cases ty) (simp_all add: is_talker_def less_eq_mrp_attribute_type_def)
    note m = match_talker_defined [OF ok assms(2) _ True assms(3)]
    have l: "tot (avb_srp_match_listener attr pkt fv i four s) (\<lambda>x. True)"
      if "attribute_type (attrs s ! attr) = MSRP_LISTENER"
      using info that assms
      by (auto simp: avb_srp_match_listener_def tot_simps info_ok_def stream_type_def stream_id_of_def stream_of_def split: attribute_info.splits)
    have d: "tot (avb_srp_match_domain attr pkt fv i s) (\<lambda>x. True)"
      using assms by (auto simp: avb_srp_match_domain_def tot_simps intro!: rd16_tot)
    have v: "tot (avb_mvrp_match_vid_vector attr pkt fv i s) (\<lambda>x. True)"
      if "attribute_type (attrs s ! attr) = MVRP_VID_VECTOR"
      using info that assms
      by (auto simp: avb_mvrp_match_vid_vector_def tot_simps info_ok_def stream_type_def vlan_of_def split: attribute_info.splits)
    show ?thesis
      unfolding match_attribute_of_same_type_def
      using assms(2)
      by (auto simp: tot_simps less_eq_mrp_attribute_type_def split: mrp_attribute_type.split option.split
          intro!: m tk tot_call [OF l] tot_call [OF d] tot_call [OF v])
  qed (use assms(2) in \<open>simp add: match_attribute_of_same_type_def tot_simps\<close>)
  from tot_conj [OF this match_same_type_post [OF assms(1)]] show ?thesis
    by (rule tot_call) (auto simp: rx_ok_def)
qed

lemma mrp_in_tot:
  assumes "sound r s" and "st < length (attrs r)" and "port < num_ports r"
  shows "tot (mrp_in three four st port s) (sound r)"
proof -
  have "tot (mrp_in three four st port s) (stays s)"
    unfolding mrp_in_def
    using assms by (auto simp: tot_simps sound_frame stays_start intro!: update_state_rx_call [where r = s])
  then show ?thesis by (rule tot_call) (rule sound_stays [OF assms(1)])
qed

lemma receive_value_tot:
  assumes one: "num_ports r = 1" and "rx_ok r n ps" and "port < num_ports r" and "fv + 34 \<le> n"
  shows "tot (receive_value t fv i three four port la ps) (rx_ok r n)"
proof -
  have step: "tot (do {
         (m, pkt, s) \<leftarrow> match_attribute_of_same_type t j pkt fv i four port la s;
         if m then do { s \<leftarrow> mrp_in three four j port s; Some (True, pkt, s) }
         else Some (matched, pkt, s) }) (\<lambda>(m, p, u). rx_ok r n (p, u))"
    if "j < length (attrs r)" "rx_ok r n (pkt, s)" for j matched pkt s
  proof -
    from that(2) have s: "sound r s" "length pkt = n" by (simp_all add: rx_ok_def)
    then have "tot (match_attribute_of_same_type t j pkt fv i four port la s) (\<lambda>(b, p, u). rx_ok r n (p, u))"
      using match_same_type_tot [of r s j fv pkt t i four port la] that(1) assms(4) by (simp add: sound_frame)
    then show ?thesis unfolding tot_construct
      by (rule tot_call) (use that(1) assms(3) in \<open>auto simp: tot_simps rx_ok_def intro: mrp_in_tot [THEN tot_call]\<close>)
  qed
  have loop: "tot (for_each [0..<length (attrs (snd ps))] (\<lambda>j (matched, pkt, s). do {
         (m, pkt, s) \<leftarrow> match_attribute_of_same_type t j pkt fv i four port la s;
         if m then do { s \<leftarrow> mrp_in three four j port s; Some (True, pkt, s) }
         else Some (matched, pkt, s) }) (False, fst ps, snd ps)) (\<lambda>(m, p, u). rx_ok r n (p, u))"
    by (rule tot_for_each) (use assms(2) step in \<open>auto simp: rx_ok_def sound_frame\<close>)
  show ?thesis unfolding receive_value_def tot_construct(3)
    by (rule tot_call [OF loop]) (auto simp: tot_construct(1,4,6) rx_ok_def sound_frame one)
qed

lemma receive_values_tot:
  assumes "num_ports r = 1" and "port < num_ports r" and "fv + 34 \<le> n"
    and "\<forall>i \<in> set is. fv + fvl + i div 3 < n \<and> (has_fourpacked_events t \<longrightarrow> fv + fvl + tpl + i div 4 < n)"
    and "rx_ok r n ps"
  shows "tot (receive_values t fv fvl tpl port la is ps) (rx_ok r n)"
  using assms(4,5)
proof (induction "is" arbitrary: ps)
  case (Cons i "is")
  have "tot (receive_value t fv i three four port la ps)
      (\<lambda>ps. tot (receive_values t fv fvl tpl port la is ps) (rx_ok r n))" for three four
    by (rule tot_call [OF receive_value_tot [OF assms(1) Cons.prems(2) assms(2,3)]]) (rule Cons.IH; use Cons.prems in simp)
  then show ?case using Cons.prems by (simp add: tot_simps Let_def rx_length)
qed (simp add: tot_simps)

lemma leave_all_tot:
  assumes "rx_ok r n ps" and "port < num_ports r"
  shows "tot (attribute_type_event t MRP_EVENT_RECEIVE_LEAVE_ALL port (snd ps)) (\<lambda>s. rx_ok r n (fst ps, s))"
proof -
  from assms(1) have s: "sound r (snd ps)" by (simp add: rx_ok_def)
  have "tot (attribute_type_event t MRP_EVENT_RECEIVE_LEAVE_ALL port (snd ps)) (stays (snd ps))"
    using s assms(2) by (intro attribute_type_event_tot) (simp_all add: stays_start sound_frame)
  then show ?thesis by (rule tot_call) (use assms(1) in \<open>auto simp: rx_ok_def intro: sound_stays\<close>)
qed

lemma receive_vector_tot:
  assumes "num_ports r = 1" and ps: "rx_ok r n ps" and "port < num_ports r" and "e + 40 \<le> n" and "msg < e" and "hdr < e"
  shows "tot (receive_vector etype t fvl hdr port e msg m0 m1 ps) (\<lambda>x. rx_ok r n (snd x))"
proof -
  have al: "tot (attribute_list_length (fst ps) hdr) (\<lambda>x. True)"
    using assms(2,4,6) by (simp add: attribute_list_length_def tot_simps rx_ok_def)
  define numvalues where "numvalues = unat (m0 AND 0x1f) * 256 + unat m1"
  define three where "three = (numvalues + 2) div 3"
  define len where "len = fvl + three + (if has_fourpacked_events t then (numvalues + 3) div 4 else 0)"
  have vals: "tot (receive_values t (msg + VEC_HDR) fvl three port la [0..<numvalues] qs) (rx_ok r n)"
    if "\<not> msg + VEC_HDR + len > e" "rx_ok r n qs" for la qs
    using assms that by (intro receive_values_tot) (auto simp: VEC_HDR_def three_def len_def split: if_splits)
  show ?thesis
    unfolding receive_vector_def Let_def numvalues_def [symmetric] three_def [symmetric] len_def [symmetric] tot_simps
    by (intro allI impI conjI tot_call [OF al])
      (auto simp: tot_simps ps intro!: vals [THEN tot_call] leave_all_tot [OF ps assms(3), THEN tot_call])
qed

lemma vector_loop_tot:
  assumes "num_ports r = 1" and "rx_ok r n ps" and "port < num_ports r" and "e + 40 \<le> n" and "hdr < e"
  shows "tot (vector_loop etype t fvl hdr port e msg ps) (\<lambda>x. rx_ok r n (snd x))"
  using assms(2)
proof (induction "e - msg" arbitrary: msg ps rule: less_induct)
  case less
  have rec: "tot (vector_loop etype t fvl hdr port e (msg + VEC_HDR + len) qs) (\<lambda>x. rx_ok r n (snd x))"
    if "msg < e" "rx_ok r n qs" for len qs
    by (rule less.hyps) (use that in \<open>simp_all add: VEC_HDR_def\<close>)
  show ?case
    by (subst vector_loop.simps)
      (use assms(4) in \<open>auto simp: tot_simps less.prems rx_length [OF less.prems] split: option.split
        intro!: receive_vector_tot [OF assms(1) less.prems assms(3,4) _ assms(5), THEN tot_call] rec\<close>)
qed

lemma message_loop_tot:
  assumes "num_ports r = 1" and "rx_ok r n ps" and "port < num_ports r" and "e + 40 \<le> n"
  shows "tot (message_loop etype v port e msg ps) (rx_ok r n)"
  using assms(2)
proof (induction "e - msg" arbitrary: msg ps rule: less_induct)
  case less
  have rec: "tot (vector_loop etype t fvl msg port e m ps) (\<lambda>y. \<forall>a b. y = (a, b) \<longrightarrow>
      (a = None \<longrightarrow> rx_ok r n b) \<and>
      (\<forall>z. a = Some z \<longrightarrow> tot (message_loop etype v port e (Suc (Suc z)) b) (rx_ok r n)))"
    if "msg < e" "msg < m" for t fvl m
  proof -
    obtain a b where y: "vector_loop etype t fvl msg port e m ps = Some (a, b)" and b: "rx_ok r n b"
      using vector_loop_tot [OF assms(1) less.prems assms(3,4) \<open>msg < e\<close>, of etype t fvl m]
      by (auto simp: tot_def)
    have "tot (message_loop etype v port e (Suc (Suc z)) b) (rx_ok r n)" if "a = Some z" for z
      using vector_loop_advances [of etype t fvl msg port e m ps z b] y that \<open>msg < e\<close> \<open>msg < m\<close> b
      by (intro less.hyps) simp_all
    with y b show ?thesis by (cases b) (simp add: tot_def)
  qed
  define off where "off = (if etype \<noteq> AVB_SRP_ETHERTYPE then MSG_HDR - 2 else MSG_HDR)"
  have "0 < off" by (simp add: off_def MSG_HDR_def)
  then show ?case
    by (subst message_loop.simps, fold off_def)
      (use assms(4) in \<open>auto simp: tot_simps Let_def less.prems rx_length [OF less.prems] split: option.split
        intro!: rec [THEN tot_call]\<close>)
qed

lemma process_packet_tot:
  assumes "mrp_ok s" and "num_ports s = 1" and "len + 40 \<le> int (length buf)" and "40 \<le> length buf"
  shows "tot (avb_mrp_process_packet buf etype len 0 s) (sound s)"
proof -
  have "tot (message_loop etype v 0 (nat len) MRP_HDR (buf, s)) (rx_ok s (length buf))" for v
    using assms by (intro message_loop_tot) (auto simp: rx_ok_def stays_start)
  note loop = this
  show ?thesis
    using assms(4) unfolding avb_mrp_process_packet_def
    by (auto simp: tot_simps rx_ok_def intro!: loop [THEN tot_call])
qed

lemma data_packet_tot:
  assumes "mrp_ok s" and "num_ports s = 1" and "nbytes + 40 \<le> length buf" and "58 \<le> length buf"
  shows "tot (avb_process_srp_control_packet link_up buf nbytes ETH_DATA 0 s) (sound s)"
  unfolding avb_process_srp_control_packet_def
  using assms by (auto simp: tot_simps Let_def stays_start(2) intro!: process_packet_tot)

end
