(* ===== verification/Srp_Wire.thy ===== *)
theory Srp_Wire
  imports Srp
begin

text \<open>
  The bytes on the wire. The first value of each MSRP declaration, as the encoders of
  \<^verbatim>\<open>src/srp/avb_srp.c\<close> store it, is what the matching functions of the same file read back; and the
  bounds within which the send buffer of \<^verbatim>\<open>avb_mrp.c\<close> holds what is built in it.
\<close>

section \<open>Windows of the send buffer\<close>

text \<open>
  A message under construction is a window \<open>w\<close> of the buffer \<open>pre @ w @ suf\<close>; the operations on absolute offsets
  become operations on the window.
\<close>

named_theorems window \<open>reads and writes inside a window of a buffer\<close>

lemma rd_window [window]:
  "length pre \<le> i \<Longrightarrow> i - length pre < length w \<Longrightarrow> rd (pre @ w @ suf) i = Some (w ! (i - length pre))"
  by (simp add: rd_def nth_append)

lemma read_block_window [window]:
  "length pre \<le> i \<Longrightarrow> i - length pre + n \<le> length w \<Longrightarrow>
   read_block (pre @ w @ suf) i n = Some (take n (drop (i - length pre) w))"
  by (simp add: read_block_Some_iff)

lemma put_bytes_window [window]:
  assumes "send_buf s = pre @ w @ suf" and "length pre \<le> i" and "i - length pre + length bs \<le> length w"
  shows "put_bytes i bs s = Some (s\<lparr>send_buf := pre @ overlay (i - length pre) bs w @ suf\<rparr>)"
proof -
  obtain k where "i = length pre + k" using assms(2) le_Suc_ex by blast
  with assms show ?thesis by (simp add: put_bytes_def copy_in_def overlay_eq add.assoc)
qed

text \<open>The bytes of a message with type byte \<open>ty\<close>, length byte \<open>l\<close> and the given attribute list.\<close>

definition message :: "u8 \<Rightarrow> u8 \<Rightarrow> bytes \<Rightarrow> bytes" where
  "message ty l body = [ty, l] @ pair_list (hton_16 (of_nat (length body + 2))) @ body @ [0, 0]"

lemma length_pair_list [simp]: "length (pair_list p) = 2"
  by (simp add: pair_list_def)

lemma length_message [simp]: "length (message ty l body) = length body + 6"
  by (simp add: message_def)

lemma nth_message:
  "message ty l body ! 0 = ty" "j < length body \<Longrightarrow> message ty l body ! (4 + j) = body ! j"
  by (simp_all add: message_def nth_append numeral_eq_Suc pair_list_def)

lemma hton_16_value:
  assumes "n < 65536" and "hton_16 (of_nat n) = (h, l)"
  shows "unat h * 256 + unat l = n"
proof -
  from assms(2) have h: "h = ucast (drop_bit 8 (of_nat n :: u16))" and l: "l = ucast (of_nat n :: u16)"
    by (auto simp: hton_16_def)
  have "unat h = n div 256"
    using assms(1) by (simp add: h unsigned_ucast_eq unsigned_drop_bit_eq unsigned_of_nat take_bit_eq_mod drop_bit_eq_div [where 'a = nat] less_mult_imp_div_less)
  moreover have "unat l = n mod 256"
    using assms(1) by (simp add: l unsigned_ucast_eq unsigned_of_nat take_bit_eq_mod)
  ultimately show ?thesis by simp
qed

lemma list_length_message:
  assumes "length body < 65534"
  shows "attribute_list_length (pre @ message ty l body @ suf) (length pre) = Some (length body + 2)"
proof -
  obtain h lo where p: "hton_16 (of_nat (length body + 2)) = (h, lo)" by (cases "hton_16 (of_nat (length body + 2))")
  have "message ty l body ! 2 = h" "message ty l body ! 3 = lo"
    unfolding message_def p pair_list_def by simp_all
  with hton_16_value [OF _ p] assms show ?thesis
    by (simp add: attribute_list_length_def nth_append)
qed

lemma insert_vector_byte_message:
  assumes "send_buf s = pre @ (message ty l body @ [c]) @ suf" and "send_ptr s = length pre + (length body + 6)"
    and "length body < 65533"
  shows "insert_vector_byte (length pre) (length pre + (length body + 4)) s =
    Some (s\<lparr>send_buf := pre @ message ty l (body @ [0]) @ suf, send_ptr := length pre + (length body + 7)\<rparr>)"
proof -
  let ?w = "message ty l body @ [c]"
  have al: "attribute_list_length (send_buf s) (length pre) = Some (length body + 2)"
    using list_length_message [of body pre ty l "[c] @ suf"] assms(1,3) by simp
  have blk: "read_block (send_buf s) (length pre + (length body + 4)) (send_ptr s - (length pre + (length body + 4))) = Some [0, 0]"
    using assms(1,2) by (simp add: read_block_def message_def pair_list_def numeral_eq_Suc)
  have o: "overlay (5 + length body) [0, 0] (overlay 2 (pair_list q) (overlay (length body + 4) [0]
      (overlay (5 + length body) [0, 0] ?w))) = [ty, l] @ pair_list q @ body @ [0, 0, 0]" for q
    by (simp add: overlay_eq message_def pair_list_def numeral_eq_Suc)
  show ?thesis
    unfolding insert_vector_byte_def al
    using assms(1,2) blk
    by (simp add: put_bytes_window [where pre = pre and suf = suf] Let_def MSG_HDR_def o)
      (simp add: message_def)
qed


lemma message_overlay:
  assumes "send_buf s = pre @ message ty l body @ suf" and "k + length bs \<le> length body"
  shows "put_bytes (length pre + (4 + k)) bs s = Some (s\<lparr>send_buf := pre @ message ty l (overlay k bs body) @ suf\<rparr>)"
proof -
  have "overlay (4 + k) bs (message ty l body) = message ty l (overlay k bs body)"
    using assms(2) by (simp add: overlay_eq message_def pair_list_def numeral_eq_Suc)
  then show ?thesis using assms by (simp add: put_bytes_window [where pre = pre and suf = suf])
qed

lemma rd_message:
  "k < length body \<Longrightarrow> rd (pre @ message ty l body @ suf) (length pre + (4 + k)) = Some (body ! k)"
  by (simp add: nth_append nth_message)

lemma three_packed_first:
  assumes "send_buf s = pre @ (message ty l ([lv, 0] @ fv) @ [c]) @ suf" and "send_ptr s = length pre + (length fv + 8)"
    and "length fv = first_value_lengths t"
  shows "mrp_encode_three_packed_event (length pre) ev t s = Some (s\<lparr>send_buf := pre @ message ty l ([lv, 0] @ fv @ [of_nat (ev * 36)]) @ suf,
     send_ptr := length pre + (length fv + 9)\<rparr>)"
proof -
  let ?b = "[lv, 0] @ fv"
  have len: "length fv < 65531" using assms(3) by (cases t) simp_all
  have n: "rd (send_buf s) (length pre + MSG_HDR + 1) = Some 0"
    using rd_message [of 1 ?b pre ty l "[c] @ suf"] assms(1) by (simp add: MSG_HDR_def nth_append)
  have i: "insert_vector_byte (length pre) (length pre + MSG_HDR + VEC_HDR + first_value_lengths t + 0) s =
    Some (s\<lparr>send_buf := pre @ message ty l (?b @ [0]) @ suf, send_ptr := length pre + (length ?b + 7)\<rparr>)"
    using insert_vector_byte_message [OF assms(1)] assms(2,3) len by (simp add: MSG_HDR_def VEC_HDR_def algebra_simps)
  let ?s = "s\<lparr>send_buf := pre @ message ty l (?b @ [0]) @ suf, send_ptr := length pre + (length ?b + 7)\<rparr>"
  have v: "rd (send_buf ?s) (length pre + MSG_HDR + VEC_HDR + first_value_lengths t + 0) = Some 0"
    using rd_message [of "2 + length fv" "?b @ [0]" pre ty l suf] assms(3) by (simp add: MSG_HDR_def VEC_HDR_def nth_append)
  have p: "put_bytes (length pre + MSG_HDR + VEC_HDR + first_value_lengths t + 0) [x] ?s =
     Some (?s\<lparr>send_buf := pre @ message ty l (?b @ [x]) @ suf\<rparr>)" for x
    using message_overlay [of ?s pre ty l "?b @ [0]" suf "2 + length fv" "[x]"] assms(3)
    by (simp add: MSG_HDR_def VEC_HDR_def overlay_eq ac_simps)
  show ?thesis
    unfolding mrp_encode_three_packed_event_def n
    using i v p by (simp add: Let_def three.enc)
qed

lemma four_packed_first:
  assumes "send_buf s = pre @ (message ty l ([lv, 0] @ fv @ [tv]) @ [c]) @ suf" and "send_ptr s = length pre + (length fv + 9)"
    and "length fv = first_value_lengths t"
  shows "mrp_encode_four_packed_event (length pre) ev t s = Some (s\<lparr>send_buf := pre @ message ty l ([lv, 0] @ fv @ [tv, of_nat (ev * 64)]) @ suf,
     send_ptr := length pre + (length fv + 10)\<rparr>)"
proof -
  let ?b = "[lv, 0] @ fv @ [tv]"
  let ?v = "length pre + MSG_HDR + VEC_HDR + first_value_lengths t + (0 + 3) div 3 + 0"
  have len: "length fv < 65530" using assms(3) by (cases t) simp_all
  have n: "rd (send_buf s) (length pre + MSG_HDR + 1) = Some 0"
    using rd_message [of 1 ?b pre ty l "[c] @ suf"] assms(1) by (simp add: MSG_HDR_def nth_append)
  have i: "insert_vector_byte (length pre) ?v s =
    Some (s\<lparr>send_buf := pre @ message ty l (?b @ [0]) @ suf, send_ptr := length pre + (length ?b + 7)\<rparr>)"
    using insert_vector_byte_message [OF assms(1)] assms(2,3) len by (simp add: MSG_HDR_def VEC_HDR_def algebra_simps)
  let ?s = "s\<lparr>send_buf := pre @ message ty l (?b @ [0]) @ suf, send_ptr := length pre + (length ?b + 7)\<rparr>"
  have v: "rd (send_buf ?s) ?v = Some 0"
    using rd_message [of "3 + length fv" "?b @ [0]" pre ty l suf] assms(3) by (simp add: MSG_HDR_def VEC_HDR_def nth_append)
  have o: "overlay (3 + length fv) [x] (?b @ [0]) = ?b @ [x]" for x
    by (simp add: overlay_eq numeral_eq_Suc)
  have p: "put_bytes ?v [x] ?s = Some (?s\<lparr>send_buf := pre @ message ty l (?b @ [x]) @ suf\<rparr>)" for x
    using message_overlay [of ?s pre ty l "?b @ [0]" suf "3 + length fv" "[x]", unfolded o] assms(3)
    by (simp add: MSG_HDR_def VEC_HDR_def ac_simps)
  show ?thesis
    unfolding mrp_encode_four_packed_event_def n
    using i v p by (simp add: Let_def four.enc)
qed

lemma create_empty_message:
  assumes "send_buf s = pre @ w @ suf" and "send_ptr s = length pre" and "first_value_lengths t + 8 \<le> length w"
  shows "create_empty_msg t la s = Some (s\<lparr>send_buf := pre @ (message (encode_attr_type t) (of_nat (first_value_lengths t))
       ([if la then 0x20 else 0, 0] @ replicate (first_value_lengths t) 0) @ drop (first_value_lengths t + 8) w) @ suf,
     send_ptr := length pre + (first_value_lengths t + 8)\<rparr>)"
proof -
  let ?fl = "first_value_lengths t"
  have h: "first_value_lengths t + VEC_HDR + 0 + FOOTER = ?fl + 4" by (simp add: VEC_HDR_def FOOTER_def)
  have w: "overlay 4 [b, 0] (overlay 2 (pair_list q) (overlay 0 [c, d] (overlay 0 (replicate (8 + ?fl) 0) w)))
     = [c, d] @ pair_list q @ [b, 0] @ replicate ?fl 0 @ [0, 0] @ drop (?fl + 8) w" for b c d q
    using assms(3) by (simp add: overlay_eq numeral_eq_Suc replicate_app_Cons_same pair_list_def MSG_HDR_def)
  have m: "message (encode_attr_type t) (of_nat ?fl) ([b, 0] @ replicate ?fl 0) =
     [encode_attr_type t, of_nat ?fl] @ pair_list (hton_16 (of_nat (?fl + 4))) @ [b, 0] @ replicate ?fl 0 @ [0, 0]" for b
    by (simp add: message_def add.commute)


  show ?thesis
    unfolding create_empty_msg_def Let_def h m
    using assms
    by (simp add: put_bytes_window [where pre = pre and suf = suf] w MSG_HDR_def)
qed


text \<open>A stream identifier as its eight bytes on the wire.\<close>

definition sid_bytes :: "stream_id \<Rightarrow> bytes" where
  "sid_bytes sid = le_bytes32 (byterev (fst sid)) @ le_bytes32 (byterev (snd sid))"

lemma length_sid_bytes [simp]: "length (sid_bytes sid) = 8"
  by (simp add: sid_bytes_def)

text \<open>
  \<open>building s pre ty l body suf u\<close>: state \<open>u\<close> is \<open>s\<close> with the message under construction between \<open>pre\<close> and \<open>suf\<close>.
  The encoders' stores are rules on it.
\<close>

definition building :: "ms \<Rightarrow> bytes \<Rightarrow> u8 \<Rightarrow> u8 \<Rightarrow> bytes \<Rightarrow> bytes \<Rightarrow> ms \<Rightarrow> bool" where
  "building s pre ty l body suf u \<longleftrightarrow>
     u = s\<lparr>send_buf := pre @ message ty l body @ suf, send_ptr := length pre + (length body + 6)\<rparr>"

lemma swap_ptr: "(s :: ms)\<lparr>send_ptr := p, send_buf := b\<rparr> = s\<lparr>send_buf := b, send_ptr := p\<rparr>"
  by (cases s) simp

lemma building_frame [simp]:
  assumes "building s pre ty l body suf u"
  shows "attrs u = attrs s" "stream_table u = stream_table s" "mvrp_entries u = mvrp_entries s"
    "srp_domain_boundary_port u = srp_domain_boundary_port s"
    "current_vlan_id_from_domain u = current_vlan_id_from_domain s"
  using assms by (simp_all add: building_def)

lemma building_reads [simp]:
  assumes "building s pre ty l (lv # n # fv) suf u"
  shows "num_values_at (length pre) u = Some n" "rd (send_buf u) (length pre) = Some ty"
proof -
  show "num_values_at (length pre) u = Some n"
    using rd_message [of 1 "lv # n # fv" pre ty l suf] assms by (simp add: building_def num_values_at_def MSG_HDR_def nth_append)
  show "rd (send_buf u) (length pre) = Some ty"
    using assms by (simp add: building_def nth_append nth_message)
qed

named_theorems building_rules \<open>stores into the message under construction\<close>

lemma building_create [building_rules]:
  assumes "send_buf s = pre @ w @ suf" and "send_ptr s = length pre" and "first_value_lengths t + 8 \<le> length w"
    and "\<And>u. building s pre (encode_attr_type t) (of_nat (first_value_lengths t))
       ((if la then 0x20 else 0) # 0 # replicate (first_value_lengths t) 0) (drop (first_value_lengths t + 8) w @ suf) u \<Longrightarrow> Q u"
  shows "tot (create_empty_msg t la s) Q"
  using create_empty_message [OF assms(1-3), of la] assms(4)
  by (cases la) (simp_all add: tot_def building_def add.commute)

lemma building_put [building_rules]:
  assumes "building s pre ty l (lv # n # fv) suf u" and "k + length bs \<le> length fv"
    and "\<And>v. building s pre ty l (lv # n # overlay k bs fv) suf v \<Longrightarrow> Q v"
  shows "tot (put_bytes (length pre + fv_offset + k) bs u) Q"
proof -
  have "overlay (2 + k) bs (lv # n # fv) = lv # n # overlay k bs fv" by (simp add: overlay_def)
  then have "put_bytes (length pre + fv_offset + k) bs u = Some (u\<lparr>send_buf := pre @ message ty l (lv # n # overlay k bs fv) @ suf\<rparr>)"
    using message_overlay [of u pre ty l "lv # n # fv" suf "2 + k" bs] assms(1,2)
    by (simp add: building_def fv_offset_def MSG_HDR_def VEC_HDR_def ac_simps)
  with assms show ?thesis by (simp add: tot_def building_def swap_ptr)
qed

lemmas building_put_0 [building_rules] = building_put [where k = 0, simplified]

lemma building_set_num [building_rules]:
  assumes "building s pre ty l (lv # n # fv) suf u" and "\<And>v. building s pre ty l (lv # m # fv) suf v \<Longrightarrow> Q v"
  shows "tot (set_num_values (length pre) m u) Q"
proof -
  have "overlay 1 [m] (lv # n # fv) = lv # m # fv" by (simp add: overlay_eq)
  then have "set_num_values (length pre) m u = Some (u\<lparr>send_buf := pre @ message ty l (lv # m # fv) @ suf\<rparr>)"
    using message_overlay [of u pre ty l "lv # n # fv" suf 1 "[m]"] assms(1)
    by (simp add: building_def set_num_values_def MSG_HDR_def ac_simps)
  with assms show ?thesis by (simp add: tot_def building_def swap_ptr)
qed

lemma building_three [building_rules]:
  assumes "building s pre ty l (lv # 0 # fv) (c # suf) u" and "length fv = first_value_lengths t"
    and "\<And>v. building s pre ty l (lv # 0 # fv @ [of_nat (ev * 36)]) suf v \<Longrightarrow> Q v"
  shows "tot (mrp_encode_three_packed_event (length pre) ev t u) Q"
  using three_packed_first [of u pre ty l lv fv c suf t ev] assms by (simp add: tot_def building_def add.commute)

lemma building_four [building_rules]:
  assumes "building s pre ty l (lv # 0 # fv @ [tv]) (c # suf) u" and "length fv = first_value_lengths t"
    and "\<And>v. building s pre ty l (lv # 0 # fv @ [tv, of_nat (ev * 64)]) suf v \<Longrightarrow> Q v"
  shows "tot (mrp_encode_four_packed_event (length pre) ev t u) Q"
  using four_packed_first [of u pre ty l lv fv tv c suf t ev] assms by (simp add: tot_def building_def add.commute)

lemma listener_first_value [simp]:
  "length z = 8 \<Longrightarrow>
   overlay 4 (le_bytes32 (byterev (snd sid))) (overlay 0 (le_bytes32 (byterev (fst sid))) z) = sid_bytes sid"
  by (simp add: overlay_eq sid_bytes_def)

definition declared_four :: "avb_stream_entry \<Rightarrow> bool \<Rightarrow> nat" where
  "declared_four e boundary =
     (if talker_present e \<and> \<not> boundary \<and> \<not> reservation_failed e
      then AVB_SRP_FOUR_PACKED_EVENT_READY else AVB_SRP_FOUR_PACKED_EVENT_ASKING_FAILED)"

lemma listener_announced:
  assumes "send_buf s = pre @ w @ suf" and "length w = 18" and "send_ptr s = length pre"
    and "st < length (attrs s)" and "attribute_type (attrs s ! st) = MSRP_LISTENER"
    and "attribute_info (attrs s ! st) = InfoStream k" and "k < length (stream_table s)"
    and "port_num (attrs s ! st) < length (srp_domain_boundary_port s)"
  shows "tot (do { s \<leftarrow> create_empty_msg MSRP_LISTENER False s; encode_msg (length pre) st v s })
    (\<lambda>(b, u). b \<and> building s pre 3 8 (0 # 1 # sid_bytes (stream_id (reservation (stream_table s ! k))) @
       [of_nat (v * 36), of_nat (declared_four (stream_table s ! k) (srp_domain_boundary_port s ! port_num (attrs s ! st)) * 64)]) suf u)"
proof -
  obtain c d where cd: "drop 16 w = [c, d]"
    using assms(2) by (auto simp: length_Suc_conv numeral_eq_Suc)
  show ?thesis
    unfolding encode_msg_def avb_srp_encode_message_def encode_listener_message_def
    using assms
    by (auto simp: tot_simps cd stream_of_def Let_def declared_four_def intro!: building_rules)
qed

lemma length_hton [simp]: "length (list4 q) = 4"
  by (cases q) (simp add: list4_def)

definition talker_value :: "avb_srp_info \<Rightarrow> u16 \<Rightarrow> bytes" where
  "talker_value r vid = sid_bytes (stream_id r) @ dest_mac_addr r @ pair_list (hton_16 vid)
     @ pair_list (hton_16 (tspec_max_frame_size r)) @ pair_list (hton_16 (tspec_max_interval r))
     @ [tspec r] @ list4 (hton_32 (accumulated_latency r))"

lemma length_talker_value [simp]: "length (dest_mac_addr r) = 6 \<Longrightarrow> length (talker_value r vid) = 25"
  by (simp add: talker_value_def)

lemma talker_overlays [simp]:
  "length z = 25 \<Longrightarrow> length (dest_mac_addr r) = 6 \<Longrightarrow>
   overlay 21 (list4 (hton_32 (accumulated_latency r))) (overlay 18 (pair_list (hton_16 (tspec_max_interval r)))
     (overlay 16 (pair_list (hton_16 (tspec_max_frame_size r))) (overlay 20 [tspec r] (overlay 14 (pair_list (hton_16 vid))
       (overlay 4 (le_bytes32 (byterev (snd (stream_id r)))) (overlay 0 (le_bytes32 (byterev (fst (stream_id r))))
         (overlay 8 (dest_mac_addr r) z))))))) = talker_value r vid"
  by (simp add: overlay_eq talker_value_def sid_bytes_def)

lemma domain_overlay [simp]: "length z = length bs \<Longrightarrow> overlay 0 bs z = bs"
  by (simp add: overlay_eq)

lemma singleton_drop: "length w = Suc n \<Longrightarrow> \<exists>c. drop n w = [c]"
  by (metis Suc_diff_Suc cancel_comm_monoid_add_class.diff_cancel length_0_conv length_Suc_conv length_drop lessI diff_Suc_Suc)

lemma building_talker_value [building_rules]:
  assumes "building s pre ty l (lv # n # z) suf u" and "length z = 25" and "length (dest_mac_addr r) = 6"
    and "\<And>v. building s pre ty l (lv # n # talker_value r
       (if vlan_id r \<noteq> 0 then vlan_id r else ucast (current_vlan_id_from_domain s))) suf v \<Longrightarrow> Q v"
  shows "tot (put_talker_first_value (length pre + fv_offset) r False u) Q"
proof -
  have m: "read_block (dest_mac_addr r) 0 6 = Some (dest_mac_addr r)" using assms(3) by (simp add: read_block_def)
  show ?thesis
  proof (cases "vlan_id r = 0")
    case True
    with assms show ?thesis unfolding put_talker_first_value_def m
      by (simp add: tot_construct) ((rule building_rules, assumption, simp)+, simp)
  next
    case False
    with assms show ?thesis unfolding put_talker_first_value_def m
      by (simp add: tot_construct) ((rule building_rules, assumption, simp)+, simp)
  qed
qed

lemma talker_announced:
  assumes "send_buf s = pre @ w @ suf" and "length w = 34" and "send_ptr s = length pre"
    and "st < length (attrs s)" and "attribute_type (attrs s ! st) = MSRP_TALKER_ADVERTISE"
    and "attribute_info (attrs s ! st) = InfoStream k" and "k < length (stream_table s)"
    and "r = reservation (stream_table s ! k)" and "length (dest_mac_addr r) = 6"
  shows "tot (do { s \<leftarrow> create_empty_msg MSRP_TALKER_ADVERTISE False s; encode_msg (length pre) st v s })
    (\<lambda>(b, u). b \<and> building s pre 1 25 (0 # 1 # talker_value r
         (if vlan_id r \<noteq> 0 then vlan_id r else ucast (current_vlan_id_from_domain s)) @ [of_nat (v * 36)]) suf u)"
proof -
  obtain c where cd: "drop 33 w = [c]" using singleton_drop [of w 33] assms(2) by auto
  show ?thesis
    unfolding encode_msg_def avb_srp_encode_message_def encode_talker_message_def put_talker_first_value_def
    using assms
    by (auto simp: tot_simps cd stream_of_def Let_def intro!: building_rules)
qed

lemma domain_announced:
  assumes "send_buf s = pre @ w @ suf" and "length w = 13" and "send_ptr s = length pre"
    and "st < length (attrs s)" and "attribute_type (attrs s ! st) = MSRP_DOMAIN_VECTOR"
  shows "tot (do { s \<leftarrow> create_empty_msg MSRP_DOMAIN_VECTOR False s; encode_msg (length pre) st v s })
    (\<lambda>(b, u). b \<and> building s pre 4 4 (0 # 1 # [AVB_SRP_SRCLASS_DEFAULT, AVB_SRP_TSPEC_PRIORITY_DEFAULT,
            ucast (drop_bit 8 (current_vlan_id_from_domain s) AND 0xff),
            ucast (current_vlan_id_from_domain s AND 0xff)] @ [of_nat (v * 36)]) suf u)"
proof -
  obtain c where cd: "drop 12 w = [c]" using singleton_drop [of w 12] assms(2) by auto
  show ?thesis
    unfolding encode_msg_def avb_srp_encode_message_def encode_domain_message_def
    using assms
    by (auto simp: tot_simps cd Let_def intro!: building_rules)
qed

section \<open>What a receiver reads\<close>

lemma stream_id64_or: "stream_id64 (a, b) = push_bit 32 (ucast a) OR ucast b"
  unfolding stream_id64_def fst_conv snd_conv
  by (rule disjunctive_add_eq_or) (auto intro!: bit_word_eqI simp: bit_simps)

lemma ntoh64_sid_bytes [simp]: "ntoh64 (sid_bytes sid) = stream_id64 sid"
proof (cases sid)
  case (Pair a b)
  have "ntoh64 (sid_bytes (a, b)) = stream_id64 (a, b)"
  proof (rule bit_word_eqI)
    fix n assume "n < LENGTH(64)"
    then consider "n < 8" | "8 \<le> n" "n < 16" | "16 \<le> n" "n < 24" | "24 \<le> n" "n < 32"
      | "32 \<le> n" "n < 40" | "40 \<le> n" "n < 48" | "48 \<le> n" "n < 56" | "56 \<le> n" "n < 64"
      by fastforce
    then show "bit (ntoh64 (sid_bytes (a, b))) n = bit (stream_id64 (a, b)) n"
      unfolding sid_bytes_def le_bytes32_byterev fst_conv snd_conv append.simps ntoh64_unfold stream_id64_or
      by cases (auto simp: bit_simps less_diff_conv2)
  qed
  with Pair show ?thesis by simp
qed

lemma mac_bytes_conv:
  "mac_bytes x = map (\<lambda>k. ucast (drop_bit k x)) [40, 32, 24, 16, 8, 0]"
proof -
  have t: "take 2 (le_bytes32 (drop_bit 16 w)) = [ucast (drop_bit 16 w), ucast (drop_bit 24 w)]" for w
    by (simp add: le_bytes32_def numeral_2_eq_2)
  have m: "(0xff :: u32) = mask 8" by (simp add: mask_eq_exp_minus_1)
  have b: "ucast (drop_bit 16 (byterev w)) = (ucast (drop_bit 8 w) :: u8)" "ucast (drop_bit 24 (byterev w)) = (ucast w :: u8)" for w
    unfolding byterev_def m by (rule bit_word_eqI, auto simp: bit_simps simp del: drop_bit_or push_bit_or)+
  have u: "ucast (drop_bit k (ucast y :: u32)) = (ucast (drop_bit k y) :: u8)" if "k + 8 \<le> 32" for k and y :: u64
    using that by (intro bit_word_eqI) (auto simp: bit_simps)
  have v: "ucast (ucast y :: u32) = (ucast y :: u8)" for y :: u64 by (rule bit_word_eqI) (auto simp: bit_simps)
  show ?thesis unfolding mac_bytes_def t b le_bytes32_byterev by (simp add: u v)
qed

lemma mac_bytes_value:
  assumes "length mac = 6"
  shows "mac_bytes (foldl (\<lambda>x b. push_bit 8 x + ucast b) 0 mac) = mac"
proof -
  obtain a b c d e f where m: "mac = [a, b, c, d, e, f]" using assms by (auto simp: length_Suc_conv numeral_eq_Suc)
  let ?x = "push_bit 40 (ucast a) OR push_bit 32 (ucast b) OR push_bit 24 (ucast c) OR push_bit 16 (ucast d) OR push_bit 8 (ucast e) OR ucast f :: u64"
  have x: "foldl (\<lambda>x b. push_bit 8 x + ucast b) 0 mac = ?x"
    by (simp add: m shift_in_byte push_bit_or or.assoc)
  have "mac_bytes ?x = mac"
    unfolding mac_bytes_conv m list.map
    by (intro arg_cong2 [where f = Cons] refl bit_word_eqI)
      (auto simp: bit_simps simp del: drop_bit_or push_bit_or)
  with x show ?thesis by simp
qed

lemma nth_value:
  assumes "length pre + 6 \<le> i" and "i - (length pre + 6) < length fv"
  shows "(pre @ message ty l (lv # n # fv @ ev) @ suf) ! i = fv ! (i - (length pre + 6))"
proof -
  obtain k where "i = length pre + 6 + k" using assms(1) le_Suc_ex by blast
  with assms show ?thesis using nth_message(2) [of "2 + k" "lv # n # fv @ ev"] by (simp add: nth_append)
qed

lemma read_value:
  assumes "k + m \<le> length fv"
  shows "read_block (pre @ message ty l (lv # n # fv @ ev) @ suf) (length pre + 6 + k) m = Some (take m (drop k fv))"
proof -
  have "drop (6 + k) (message ty l (lv # n # fv @ ev)) = drop k fv @ ev @ [0, 0]"
    using assms by (simp add: message_def pair_list_def numeral_eq_Suc)
  with assms show ?thesis by (simp add: read_block_def add.assoc)
qed

lemma talker_value_read:
  assumes "length (dest_mac_addr r) = 6"
  shows "talker_parameters (pre @ message ty l (lv # n # talker_value r vid @ ev) @ suf) (length pre + 6) 0 q =
    Some (q\<lparr>vlan_id := vid, dest_mac_addr := dest_mac_addr r, tspec_max_frame_size := tspec_max_frame_size r,
       tspec_max_interval := tspec_max_interval r, tspec := tspec r, accumulated_latency := accumulated_latency r\<rparr>)"
proof -
  let ?p = "pre @ message ty l (lv # n # talker_value r vid @ ev) @ suf"
  obtain a b c d where q: "hton_32 (accumulated_latency r) = (a, b, c, d)" by (cases "hton_32 (accumulated_latency r)")
  then have lat: "ntoh_32 (a, b, c, d) = accumulated_latency r" by (metis ptr32.dec_enc)
  have i: "talker_value r vid ! 14 = fst (hton_16 vid)" "talker_value r vid ! 15 = snd (hton_16 vid)"
    "talker_value r vid ! 16 = fst (hton_16 (tspec_max_frame_size r))" "talker_value r vid ! 17 = snd (hton_16 (tspec_max_frame_size r))"
    "talker_value r vid ! 18 = fst (hton_16 (tspec_max_interval r))" "talker_value r vid ! 19 = snd (hton_16 (tspec_max_interval r))"
    "talker_value r vid ! 20 = tspec r" "talker_value r vid ! 21 = a" "talker_value r vid ! 22 = b" "talker_value r vid ! 23 = c" "talker_value r vid ! 24 = d"
    using assms by (simp_all add: talker_value_def nth_append pair_list_def list4_def q)
  have m: "read_block ?p (length pre + 6 + 8) 6 = Some (dest_mac_addr r)"
    using assms by (subst read_value) (simp_all add: talker_value_def)
  have "first_value_mac 0 (dest_mac_addr r) 0 = dest_mac_addr r"
    by (simp add: first_value_mac_def mac_bytes_value [OF assms])
  with assms i lat m show ?thesis
    by (simp add: talker_parameters_def rd16_def rd32_def nth_value)
qed

lemma buffer_window:
  assumes "p + n \<le> length b"
  obtains pre w suf where "b = pre @ w @ suf" "length pre = p" "length w = n"
proof
  show "b = take p b @ take n (drop p b) @ drop (p + n) b"
    by (metis append_take_drop_id drop_drop add.commute)
qed (use assms in simp_all)

lemma stream_id64_inj: "stream_id64 x = stream_id64 y \<longleftrightarrow> x = y"
proof
  assume eq: "stream_id64 x = stream_id64 y"
  obtain a b c d where xy: "x = (a, b)" "y = (c, d)" by (cases x; cases y)
  have lo: "ucast (stream_id64 (a, b)) = b" for a b
    unfolding stream_id64_or by (rule bit_word_eqI) (auto simp: bit_simps)
  have hi: "ucast (drop_bit 32 (stream_id64 (a, b))) = a" for a b
    unfolding stream_id64_or by (rule bit_word_eqI) (auto simp: bit_simps simp del: drop_bit_or)
  from eq show "x = y" unfolding xy by (metis lo hi)
qed simp

lemma unat_u8: "n < 256 \<Longrightarrow> unat (of_nat n :: u8) = n"
  by (simp add: unsigned_of_nat take_bit_eq_mod)

lemma first_event_decoded:
  "v < 6 \<Longrightarrow> decode_threepacked (unat (of_nat (v * 36) :: u8)) 0 = v"
  "f < 4 \<Longrightarrow> decode_fourpacked (unat (of_nat (f * 64) :: u8)) 0 = f"
  by (subst unat_u8; simp add: three.dec four.dec)+

lemma nth_event:
  "i = length pre + 6 + length fv + j \<Longrightarrow> j < length ev \<Longrightarrow> (pre @ message ty l (lv # n # fv @ ev) @ suf) ! i = ev ! j"
  using nth_message(2) [of "2 + length fv + j" "lv # n # fv @ ev" ty l] by (simp add: nth_append)

text \<open>C4: a Talker Advertise declaration means to the receiver what the sender declared. Building a fresh message
  for a talker attribute and encoding event \<open>v\<close> succeeds whenever 34 bytes are left in the send
  buffer; from the bytes written, a receiver reads the same stream identifier, the same event and
  the same stream parameters (the VLAN of the domain where the reservation has none).\<close>

theorem talker_declaration_round_trip:
  assumes "send_ptr s + 34 \<le> length (send_buf s)" and "st < length (attrs s)"
    and "attribute_type (attrs s ! st) = MSRP_TALKER_ADVERTISE"
    and "attribute_info (attrs s ! st) = InfoStream k" and "k < length (stream_table s)"
    and "r = reservation (stream_table s ! k)" and "length (dest_mac_addr r) = 6" and "v < 6"
  shows "\<exists>u sid. (do { s' \<leftarrow> create_empty_msg MSRP_TALKER_ADVERTISE False s; encode_msg (send_ptr s) st v s' }) = Some (True, u)
     \<and> send_ptr u = send_ptr s + 34 \<and> take (send_ptr s) (send_buf u) = take (send_ptr s) (send_buf s)
     \<and> attribute_list_length (send_buf u) (send_ptr s) = Some 30
     \<and> read_block (send_buf u) (send_ptr s + 6) 8 = Some sid \<and> ntoh64 sid = stream_id64 (stream_id r)
     \<and> decode_threepacked (unat (send_buf u ! (send_ptr s + 31))) 0 = v
     \<and> talker_parameters (send_buf u) (send_ptr s + 6) 0 q =
         Some (q\<lparr>vlan_id := (if vlan_id r \<noteq> 0 then vlan_id r else ucast (current_vlan_id_from_domain s)),
           dest_mac_addr := dest_mac_addr r, tspec_max_frame_size := tspec_max_frame_size r,
           tspec_max_interval := tspec_max_interval r, tspec := tspec r, accumulated_latency := accumulated_latency r\<rparr>)"
proof -
  obtain pre w suf where b: "send_buf s = pre @ w @ suf" "length pre = send_ptr s" "length w = 34"
    by (rule buffer_window [OF assms(1)])
  define vid where "vid = (if vlan_id r \<noteq> 0 then vlan_id r else ucast (current_vlan_id_from_domain s))"
  obtain u where u: "do { s' \<leftarrow> create_empty_msg MSRP_TALKER_ADVERTISE False s; encode_msg (length pre) st v s' } = Some (True, u)"
    "building s pre 1 25 (0 # 1 # talker_value r vid @ [of_nat (v * 36)]) suf u"
    using talker_announced [OF b(1,3) b(2) [symmetric] assms(2-7), of v, folded vid_def] by (auto simp: tot_def)
  let ?b = "pre @ message 1 25 (0 # 1 # talker_value r vid @ [of_nat (v * 36)]) @ suf"
  have sb: "send_buf u = ?b" "send_ptr u = length pre + 34" using u(2) assms(7) by (simp_all add: building_def)
  have "read_block ?b (length pre + 6 + 0) 8 = Some (sid_bytes (stream_id r))"
    using assms(7) by (subst read_value) (simp_all add: talker_value_def)
  moreover have "attribute_list_length ?b (length pre) = Some 30"
    using list_length_message [of "0 # 1 # talker_value r vid @ [of_nat (v * 36)]" pre 1 25 suf] assms(7) by simp
  moreover have "?b ! (length pre + 31) = of_nat (v * 36)"
    by (subst nth_event [where j = 0]) (use assms(7) in simp_all)
  ultimately show ?thesis
    using u(1) talker_value_read [OF assms(7), of pre 1 25 0 1 vid "[of_nat (v * 36)]" suf q] first_event_decoded(1) [OF assms(8)] b(1)
    unfolding b(2) [symmetric] vid_def [symmetric] by (auto simp: sb simp del: of_nat_mult)
qed


text \<open>A device with one attribute of the given type for the only entry of its stream table.\<close>

definition one_stream :: "mrp_attribute_type \<Rightarrow> ms" where
  "one_stream t = (boot_memory 1 1 1 1 (\<lambda>i. 0))\<lparr>attrs := [zero_attr\<lparr>attribute_type := t, attribute_info := InfoStream 0\<rparr>]\<rparr>"

lemma one_stream_fields:
  "send_ptr (one_stream t) = 15" "length (send_buf (one_stream t)) = 500"
  "attrs (one_stream t) = [zero_attr\<lparr>attribute_type := t, attribute_info := InfoStream 0\<rparr>]"
  "stream_table (one_stream t) = [zero_stream_entry 1]" "srp_domain_boundary_port (one_stream t) = [False]"
  "current_vlan_id_from_domain (one_stream t) = 0"
  by (simp_all add: one_stream_def boot_memory_def ETH_HDR_def MRP_HDR_def MRP_SEND_BUFFER_SIZE_def)

theorem talker_declaration_round_trip_witness:
  "\<exists>u sid. (do { s' \<leftarrow> create_empty_msg MSRP_TALKER_ADVERTISE False (one_stream MSRP_TALKER_ADVERTISE);
       encode_msg 15 0 3 s' }) = Some (True, u)
     \<and> read_block (send_buf u) 21 8 = Some sid \<and> ntoh64 sid = 0
     \<and> decode_threepacked (unat (send_buf u ! 46)) 0 = 3"
  using talker_declaration_round_trip [of "one_stream MSRP_TALKER_ADVERTISE" 0 0 zero_srp_info 3 zero_srp_info]
  by (auto simp: one_stream_fields zero_attr_def zero_stream_entry_def zero_srp_info_def stream_id64_def)

text \<open>C5: the same for a Listener declaration, which carries a four-packed event as well: the receiver recognises it for exactly
  the attributes of that stream, and decodes the event and the declaration type, which is Ready
  only while the talker is known, its reservation has not failed and the port is inside the SRP domain.\<close>

theorem listener_declaration_round_trip:
  assumes "send_ptr s + 18 \<le> length (send_buf s)" and "st < length (attrs s)"
    and "attribute_type (attrs s ! st) = MSRP_LISTENER"
    and "attribute_info (attrs s ! st) = InfoStream k" and "k < length (stream_table s)"
    and "port_num (attrs s ! st) < length (srp_domain_boundary_port s)" and "v < 6"
    and "j < length (attrs t)" and "attribute_info (attrs t ! j) = InfoStream m" and "m < length (stream_table t)"
    and "four = declared_four (stream_table s ! k) (srp_domain_boundary_port s ! port_num (attrs s ! st))"
  shows "\<exists>u. (do { s' \<leftarrow> create_empty_msg MSRP_LISTENER False s; encode_msg (send_ptr s) st v s' }) = Some (True, u)
     \<and> send_ptr u = send_ptr s + 18 \<and> take (send_ptr s) (send_buf u) = take (send_ptr s) (send_buf s)
     \<and> attribute_list_length (send_buf u) (send_ptr s) = Some 14
     \<and> decode_threepacked (unat (send_buf u ! (send_ptr s + 14))) 0 = v
     \<and> decode_fourpacked (unat (send_buf u ! (send_ptr s + 15))) 0 = four
     \<and> avb_srp_match_listener j (send_buf u) (send_ptr s + 6) 0 four t =
         Some (stream_id (reservation (stream_table t ! m)) = stream_id (reservation (stream_table s ! k)))"
proof -
  obtain pre w suf where b: "send_buf s = pre @ w @ suf" "length pre = send_ptr s" "length w = 18"
    by (rule buffer_window [OF assms(1)])
  let ?sid = "stream_id (reservation (stream_table s ! k))"
  let ?body = "0 # 1 # sid_bytes ?sid @ [of_nat (v * 36), of_nat (four * 64)]"
  let ?b = "pre @ message 3 8 ?body @ suf"
  obtain u where u: "do { s' \<leftarrow> create_empty_msg MSRP_LISTENER False s; encode_msg (length pre) st v s' } = Some (True, u)"
    "building s pre 3 8 ?body suf u"
    using listener_announced [OF b(1,3) b(2) [symmetric] assms(2-6), of v, folded assms(11)] by (auto simp: tot_def)
  have sb: "send_buf u = ?b" "send_ptr u = length pre + 18" using u(2) by (simp_all add: building_def)
  have f: "four = 1 \<or> four = 2"
    by (simp add: assms(11) declared_four_def AVB_SRP_FOUR_PACKED_EVENT_READY_def AVB_SRP_FOUR_PACKED_EVENT_ASKING_FAILED_def)
  then have ig: "four \<noteq> AVB_SRP_FOUR_PACKED_EVENT_IGNORE" by (auto simp: AVB_SRP_FOUR_PACKED_EVENT_IGNORE_def)
  have "read_block ?b (length pre + 6 + 0) 8 = Some (sid_bytes ?sid)"
    by (subst read_value) simp_all
  then have "avb_srp_match_listener j ?b (length pre + 6) 0 four t = Some (stream_id (reservation (stream_table t ! m)) = ?sid)"
    using ig assms(8-10) by (simp add: avb_srp_match_listener_def stream_id_of_def stream_of_def stream_id64_inj)
  moreover have "attribute_list_length ?b (length pre) = Some 14"
    using list_length_message [of ?body pre 3 8 suf] by simp
  moreover have "?b ! (length pre + 14) = of_nat (v * 36)" by (subst nth_event [where j = 0]) simp_all
  moreover have "?b ! (length pre + 15) = of_nat (four * 64)" by (subst nth_event [where j = 1]) simp_all
  moreover have "decode_fourpacked (unat (of_nat (four * 64) :: u8)) 0 = four"
    by (rule first_event_decoded(2)) (use f in auto)
  ultimately show ?thesis
    using u(1) first_event_decoded(1) [OF assms(7)] b(1)
    unfolding b(2) [symmetric] by (intro exI [of _ u]) (simp add: sb del: of_nat_mult)
qed

theorem listener_declaration_round_trip_witness:
  "\<exists>u. (do { s' \<leftarrow> create_empty_msg MSRP_LISTENER False (one_stream MSRP_LISTENER); encode_msg 15 0 1 s' }) = Some (True, u)
     \<and> avb_srp_match_listener 0 (send_buf u) 21 0 1 (one_stream MSRP_LISTENER) = Some True"
  using listener_declaration_round_trip [of "one_stream MSRP_LISTENER" 0 0 1 0 "one_stream MSRP_LISTENER" 0 1]
  by (auto simp: one_stream_fields zero_attr_def zero_stream_entry_def declared_four_def AVB_SRP_FOUR_PACKED_EVENT_ASKING_FAILED_def)

text \<open>C22: a Domain declaration carries the VLAN: a receiver that gets the one this device
  sends recognises the class and priority and adopts the low 16 bits of the sender's VLAN identifier.\<close>

theorem domain_declaration_round_trip:
  assumes "send_ptr s + 13 \<le> length (send_buf s)" and "st < length (attrs s)"
    and "attribute_type (attrs s ! st) = MSRP_DOMAIN_VECTOR" and "v < 6"
  shows "\<exists>u. (do { s' \<leftarrow> create_empty_msg MSRP_DOMAIN_VECTOR False s; encode_msg (send_ptr s) st v s' }) = Some (True, u)
     \<and> send_ptr u = send_ptr s + 13
     \<and> decode_threepacked (unat (send_buf u ! (send_ptr s + 10))) 0 = v
     \<and> avb_srp_match_domain j (send_buf u) (send_ptr s + 6) 0 t =
         Some (True, t\<lparr>current_vlan_id_from_domain := take_bit 16 (current_vlan_id_from_domain s)\<rparr>)"
proof -
  obtain pre w suf where b: "send_buf s = pre @ w @ suf" "length pre = send_ptr s" "length w = 13"
    by (rule buffer_window [OF assms(1)])
  let ?x = "current_vlan_id_from_domain s"
  define fv where "fv = [AVB_SRP_SRCLASS_DEFAULT, AVB_SRP_TSPEC_PRIORITY_DEFAULT, ucast (drop_bit 8 ?x AND 0xff), ucast (?x AND 0xff)]"
  let ?b = "pre @ message 4 4 (0 # 1 # fv @ [of_nat (v * 36)]) @ suf"
  obtain u where u: "do { s' \<leftarrow> create_empty_msg MSRP_DOMAIN_VECTOR False s; encode_msg (length pre) st v s' } = Some (True, u)"
    "building s pre 4 4 (0 # 1 # fv @ [of_nat (v * 36)]) suf u"
    using domain_announced [OF b(1,3) b(2) [symmetric] assms(2,3), of v, folded fv_def] by (auto simp: tot_def)
  have sb: "send_buf u = ?b" "send_ptr u = length pre + 13" using u(2) by (simp_all add: building_def fv_def)
  have v: "ucast (ntoh_16 (ucast (drop_bit 8 ?x AND 0xff), ucast (?x AND 0xff))) = take_bit 16 ?x"
    unfolding ntoh_16_def mask8_ucast by (rule bit_word_eqI) (auto simp: bit_simps)
  have n: "length fv = 4" "fv ! 0 = AVB_SRP_SRCLASS_DEFAULT" "fv ! Suc 0 = AVB_SRP_TSPEC_PRIORITY_DEFAULT"
    "fv ! 2 = ucast (drop_bit 8 ?x AND 0xff)" "fv ! 3 = ucast (?x AND 0xff)"
    by (simp_all add: fv_def)
  have z: "(message 4 4 (0 # 1 # fv @ ev) @ suf) ! 6 = fv ! 0" for ev
    using nth_value [of "[]" 6 fv] by (simp add: n)
  have "avb_srp_match_domain j ?b (length pre + 6) 0 t = Some (True, t\<lparr>current_vlan_id_from_domain := take_bit 16 ?x\<rparr>)"
    using v by (simp add: avb_srp_match_domain_def rd16_def nth_value z n del: mask8_ucast)
  moreover have "?b ! (length pre + 10) = of_nat (v * 36)" by (subst nth_event [where j = 0]) (simp_all add: n)
  ultimately show ?thesis
    using u(1) first_event_decoded(1) [OF assms(4)]
    unfolding b(2) [symmetric] by (intro exI [of _ u]) (simp add: sb del: of_nat_mult)
qed

theorem domain_declaration_round_trip_witness:
  "\<exists>u. (do { s' \<leftarrow> create_empty_msg MSRP_DOMAIN_VECTOR False (one_stream MSRP_DOMAIN_VECTOR); encode_msg 15 0 1 s' }) = Some (True, u)
     \<and> avb_srp_match_domain 0 (send_buf u) 21 0 (one_stream MSRP_LISTENER) =
        Some (True, (one_stream MSRP_LISTENER)\<lparr>current_vlan_id_from_domain := 0\<rparr>)"
  using domain_declaration_round_trip [of "one_stream MSRP_DOMAIN_VECTOR" 0 1 0 "one_stream MSRP_LISTENER"]
  by (auto simp: one_stream_fields zero_attr_def)

section \<open>Room in the send buffer\<close>

lemma fv_lengths: "t \<noteq> MSRP_TALKER_FAILED \<Longrightarrow> first_value_lengths t \<le> 25"
  by (cases t) simp_all

lemma create_fits:
  assumes "buf_ok s" and "send_ptr s + (first_value_lengths t + 8) \<le> MRP_SEND_BUFFER_SIZE"
  shows "\<exists>u. create_empty_msg t la s = Some u \<and> send_ptr u = send_ptr s + (first_value_lengths t + 8)
     \<and> current_etype u = current_etype s \<and> length (send_buf u) = length (send_buf s)"
proof -
  have "send_ptr s + (first_value_lengths t + 8) \<le> length (send_buf s)" using assms by (simp add: buf_ok_def)
  then obtain pre w suf where b: "send_buf s = pre @ w @ suf" "length pre = send_ptr s" "length w = first_value_lengths t + 8"
    by (rule buffer_window)
  with create_empty_message [OF b(1) b(2) [symmetric], of t la] show ?thesis by simp
qed

lemma create_overflows:
  assumes "buf_ok s" and "MRP_SEND_BUFFER_SIZE < send_ptr s + (first_value_lengths t + 8)"
  shows "create_empty_msg t la s = None"
  using assms
  by (simp add: create_empty_msg_def put_bytes_def copy_in_def buf_ok_def Let_def MSG_HDR_def VEC_HDR_def FOOTER_def)

lemma force_send_srp:
  assumes "buf_ok s" and "current_etype s = int AVB_SRP_ETHERTYPE"
  shows "force_send i s =
     (if send_ptr s = body_start then Some (s\<lparr>send_ptr := body_start\<rparr>)
      else if frame_end (send_ptr s) \<le> MRP_SEND_BUFFER_SIZE then
        (let b = take (send_ptr s) (send_buf s) @ replicate (frame_end (send_ptr s) - send_ptr s) 0
               @ drop (frame_end (send_ptr s)) (send_buf s)
         in Some (s\<lparr>send_buf := b, tx_log := tx_log s @ [(take (frame_end (send_ptr s)) b, i)], send_ptr := body_start\<rparr>))
      else None)"
proof -
  have e: "send_ptr s < frame_end (send_ptr s)" by (simp add: frame_end_def)
  have "strip_attribute_list_length_fields s = Some s"
    by (simp add: strip_attribute_list_length_fields_def assms(2))
  then show ?thesis
    unfolding force_send_def Let_def frame_end_def [symmetric]
    using assms(1) e by (simp add: put_bytes_def copy_in_def read_block_def buf_ok_def)
qed



text \<open>C20: after \<open>mrp_send\<close> a message fits. From any fill level that can still be sent, it leaves
  enough room to create an empty message of every attribute type but Talker Failed.\<close>

theorem mrp_send_makes_room:
  assumes "buf_ok s" and "current_etype s = int AVB_SRP_ETHERTYPE" and "send_ptr s \<le> 496" and "t \<noteq> MSRP_TALKER_FAILED"
  shows "\<exists>u. mrp_send i s = Some u \<and> buf_ok u
     \<and> (\<exists>v. create_empty_msg t la u = Some v \<and> send_ptr v < MRP_SEND_BUFFER_SIZE)"
proof -
  have "\<exists>u. mrp_send i s = Some u \<and> buf_ok u \<and> send_ptr u + 34 \<le> MRP_SEND_BUFFER_SIZE"
  proof (cases "MRP_SEND_BUFFER_SIZE < send_ptr s + MAX_MRP_MSG_SIZE + FOOTER")
    case True
    have "frame_end (send_ptr s) \<le> MRP_SEND_BUFFER_SIZE" "send_ptr s \<le> frame_end (send_ptr s)"
      using assms(3) by (simp_all add: frame_end_def MRP_SEND_BUFFER_SIZE_def)
    then show ?thesis
      using True assms(1,2) by (auto simp: mrp_send_def force_send_srp Let_def buf_ok_def body_start_def ETH_HDR_def MRP_HDR_def MRP_SEND_BUFFER_SIZE_def)
  next
    case False
    then show ?thesis using assms(1) by (simp add: mrp_send_def MAX_MRP_MSG_SIZE_def MSG_HDR_def FOOTER_def)
  qed
  then obtain u where u: "mrp_send i s = Some u" "buf_ok u" "send_ptr u + 34 \<le> MRP_SEND_BUFFER_SIZE" by blast
  then show ?thesis using create_fits [of u t la] fv_lengths [OF assms(4)] by fastforce
qed

theorem mrp_send_makes_room_witness:
  "\<exists>u. mrp_send 0 ((one_stream MSRP_LISTENER)\<lparr>current_etype := 0x22ea, send_ptr := 480\<rparr>) = Some u \<and> buf_ok u"
  using mrp_send_makes_room [of "(one_stream MSRP_LISTENER)\<lparr>current_etype := 0x22ea, send_ptr := 480\<rparr>" MSRP_LISTENER 0]
  by (auto simp: one_stream_fields buf_ok_def body_start_def ETH_HDR_def MRP_HDR_def MRP_SEND_BUFFER_SIZE_def AVB_SRP_ETHERTYPE_def)

text \<open>C28: the room \<open>mrp_send\<close> leaves is not enough at the end of the buffer. With 459 to 466 bytes built it does
  not flush, yet a Talker Failed message would be stored beyond the buffer; with 464 to 466 bytes a
  Talker Advertise message still fits, but sending the result stores the padding beyond the buffer.\<close>

theorem send_buffer_overflow:
  assumes "buf_ok s" and "current_etype s = int AVB_SRP_ETHERTYPE" and "459 \<le> send_ptr s" and "send_ptr s \<le> 466"
  shows "mrp_send i s = Some s \<and> create_empty_msg MSRP_TALKER_FAILED la s = None
     \<and> (send_ptr s \<ge> 464 \<longrightarrow> (\<exists>u. create_empty_msg MSRP_TALKER_ADVERTISE la s = Some u \<and> mrp_send i u = None))"
proof (intro conjI impI)
  show "mrp_send i s = Some s"
    using assms(4) by (simp add: mrp_send_def MAX_MRP_MSG_SIZE_def MSG_HDR_def FOOTER_def MRP_SEND_BUFFER_SIZE_def)
  show "create_empty_msg MSRP_TALKER_FAILED la s = None"
    using assms by (intro create_overflows) (simp_all add: MRP_SEND_BUFFER_SIZE_def)
  assume p: "464 \<le> send_ptr s"
  obtain u where u: "create_empty_msg MSRP_TALKER_ADVERTISE la s = Some u" "send_ptr u = send_ptr s + 33"
    "current_etype u = current_etype s" "buf_ok u"
    using create_fits [OF assms(1), of MSRP_TALKER_ADVERTISE la] assms by (auto simp: MRP_SEND_BUFFER_SIZE_def buf_ok_def)
  have "mrp_send i u = None"
    using u p assms
    by (simp add: mrp_send_def force_send_srp frame_end_def MRP_SEND_BUFFER_SIZE_def MAX_MRP_MSG_SIZE_def body_start_def ETH_HDR_def MRP_HDR_def)
  with u show "\<exists>u. create_empty_msg MSRP_TALKER_ADVERTISE la s = Some u \<and> mrp_send i u = None" by blast
qed

theorem send_buffer_overflow_witness:
  "create_empty_msg MSRP_TALKER_FAILED False ((one_stream MSRP_LISTENER)\<lparr>current_etype := 0x22ea, send_ptr := 465\<rparr>) = None"
  using send_buffer_overflow [of "(one_stream MSRP_LISTENER)\<lparr>current_etype := 0x22ea, send_ptr := 465\<rparr>" 0 False]
  by (auto simp: one_stream_fields buf_ok_def body_start_def ETH_HDR_def MRP_HDR_def MRP_SEND_BUFFER_SIZE_def AVB_SRP_ETHERTYPE_def)

end
