(* ===== verification/Avb_Util.thy ===== *)
theory Avb_Util
  imports Tsn_Prelude "HOL-Library.Signed_Division"
begin

text \<open>
  Text conversion of numbers, \<^verbatim>\<open>src/util/avb_util.c\<close>, and the two numeric helpers of
  \<^verbatim>\<open>src/1722_1/avb_1722_1_common.c\<close>. A \<^verbatim>\<open>char *\<close> into a buffer is the buffer together with an
  offset. The C \<open>int\<close>s are mathematical integers, reduced where the code converts to a narrower
  type; loops whose end depends on the arguments are partial functions into \<open>option\<close>.

  The digits written by \<open>avb_itoa\<close> are related to the base-\<open>b\<close> numeral \<open>numeral_of\<close>, whose
  value is read back by \<open>numeral_val\<close>.
\<close>

section \<open>Model\<close>

definition digits :: string where
  "digits = ''0123456789ABCDEF'' @ [CHR 0x00]"

function reverse_loop :: "string \<Rightarrow> nat \<Rightarrow> int \<Rightarrow> int \<Rightarrow> string option" where
  "reverse_loop buf p begin_ix end_ix =
     (if begin_ix < end_ix then do {
        tmp \<leftarrow> rd buf (p + nat begin_ix);
        x \<leftarrow> rd buf (p + nat end_ix);
        buf \<leftarrow> wr buf (p + nat begin_ix) x;
        buf \<leftarrow> wr buf (p + nat end_ix) tmp;
        reverse_loop buf p (begin_ix + 1) (end_ix - 1)
      } else Some buf)"
  by pat_completeness auto
termination
  by (relation "measure (\<lambda>(_, _, b, e). nat (e - b))") auto

definition reverse_array :: "string \<Rightarrow> nat \<Rightarrow> nat \<Rightarrow> string option" where
  "reverse_array buf p size' = reverse_loop buf p 0 (int size' - 1)"

partial_function (option) itoa_digits ::
    "int \<Rightarrow> string \<Rightarrow> nat \<Rightarrow> nat \<Rightarrow> int \<Rightarrow> int \<Rightarrow> (string \<times> nat \<times> int) option" where
  "itoa_digits n buf p i base fill =
     (if n > 0 then
        (if base = 0 then None
         else do {
           d \<leftarrow> rd digits (nat (n smod base));
           buf \<leftarrow> wr buf (p + i) d;
           itoa_digits (n sdiv base) buf p (i + 1) base (fill - 1)
         })
      else Some (buf, i, fill))"

function itoa_fill :: "string \<Rightarrow> nat \<Rightarrow> nat \<Rightarrow> int \<Rightarrow> (string \<times> nat) option" where
  "itoa_fill buf p i fill =
     (if fill > 0 then do {
        buf \<leftarrow> wr buf (p + i) (CHR ''0'');
        itoa_fill buf p (i + 1) (fill - 1)
      } else Some (buf, i))"
  by pat_completeness auto
termination
  by (relation "measure (\<lambda>(_, _, _, f). nat f)") auto

definition avb_itoa :: "int \<Rightarrow> string \<Rightarrow> nat \<Rightarrow> int \<Rightarrow> int \<Rightarrow> (string \<times> nat) option" where
  "avb_itoa n buf p base fill = do {
     (buf, i, fill) \<leftarrow> itoa_digits n buf p 0 base fill;
     (buf, i) \<leftarrow> itoa_fill buf p i fill;
     buf \<leftarrow> reverse_array buf p i;
     Some (buf, i)
   }"

definition to_int32 :: "int \<Rightarrow> int" where
  "to_int32 x = signed_take_bit 31 x"

definition fits64 :: "int \<Rightarrow> bool" where
  "fits64 x \<longleftrightarrow> - (2 ^ 63) \<le> x \<and> x < 2 ^ 63"

fun scale_up :: "nat \<Rightarrow> int \<Rightarrow> int \<Rightarrow> int option" where
  "scale_up 0 base x = Some x"
| "scale_up (Suc k) base x = (if fits64 (x * base) then scale_up k base (x * base) else None)"

definition avb_itoa_fixed ::
    "int \<Rightarrow> string \<Rightarrow> nat \<Rightarrow> int \<Rightarrow> int \<Rightarrow> int \<Rightarrow> nat \<Rightarrow> (string \<times> nat) option" where
  "avb_itoa_fixed n buf p base fill1 fill2 prec =
     (if prec \<ge> 64 \<or> n = - (2 ^ 31) then None
      else do {
        (buf, x) \<leftarrow> (if n < 0 then do { buf \<leftarrow> wr buf p (CHR ''-''); Some (buf, - n) }
                      else do { buf \<leftarrow> wr buf p (CHR '' ''); Some (buf, n) });
        let q = p + 1;
        (buf, k) \<leftarrow> avb_itoa (to_int32 (drop_bit prec x)) buf q base fill1;
        let q = q + k;
        buf \<leftarrow> wr buf q (CHR ''.'');
        let q = q + 1;
        x \<leftarrow> scale_up (nat fill2) base (x - push_bit prec (drop_bit prec x));
        (buf, k) \<leftarrow> avb_itoa (to_int32 (drop_bit prec x)) buf q base fill2;
        Some (buf, q + k - p)
      })"

text \<open>
  \<open>avb_atoi\<close> on the NUL-terminated text at offset \<open>p0\<close> of a buffer. The three scans are separate:
  forward over the digits, back to \<open>p0\<close> accumulating, and forward again from one position
  before \<open>p0\<close>. Pointers are integers because the last scan starts at \<open>p0 - 1\<close>.
\<close>

definition rd_at :: "string \<Rightarrow> int \<Rightarrow> char option" where
  "rd_at buf q = (if q < 0 then None else rd buf (nat q))"

definition is_digit :: "char \<Rightarrow> bool" where
  "is_digit c \<longleftrightarrow> of_char (CHR ''0'') \<le> (of_char c :: nat) \<and> (of_char c :: nat) \<le> of_char (CHR ''9'')"

partial_function (option) skip_digits :: "string \<Rightarrow> int \<Rightarrow> int option" where
  "skip_digits buf q = do {
     c \<leftarrow> rd_at buf q;
     if is_digit c then skip_digits buf (q + 1) else Some q
   }"

function atoi_back :: "string \<Rightarrow> int \<Rightarrow> int \<Rightarrow> int \<Rightarrow> (int \<times> int) option" where
  "atoi_back buf p0 q x =
     (if q \<ge> p0 then do {
        c \<leftarrow> rd_at buf q;
        atoi_back buf p0 (q - 1) (x * 10 + (of_char c - of_char (CHR ''0'')))
      } else Some (q, x))"
  by pat_completeness auto
termination
  by (relation "measure (\<lambda>(_, p0, q, _). nat (q - p0 + 1))") auto

definition avb_atoi :: "string \<Rightarrow> nat \<Rightarrow> (int \<times> int) option" where
  "avb_atoi buf p0 = do {
     c \<leftarrow> rd buf p0;
     let (q, sign) = (if c = CHR ''-'' then (int p0 + 1, - 1) else (int p0, 1));
     q \<leftarrow> skip_digits buf q;
     (q, x) \<leftarrow> atoi_back buf (int p0) (q - 1) 0;
     let x = x * sign;
     q \<leftarrow> skip_digits buf q;
     Some (q, x)
   }"

definition compare_guid :: "bytes \<Rightarrow> bytes \<Rightarrow> bool option" where
  "compare_guid a c = do {
     r \<leftarrow> for_each [0..<8] (\<lambda>i same.
            if same then do { x \<leftarrow> rd a i; y \<leftarrow> rd c (7 - i); Some (x = y) } else Some False) True;
     Some r
   }"

partial_function (option) qlog2_loop :: "u32 \<Rightarrow> int \<Rightarrow> (u32 \<times> int) option" where
  "qlog2_loop n l = (if n AND 1 = 0 then qlog2_loop (drop_bit 1 n) (l + 1) else Some (n, l))"

definition qlog2 :: "u32 \<Rightarrow> int option" where
  "qlog2 n = (if n = 0 then Some (- 1)
     else do {
       (n, l) \<leftarrow> qlog2_loop n 0;
       if drop_bit 1 n \<noteq> 0 then Some (- 1) else Some l
     })"

section \<open>Reversal\<close>

declare reverse_loop.simps [simp del] itoa_fill.simps [simp del] atoi_back.simps [simp del]

text \<open>Reversing in place a window that is itself surrounded by other bytes of the buffer.\<close>

lemma reverse_loop_window:
  "reverse_loop (xs @ ys @ zs) p (int b) (int b + int (length ys) - 1)
     = Some (xs @ rev ys @ zs)" if "length xs = p + b"
  using that
proof (induction "length ys" arbitrary: xs ys zs b rule: less_induct)
  case less
  show ?case
  proof (cases "length ys < 2")
    case True
    then have "rev ys = ys" by (cases ys; cases "tl ys"; auto)
    with True show ?thesis by (simp add: reverse_loop.simps)
  next
    case False
    then obtain y ms w where ys: "ys = y # ms @ [w]"
      by (metis One_nat_def append_butlast_last_id le_less_linear length_0_conv length_Cons
          less_2_cases_iff list.exhaust list.size(3) not_less_iff_gr_or_eq)
    let ?xs = "xs @ [w]" and ?zs = "y # zs"
    have step: "reverse_loop (xs @ ys @ zs) p (int b) (int b + int (length ys) - 1)
        = reverse_loop (?xs @ ms @ ?zs) p (int b + 1) (int b + int (length ms))"
      using less.prems
      by (subst reverse_loop.simps) (simp add: ys nat_add_distrib nth_append list_update_append)
    have "reverse_loop (?xs @ ms @ ?zs) p (int (b + 1)) (int (b + 1) + int (length ms) - 1)
        = Some (?xs @ rev ms @ ?zs)"
      by (rule less.hyps) (simp_all add: ys less.prems)
    with step show ?thesis by (simp add: ys algebra_simps)
  qed
qed

section \<open>Printing\<close>

text \<open>The numeral of \<open>n\<close> in base \<open>b\<close>, most significant digit first; zero has no digits.\<close>

function numeral_of :: "nat \<Rightarrow> nat \<Rightarrow> string" where
  "numeral_of b n = (if n = 0 \<or> b < 2 then [] else numeral_of b (n div b) @ [digits ! (n mod b)])"
  by pat_completeness auto
termination
  by (relation "measure snd") auto

declare numeral_of.simps [simp del]

definition padded :: "nat \<Rightarrow> int \<Rightarrow> string \<Rightarrow> string" where
  "padded b fill ds = replicate (nat (fill - int (length ds))) (CHR ''0'') @ ds"

definition digit_val :: "char \<Rightarrow> nat" where
  "digit_val c = (let x = of_char c in if x \<le> 57 then x - 48 else x - 55)"

definition numeral_val :: "nat \<Rightarrow> string \<Rightarrow> nat" where
  "numeral_val b ds = foldl (\<lambda>v c. v * b + digit_val c) 0 ds"

lemma digits_length [simp]: "length digits = 17"
  by (simp add: digits_def)

lemma digit_val_digits: "d < 16 \<Longrightarrow> digit_val (digits ! d) = d"
proof -
  have "\<forall>d < 16. digit_val (digits ! d) = d" by code_simp
  then show "d < 16 \<Longrightarrow> ?thesis" by simp
qed

lemma numeral_val_snoc: "numeral_val b (ds @ [c]) = numeral_val b ds * b + digit_val c"
  by (simp add: numeral_val_def)

lemma numeral_val_of:
  assumes "2 \<le> b" and "b \<le> 16"
  shows "numeral_val b (numeral_of b n) = n"
proof (induction n rule: less_induct)
  case (less n)
  show ?case
  proof (cases "n = 0")
    case True then show ?thesis by (simp add: numeral_of.simps numeral_val_def)
  next
    case False
    then have "n div b < n" using assms by simp
    moreover have "n mod b < 16" using mod_less_divisor [of b n] assms by linarith
    ultimately show ?thesis using less False assms
      by (subst numeral_of.simps) (simp add: numeral_val_snoc digit_val_digits)
  qed
qed

lemma numeral_val_padded: "numeral_val b (padded b fill ds) = numeral_val b ds"
proof -
  have "foldl (\<lambda>v c. v * b + digit_val c) 0 (replicate k (CHR ''0'')) = 0" for k
    by (induction k) (simp_all add: digit_val_def)
  then show ?thesis by (simp add: numeral_val_def padded_def)
qed

lemma itoa_digits_window:
  assumes "2 \<le> b" and "b \<le> 16" and "length xs = p + i" and "length (numeral_of b n) \<le> length ys"
  shows "itoa_digits (int n) (xs @ ys) p i (int b) fill =
     Some (xs @ rev (numeral_of b n) @ drop (length (numeral_of b n)) ys,
           i + length (numeral_of b n), fill - int (length (numeral_of b n)))"
  using assms
proof (induction n arbitrary: xs ys i fill rule: less_induct)
  case (less n)
  show ?case
  proof (cases "n = 0")
    case True then show ?thesis by (simp add: itoa_digits.simps numeral_of.simps)
  next
    case False
    let ?d = "digits ! (n mod b)" and ?ds = "numeral_of b (n div b)"
    have nu: "numeral_of b n = ?ds @ [?d]" using False less.prems by (subst numeral_of.simps) simp
    then obtain y yt where ys: "ys = y # yt" using less.prems(4) by (cases ys) auto
    have lt: "n div b < n" and md: "n mod b < 17"
      using False less.prems(1,2) by (simp_all add: order.strict_trans2 [OF mod_less_divisor])
    have sd: "int n smod int b = int (n mod b)" "int n sdiv int b = int (n div b)"
      by (simp_all add: signed_modulo_int_def signed_divide_int_def zdiv_int zmod_int sgn_if)
    have "itoa_digits (int n) (xs @ ys) p i (int b) fill =
        itoa_digits (int (n div b)) ((xs @ [?d]) @ yt) p (i + 1) (int b) (fill - 1)"
      using False less.prems md
      by (subst itoa_digits.simps) (simp add: ys sd list_update_append)
    also have "\<dots> = Some ((xs @ [?d]) @ rev ?ds @ drop (length ?ds) yt,
        i + 1 + length ?ds, fill - 1 - int (length ?ds))"
      by (rule less.IH [OF lt]) (use less.prems nu ys in simp_all)
    finally show ?thesis by (simp add: nu ys)
  qed
qed

lemma itoa_fill_window:
  assumes "length xs = p + i" and "nat fill \<le> length ys"
  shows "itoa_fill (xs @ ys) p i fill =
     Some (xs @ replicate (nat fill) (CHR ''0'') @ drop (nat fill) ys, i + nat fill)"
  using assms
proof (induction "nat fill" arbitrary: xs ys i fill)
  case 0 then show ?case by (simp add: itoa_fill.simps)
next
  case (Suc k)
  then obtain y yt where ys: "ys = y # yt" by (cases ys) auto
  from Suc have f: "fill > 0" and k: "k = nat (fill - 1)" by auto
  have "itoa_fill ((xs @ [CHR ''0'']) @ yt) p (i + 1) (fill - 1) =
      Some ((xs @ [CHR ''0'']) @ replicate (nat (fill - 1)) (CHR ''0'') @ drop (nat (fill - 1)) yt,
        i + 1 + nat (fill - 1))"
    by (rule Suc.hyps(1) [OF k]) (use Suc.prems ys f in auto)
  moreover have "nat fill = Suc (nat (fill - 1))" using f by simp
  ultimately show ?case using f Suc.prems
    by (subst itoa_fill.simps) (simp add: ys list_update_append)
qed

lemma avb_itoa_window:
  assumes b: "2 \<le> b" "b \<le> 16" and p: "length xs = p"
    and room: "length (padded b fill (numeral_of b n)) \<le> length ys"
  shows "avb_itoa (int n) (xs @ ys) p (int b) fill =
     Some (xs @ padded b fill (numeral_of b n) @ drop (length (padded b fill (numeral_of b n))) ys,
           length (padded b fill (numeral_of b n)))"
proof -
  let ?ds = "numeral_of b n"
  let ?k = "nat (fill - int (length ?ds))"
  from room have r: "?k + length ?ds \<le> length ys" by (simp add: padded_def)
  have d: "itoa_digits (int n) (xs @ ys) p 0 (int b) fill = Some ((xs @ rev ?ds) @ drop (length ?ds) ys,
      length ?ds, fill - int (length ?ds))"
    using itoa_digits_window [OF b, of xs p 0 n ys fill] p r by simp
  have f: "itoa_fill ((xs @ rev ?ds) @ drop (length ?ds) ys) p (length ?ds) (fill - int (length ?ds))
      = Some (xs @ (rev ?ds @ replicate ?k (CHR ''0'')) @ drop (?k + length ?ds) ys, length ?ds + ?k)"
    using itoa_fill_window [of "xs @ rev ?ds" p "length ?ds" "fill - int (length ?ds)"
        "drop (length ?ds) ys"] p r by (simp add: add.commute)
  have v: "reverse_array (xs @ (rev ?ds @ replicate ?k (CHR ''0'')) @ drop (?k + length ?ds) ys) p
      (length ?ds + ?k) = Some (xs @ padded b fill ?ds @ drop (?k + length ?ds) ys)"
    using reverse_loop_window [of xs p 0 "rev ?ds @ replicate ?k (CHR ''0'')" "drop (?k + length ?ds) ys"] p
    by (simp add: reverse_array_def padded_def)
  show ?thesis using d f v by (simp add: avb_itoa_def padded_def add.commute)
qed

section \<open>Base two logarithm\<close>

lemma low_bit_clear_iff: "(n :: u32) AND 1 = 0 \<longleftrightarrow> even (unat n)"
proof -
  have "n AND 1 = 0 \<longleftrightarrow> unat (n AND 1) = 0" by (metis unat_0 unat_eq_zero)
  also have "\<dots> \<longleftrightarrow> unat n mod 2 = 0" by (simp add: and_one_eq unat_mod)
  finally show ?thesis by auto
qed

lemma qlog2_loop_factor:
  assumes "n \<noteq> 0"
  shows "\<exists>m k. qlog2_loop n l = Some (m, l + int k) \<and> odd (unat m) \<and> unat n = unat m * 2 ^ k"
  using assms
proof (induction "unat n" arbitrary: n l rule: less_induct)
  case less
  show ?case
  proof (cases "even (unat n)")
    case False
    then show ?thesis
      by (intro exI [of _ n] exI [of _ 0])
        (simp add: qlog2_loop.simps low_bit_clear_iff)
  next
    case True
    let ?h = "drop_bit 1 n"
    have h: "unat n = unat ?h * 2"
      using True by (simp add: drop_bit_Suc unat_div)
    from less.prems have "unat n > 0" by (simp add: unat_gt_0)
    with h have "unat ?h < unat n" "?h \<noteq> 0" by auto
    from less.hyps [OF this, of "l + 1"] obtain m k where
      "qlog2_loop ?h (l + 1) = Some (m, l + 1 + int k)" "odd (unat m)" "unat ?h = unat m * 2 ^ k"
      by blast
    then show ?thesis using True h
      by (intro exI [of _ m] exI [of _ "Suc k"])
        (simp add: qlog2_loop.simps [of n] low_bit_clear_iff)
  qed
qed

lemma odd_half_zero: "odd (unat m) \<Longrightarrow> drop_bit (Suc 0) m = 0 \<longleftrightarrow> unat m = 1" for m :: u32
proof -
  assume "odd (unat m)"
  have "drop_bit (Suc 0) m = 0 \<longleftrightarrow> unat (drop_bit (Suc 0) m) = 0" by (metis unat_0 unat_eq_zero)
  also have "\<dots> \<longleftrightarrow> unat m div 2 = 0" by (simp add: drop_bit_Suc unat_div)
  finally show ?thesis using \<open>odd (unat m)\<close> by (auto elim: oddE)
qed

lemma odd_power_two: "odd (m :: nat) \<Longrightarrow> m * 2 ^ k = 2 ^ j \<longleftrightarrow> m = 1 \<and> k = j"
proof
  assume m: "odd m" and e: "m * 2 ^ k = 2 ^ j"
  from e have "k \<le> j"
    by (metis dvd_triv_right nat_dvd_not_less not_less one_less_numeral_iff power_strict_increasing_iff
        semiring_norm(76) zero_less_numeral zero_less_power)
  then have "m * 2 ^ k = 2 ^ (j - k) * 2 ^ k" using e by (simp flip: power_add)
  then have "m = 2 ^ (j - k)" by simp
  with m \<open>k \<le> j\<close> show "m = 1 \<and> k = j" by (cases "j - k") auto
qed simp

section \<open>Reading\<close>

lemma rd_at_window [simp]: "rd_at (xs @ c # ys) (int (length xs)) = Some c"
  by (simp add: rd_at_def nth_append)

lemma skip_digits_window:
  assumes "\<forall>d \<in> set ds. is_digit d" and "\<not> is_digit c"
  shows "skip_digits (xs @ ds @ c # ys) (int (length xs)) = Some (int (length xs + length ds))"
  using assms(1)
proof (induction ds arbitrary: xs)
  case Nil then show ?case using assms(2) by (subst skip_digits.simps) simp
next
  case (Cons d ds)
  have "skip_digits ((xs @ [d]) @ ds @ c # ys) (int (length (xs @ [d])))
      = Some (int (length (xs @ [d]) + length ds))"
    by (rule Cons.IH) (use Cons.prems in simp)
  with Cons.prems show ?case by (subst skip_digits.simps) (simp add: add.commute)
qed

lemma digit_val_is_digit: "is_digit d \<Longrightarrow> of_char d - 48 = int (digit_val d)"
proof -
  assume "is_digit d"
  then have "48 \<le> (of_char d :: nat)" "(of_char d :: nat) \<le> 57" by (simp_all add: is_digit_def)
  moreover have "(of_char d :: int) = int (of_char d)" by (simp only: of_nat_of_char)
  ultimately show ?thesis by (simp add: digit_val_def Let_def of_nat_diff)
qed

lemma atoi_back_window:
  assumes "\<forall>d \<in> set ds. is_digit d"
  shows "atoi_back (xs @ ds @ ys) (int (length xs)) (int (length xs + length ds) - 1) (int v) =
     Some (int (length xs) - 1, int (foldl (\<lambda>v c. v * 10 + digit_val c) v (rev ds)))"
  using assms
proof (induction ds arbitrary: ys v rule: rev_induct)
  case Nil then show ?case by (simp add: atoi_back.simps)
next
  case (snoc d ds)
  have r: "rd_at (xs @ ds @ d # ys) (int (length xs) + int (length ds)) = Some d"
    using rd_at_window [of "xs @ ds" d ys] by simp
  have "atoi_back (xs @ ds @ d # ys) (int (length xs)) (int (length xs + length ds) - 1)
      (int (v * 10 + digit_val d))
    = Some (int (length xs) - 1, int (foldl (\<lambda>v c. v * 10 + digit_val c) (v * 10 + digit_val d) (rev ds)))"
    by (rule snoc.IH) (use snoc.prems in simp)
  with snoc.prems r show ?case
    by (subst atoi_back.simps) (simp add: digit_val_is_digit)
qed

section \<open>Properties\<close>

text \<open>\<open>avb_itoa\<close> on a non-negative number, a base between 2 and 16 and a buffer with room
  returns, changes only the characters it reports, writes at least \<open>fill\<close> of them, and the
  characters read back in that base as the number.\<close>

theorem avb_itoa_prints:
  assumes "2 \<le> b" and "b \<le> 16" and "length xs = p"
    and "length (padded b fill (numeral_of b n)) \<le> length ys"
  shows "\<exists>ds. avb_itoa (int n) (xs @ ys) p (int b) fill = Some (xs @ ds @ drop (length ds) ys, length ds)
     \<and> numeral_val b ds = n \<and> fill \<le> int (length ds)
     \<and> length ds = max (nat fill) (length (numeral_of b n))"
  using avb_itoa_window [OF assms]
  by (intro exI [of _ "padded b fill (numeral_of b n)"])
    (simp add: numeral_val_padded numeral_val_of assms(1,2), auto simp: padded_def)

theorem avb_itoa_prints_witness:
  "\<exists>ds. avb_itoa 42 (''ab'' @ ''......'') 2 10 4 = Some (''ab'' @ ds @ drop (length ds) ''......'', length ds)
     \<and> numeral_val 10 ds = 42"
proof -
  have n: "numeral_of 10 42 = ''42''" by (simp add: numeral_of.simps digits_def)
  show ?thesis
    using avb_itoa_prints [of 10 "''ab''" 2 4 42 "''......''"] unfolding n padded_def by auto
qed

text \<open>\<open>avb_atoi\<close> on an unsigned decimal numeral, preceded in memory by a character that is
  not a digit, yields the value of the digits in reverse order: it reads 12 as 21.\<close>

theorem avb_atoi_reverses:
  assumes "\<forall>d \<in> set (d # ds). is_digit d" and "\<not> is_digit e" and "\<not> is_digit c"
  shows "avb_atoi (xs @ e # (d # ds) @ c # ys) (length xs + 1)
     = Some (int (length xs), int (numeral_val 10 (rev (d # ds))))"
proof -
  let ?xs = "xs @ [e]" and ?ds = "d # ds"
  have b: "xs @ e # ?ds @ c # ys = ?xs @ ?ds @ c # ys" by simp
  have nd: "d \<noteq> CHR ''-''" using assms(1) by (auto simp: is_digit_def)
  have r: "rd (?xs @ ?ds @ c # ys) (length xs + 1) = Some d" by (simp add: nth_append)
  have k: "skip_digits (?xs @ ?ds @ c # ys) (int (length ?xs)) = Some (int (length ?xs + length ?ds))"
    by (rule skip_digits_window [OF assms(1,3)])
  have a: "atoi_back (?xs @ ?ds @ c # ys) (int (length ?xs)) (int (length ?xs + length ?ds) - 1) (int 0) =
     Some (int (length ?xs) - 1, int (numeral_val 10 (rev ?ds)))"
    unfolding numeral_val_def by (rule atoi_back_window [OF assms(1)])
  have l: "skip_digits (?xs @ ?ds @ c # ys) (int (length xs)) = Some (int (length xs))"
    using skip_digits_window [of "[]" e xs "?ds @ c # ys"] assms(2) by simp
  show ?thesis unfolding b
    using r k a l nd by (simp add: avb_atoi_def add.commute)
qed

theorem avb_atoi_reverses_witness: "avb_atoi ('' 12;'') 1 = Some (0, 21)"
  using avb_atoi_reverses [of "CHR ''1''" "''2''" "CHR '' ''" "CHR '';''" "[]" "[]"]
  by (simp add: is_digit_def numeral_val_def digit_val_def)

text \<open>\<open>qlog2\<close> terminates on every argument and returns the exponent of a power of two,
  and minus one on every other number.\<close>

theorem qlog2_exact:
  "\<exists>r. qlog2 n = Some r \<and> (\<forall>j. r = int j \<longleftrightarrow> unat n = 2 ^ j) \<and> r \<ge> - 1"
proof (cases "n = 0")
  case True
  then show ?thesis by (simp add: qlog2_def)
next
  case False
  from qlog2_loop_factor [OF this, of 0] obtain m k where
    r: "qlog2_loop n 0 = Some (m, int k)" "odd (unat m)" "unat n = unat m * 2 ^ k" by auto
  show ?thesis using False r odd_power_two [OF r(2)]
    by (auto simp: qlog2_def odd_half_zero)
qed

end
