(* ===== verification/Avbtp.thy ===== *)
theory Avbtp
  imports Net_Bytes
begin

text \<open>
  The headers of a stream data packet: the macros of \<^verbatim>\<open>src/1722/avb_1722_common.h\<close> for the Ethernet and AVBTP headers, those
  of \<^verbatim>\<open>avb_1722_def.h\<close> for the 61883 CIP header, and the conversion of local time to PTP time of \<^verbatim>\<open>src/ptp/gptp.xc\<close> that gives a
  packet its timestamp.

  A setter takes the offset of the header it writes to, a value and the buffer. An assignment to a byte truncates.
\<close>

section \<open>Access\<close>

definition set_byte :: "nat \<Rightarrow> u32 \<Rightarrow> bytes \<Rightarrow> bytes option" where
  "set_byte p a b = wr b p (ucast a)"

definition or_byte :: "nat \<Rightarrow> u32 \<Rightarrow> bytes \<Rightarrow> bytes option" where
  "or_byte p a b = do { x \<leftarrow> rd b p; wr b p (x OR ucast a) }"

definition put32 :: "nat \<Rightarrow> u32 \<Rightarrow> bytes \<Rightarrow> bytes option" where
  "put32 p a b = (case hton_32_inline a of (x0, x1, x2, x3) \<Rightarrow> copy_in b p [x0, x1, x2, x3])"

section \<open>Ethernet header\<close>

definition AVB_ETHERNET_HDR_SIZE :: nat where "AVB_ETHERNET_HDR_SIZE = 18"

definition AVB_TP_HDR_SIZE :: nat where "AVB_TP_HDR_SIZE = 24"

definition AVB_CIP_HDR_SIZE :: nat where "AVB_CIP_HDR_SIZE = 8"

definition AVB_TPID :: u32 where "AVB_TPID = 0x8100"

definition AVB_DEFAULT_PCP :: u32 where "AVB_DEFAULT_PCP = 3"

definition AVB_DEFAULT_CFI :: u32 where "AVB_DEFAULT_CFI = 0"

definition AVB_1722_ETHERTYPE :: u32 where "AVB_1722_ETHERTYPE = 0x22f0"

definition SET_AVBTP_PCP :: "nat \<Rightarrow> u32 \<Rightarrow> bytes \<Rightarrow> bytes option" where
  "SET_AVBTP_PCP x a = or_byte (x + 14) (push_bit 5 a)"

definition SET_AVBTP_CFI :: "nat \<Rightarrow> u32 \<Rightarrow> bytes \<Rightarrow> bytes option" where
  "SET_AVBTP_CFI x a = or_byte (x + 14) (push_bit 4 (a AND 1))"

definition SET_AVBTP_VID :: "nat \<Rightarrow> u32 \<Rightarrow> bytes \<Rightarrow> bytes option" where
  "SET_AVBTP_VID x a b = do { b \<leftarrow> or_byte (x + 14) (signed_drop_bit 8 a AND 0xf) b; set_byte (x + 15) (a AND 0xff) b }"

definition SET_AVBTP_TPID :: "nat \<Rightarrow> u32 \<Rightarrow> bytes \<Rightarrow> bytes option" where
  "SET_AVBTP_TPID x a b = do { b \<leftarrow> set_byte (x + 12) (drop_bit 8 a) b; set_byte (x + 13) (a AND 0xff) b }"

definition SET_AVBTP_ETYPE :: "nat \<Rightarrow> u32 \<Rightarrow> bytes \<Rightarrow> bytes option" where
  "SET_AVBTP_ETYPE x a b = do { b \<leftarrow> set_byte (x + 16) (drop_bit 8 a) b; set_byte (x + 17) (a AND 0xff) b }"

definition CLEAR_AVBTP_VID :: "nat \<Rightarrow> bytes \<Rightarrow> bytes option" where
  "CLEAR_AVBTP_VID x b = do { f \<leftarrow> rd b (x + 14); b \<leftarrow> wr b (x + 14) (f AND 0xf0); set_byte (x + 15) 0 b }"

section \<open>AVBTP header\<close>

definition AVBTP_CD :: "nat \<Rightarrow> bytes \<Rightarrow> u8 option" where
  "AVBTP_CD x b = do { s \<leftarrow> rd b x; Some (drop_bit 7 s) }"

definition AVBTP_SV :: "nat \<Rightarrow> bytes \<Rightarrow> u8 option" where
  "AVBTP_SV x b = do { f \<leftarrow> rd b (x + 1); Some (drop_bit 7 f) }"

definition AVBTP_VERSION :: "nat \<Rightarrow> bytes \<Rightarrow> u8 option" where
  "AVBTP_VERSION x b = do { f \<leftarrow> rd b (x + 1); Some (drop_bit 4 f AND 0x7) }"

definition AVBTP_TV :: "nat \<Rightarrow> bytes \<Rightarrow> u8 option" where
  "AVBTP_TV x b = do { f \<leftarrow> rd b (x + 1); Some (f AND 1) }"

definition AVBTP_TIMESTAMP :: "nat \<Rightarrow> bytes \<Rightarrow> u32 option" where
  "AVBTP_TIMESTAMP x b = do {
     t0 \<leftarrow> rd b (x + 12); t1 \<leftarrow> rd b (x + 13); t2 \<leftarrow> rd b (x + 14); t3 \<leftarrow> rd b (x + 15);
     Some (ntoh_32 (t0, t1, t2, t3)) }"

definition packet_data_length :: "nat \<Rightarrow> bytes \<Rightarrow> u32 option" where
  "packet_data_length x b = do {
     hi \<leftarrow> rd b (x + 20); lo \<leftarrow> rd b (x + 21); Some (push_bit 8 (ucast hi) OR ucast lo) }"

definition AVBTP_CD_DATA :: u8 where "AVBTP_CD_DATA = 0"

definition SET_AVBTP_SV :: "nat \<Rightarrow> u32 \<Rightarrow> bytes \<Rightarrow> bytes option" where
  "SET_AVBTP_SV x a = or_byte (x + 1) (push_bit 7 (a AND 1))"

definition SET_AVBTP_TV :: "nat \<Rightarrow> u32 \<Rightarrow> bytes \<Rightarrow> bytes option" where
  "SET_AVBTP_TV x a b = do { f \<leftarrow> rd b (x + 1); wr b (x + 1) (f AND NOT 1 OR ucast (a AND 1)) }"

definition SET_AVBTP_SEQUENCE_NUMBER :: "nat \<Rightarrow> u32 \<Rightarrow> bytes \<Rightarrow> bytes option" where
  "SET_AVBTP_SEQUENCE_NUMBER x a = set_byte (x + 2) (a AND 0xff)"

definition SET_AVBTP_TIMESTAMP :: "nat \<Rightarrow> u32 \<Rightarrow> bytes \<Rightarrow> bytes option" where
  "SET_AVBTP_TIMESTAMP x = put32 (x + 12)"

definition SET_AVBTP_STREAM_ID1 :: "nat \<Rightarrow> u32 \<Rightarrow> bytes \<Rightarrow> bytes option" where
  "SET_AVBTP_STREAM_ID1 x = put32 (x + 4)"

definition SET_AVBTP_STREAM_ID0 :: "nat \<Rightarrow> u32 \<Rightarrow> bytes \<Rightarrow> bytes option" where
  "SET_AVBTP_STREAM_ID0 x = put32 (x + 8)"

definition SET_AVBTP_PACKET_DATA_LENGTH :: "nat \<Rightarrow> u32 \<Rightarrow> bytes \<Rightarrow> bytes option" where
  "SET_AVBTP_PACKET_DATA_LENGTH x a b = do { b \<leftarrow> set_byte (x + 20) (signed_drop_bit 8 a) b; set_byte (x + 21) (a AND 0xff) b }"

section \<open>CIP header\<close>

definition SET_AVB1722_CIP_TAG :: "nat \<Rightarrow> u32 \<Rightarrow> bytes \<Rightarrow> bytes option" where
  "SET_AVB1722_CIP_TAG x a = or_byte (x + 22) (push_bit 6 (a AND 0x3))"

definition SET_AVB1722_CIP_CHANNEL :: "nat \<Rightarrow> u32 \<Rightarrow> bytes \<Rightarrow> bytes option" where
  "SET_AVB1722_CIP_CHANNEL x a = or_byte (x + 22) (a AND 0x3f)"

definition SET_AVB1722_CIP_TCODE :: "nat \<Rightarrow> u32 \<Rightarrow> bytes \<Rightarrow> bytes option" where
  "SET_AVB1722_CIP_TCODE x a = or_byte (x + 23) (push_bit 4 (a AND 0xf))"

definition SET_AVB1722_CIP_SY :: "nat \<Rightarrow> u32 \<Rightarrow> bytes \<Rightarrow> bytes option" where
  "SET_AVB1722_CIP_SY x a = or_byte (x + 23) (a AND 0xf)"

definition SET_AVB1722_CIP_SID :: "nat \<Rightarrow> u32 \<Rightarrow> bytes \<Rightarrow> bytes option" where
  "SET_AVB1722_CIP_SID x a = or_byte x (a AND 0x3f)"

definition SET_AVB1722_CIP_EOH1 :: "nat \<Rightarrow> u32 \<Rightarrow> bytes \<Rightarrow> bytes option" where
  "SET_AVB1722_CIP_EOH1 x a = or_byte x (push_bit 6 (a AND 0x3))"

definition SET_AVB1722_CIP_DBS :: "nat \<Rightarrow> u32 \<Rightarrow> bytes \<Rightarrow> bytes option" where
  "SET_AVB1722_CIP_DBS x = set_byte (x + 1)"

definition SET_AVB1722_CIP_FN :: "nat \<Rightarrow> u32 \<Rightarrow> bytes \<Rightarrow> bytes option" where
  "SET_AVB1722_CIP_FN x a = or_byte (x + 2) (push_bit 6 (a AND 0x3))"

definition SET_AVB1722_CIP_QPC :: "nat \<Rightarrow> u32 \<Rightarrow> bytes \<Rightarrow> bytes option" where
  "SET_AVB1722_CIP_QPC x a = or_byte (x + 2) (push_bit 3 (a AND 0x7))"

definition SET_AVB1722_CIP_SPH :: "nat \<Rightarrow> u32 \<Rightarrow> bytes \<Rightarrow> bytes option" where
  "SET_AVB1722_CIP_SPH x a = or_byte (x + 2) (push_bit 2 (a AND 0x1))"

definition SET_AVB1722_CIP_DBC :: "nat \<Rightarrow> u32 \<Rightarrow> bytes \<Rightarrow> bytes option" where
  "SET_AVB1722_CIP_DBC x = set_byte (x + 3)"

definition SET_AVB1722_CIP_EOH2 :: "nat \<Rightarrow> u32 \<Rightarrow> bytes \<Rightarrow> bytes option" where
  "SET_AVB1722_CIP_EOH2 x a = or_byte (x + 4) (push_bit 6 (a AND 0x3))"

definition SET_AVB1722_CIP_FMT :: "nat \<Rightarrow> u32 \<Rightarrow> bytes \<Rightarrow> bytes option" where
  "SET_AVB1722_CIP_FMT x a = or_byte (x + 4) (a AND 0x3f)"

definition SET_AVB1722_CIP_FDF :: "nat \<Rightarrow> u32 \<Rightarrow> bytes \<Rightarrow> bytes option" where
  "SET_AVB1722_CIP_FDF x = set_byte (x + 5)"

definition SET_AVB1722_CIP_SYT :: "nat \<Rightarrow> u32 \<Rightarrow> bytes \<Rightarrow> bytes option" where
  "SET_AVB1722_CIP_SYT x a b = do { b \<leftarrow> set_byte (x + 6) (drop_bit 8 a) b; set_byte (x + 7) (a AND 0xff) b }"

definition MBLA_24BIT :: u32 where "MBLA_24BIT = 0x40000000"

definition MBLA_20BIT :: u32 where "MBLA_20BIT = 0x41000000"

definition MBLA_16BIT :: u32 where "MBLA_16BIT = 0x42000000"

definition PACKET_RATE_1722 :: u32 where "PACKET_RATE_1722 = 8000"

section \<open>Time\<close>

record ptp_time_info_mod64 =
  ti_local_ts :: u32
  ptp_ts_hi :: u32
  ptp_ts_lo :: u32
  ptp_adjust :: u32
  inv_ptp_adjust :: u32

definition PTP_ADJUST_PREC :: nat where "PTP_ADJUST_PREC = 30"

text \<open>The local time that has passed, in nanoseconds corrected by the rate ratio, in 64-bit arithmetic.\<close>

definition adjusted_diff :: "u32 \<Rightarrow> ptp_time_info_mod64 \<Rightarrow> u64" where
  "adjusted_diff local info =
     (let local_diff = scast (local - ti_local_ts info) * 10
      in local_diff + signed_drop_bit PTP_ADJUST_PREC (local_diff * scast (ptp_adjust info)))"

definition local_timestamp_to_ptp_mod32 :: "u32 \<Rightarrow> ptp_time_info_mod64 \<Rightarrow> u32" where
  "local_timestamp_to_ptp_mod32 local info = ptp_ts_lo info + ucast (adjusted_diff local info)"

definition local_timestamp_to_ptp_mod64 :: "u32 \<Rightarrow> ptp_time_info_mod64 \<Rightarrow> u32 \<times> u32" where
  "local_timestamp_to_ptp_mod64 local info =
     (let ptp_mod64 = push_bit 32 (ucast (ptp_ts_hi info)) + ucast (ptp_ts_lo info) + adjusted_diff local info
      in (ucast (drop_bit 32 ptp_mod64), ucast ptp_mod64))"

end
