(* ===== verification/Audio_Fifo.thy ===== *)
theory Audio_Fifo
  imports Tsn_Prelude
begin

text \<open>
  The audio output FIFOs, \<^verbatim>\<open>src/audio_buffering/audio_output_fifo.c\<close> and \<^verbatim>\<open>audio_output_fifo.h\<close>, and
  the buffer code of \<^verbatim>\<open>audio_buffering.xc\<close> that uses them.

  A pointer into the array \<^verbatim>\<open>fifo\<close> is its offset and \<^verbatim>\<open>AUDIO_OUTPUT_FIFO_WORD_SIZE\<close> is the length
  of the array. An operation takes the FIFO its handle and index select. What is sent to the media
  clock server over the \<^verbatim>\<open>buf_ctl\<close> channel is a list of \<open>buf_ctl_msg\<close>; what is received is an argument.
  The two compile-time switches are the fields of \<open>fifo_conf\<close>.
\<close>

section \<open>Model\<close>

datatype ofifo_state_t = DISABLED | ZEROING | LOCKING | LOCKED

record ofifo_t =
  zero_flag :: bool
  dptr :: nat
  wrptr :: nat
  marker :: "nat option"
  local_ts :: u32
  ptp_ts :: u32
  sample_count :: u32
  zero_marker :: nat
  of_state :: ofifo_state_t
  last_notification_time :: u32
  media_clock :: int
  pending_init_notification :: bool
  of_volume :: u32
  fifo :: "u32 list"

record fifo_conf =
  volume_control :: bool
  format_saf :: bool

definition START_OF_FIFO :: nat where "START_OF_FIFO = 0"

definition END_OF_FIFO :: "ofifo_t \<Rightarrow> nat" where "END_OF_FIFO s = length (fifo s)"

definition MAX_VOLUME :: u32 where "MAX_VOLUME = 0x40000000"

definition NOTIFICATION_PERIOD :: u32 where "NOTIFICATION_PERIOD = 250"

datatype buf_ctl_cmd =
    BUF_CTL_REQUEST_INFO | BUF_CTL_REQUEST_NEW_STREAM_INFO | BUF_CTL_ADJUST_FILL int | BUF_CTL_RESET
  | BUF_CTL_ACK | BUF_CTL_OTHER

datatype buf_ctl_msg =
    NewStream | GotInfo | Info bool u32 u32 nat nat | NewStreamInfo int | Ack

definition audio_output_fifo_init :: "ofifo_t \<Rightarrow> ofifo_t" where
  "audio_output_fifo_init s = s\<lparr>of_state := DISABLED, dptr := START_OF_FIFO, wrptr := START_OF_FIFO, media_clock := - 1,
     pending_init_notification := False, last_notification_time := 0, of_volume := MAX_VOLUME\<rparr>"

definition disable_audio_output_fifo :: "ofifo_t \<Rightarrow> ofifo_t" where
  "disable_audio_output_fifo s = s\<lparr>of_state := DISABLED, zero_flag := True\<rparr>"

definition enable_audio_output_fifo :: "int \<Rightarrow> ofifo_t \<Rightarrow> ofifo_t option" where
  "enable_audio_output_fifo clock s = do {
     let s = s\<lparr>of_state := ZEROING, dptr := START_OF_FIFO, wrptr := START_OF_FIFO, marker := None, local_ts := 0,
       ptp_ts := 0, zero_marker := END_OF_FIFO s - 1, zero_flag := True\<rparr>;
     b \<leftarrow> wr (fifo s) (zero_marker s) 1;
     Some (s\<lparr>fifo := b, sample_count := 0, media_clock := clock, pending_init_notification := True\<rparr>)
   }"

definition audio_output_fifo_set_ptp_timestamp :: "u32 \<Rightarrow> nat \<Rightarrow> ofifo_t \<Rightarrow> ofifo_t" where
  "audio_output_fifo_set_ptp_timestamp ts sample_number s =
     (if marker s = None then
        let new_marker = wrptr s + sample_number;
            new_marker = (if new_marker \<ge> END_OF_FIFO s then new_marker - length (fifo s) else new_marker);
            ts = (if ts = 0 then 1 else ts)
        in s\<lparr>ptp_ts := ts, local_ts := 0, marker := Some new_marker\<rparr>
      else s)"

text \<open>The pointer loops \<^verbatim>\<open>while (p < START) p += len\<close> and \<^verbatim>\<open>while (p >= END) p -= len\<close>, on offsets.\<close>

partial_function (option) raise_ptr :: "int \<Rightarrow> int \<Rightarrow> int option" where
  "raise_ptr len p = (if p < int START_OF_FIFO then raise_ptr len (p + len) else Some p)"

partial_function (option) lower_ptr :: "int \<Rightarrow> int \<Rightarrow> int option" where
  "lower_ptr len p = (if p \<ge> len then lower_ptr len (p - len) else Some p)"

definition audio_output_fifo_maintain :: "bool \<Rightarrow> ofifo_t \<Rightarrow> (buf_ctl_msg list \<times> bool \<times> ofifo_t) option" where
  "audio_output_fifo_maintain notified s = do {
     let (msgs, notified, s) =
       (if pending_init_notification s \<and> \<not> notified then ([NewStream], True, s\<lparr>pending_init_notification := False\<rparr>)
        else ([], notified, s));
     case of_state s of
       DISABLED \<Rightarrow> Some (msgs, notified, s)
     | ZEROING \<Rightarrow> do {
         z \<leftarrow> rd (fifo s) (zero_marker s);
         if z = 0 then do {
           let buf_len = END_OF_FIFO s - START_OF_FIFO;
           p \<leftarrow> lower_ptr (int buf_len) (int (dptr s + drop_bit 1 buf_len));
           Some (msgs, notified, s\<lparr>wrptr := nat p, of_state := LOCKING, local_ts := 0, ptp_ts := 0, marker := None,
                                   zero_flag := True\<rparr>)
         } else Some (msgs, notified, s)
       }
     | _ \<Rightarrow>
         (let since = sample_count s - last_notification_time s in
          if ptp_ts s \<noteq> 0 \<and> local_ts s \<noteq> 0 \<and> \<not> notified
             \<and> (last_notification_time s = 0 \<or> since > NOTIFICATION_PERIOD)
          then Some (msgs @ [GotInfo], True, s\<lparr>last_notification_time := sample_count s\<rparr>)
          else Some (msgs, notified, s))
   }"

definition bswap32 :: "u32 \<Rightarrow> u32" where
  "bswap32 w = push_bit 24 (w AND 0xff) OR push_bit 16 (drop_bit 8 w AND 0xff)
     OR push_bit 8 (drop_bit 16 w AND 0xff) OR drop_bit 24 w"

text \<open>
  The sample as it is stored. With volume control the upper word of the signed 64-bit product of
  sample and volume is shifted to 24 bits.
\<close>

definition push_volume :: "fifo_conf \<Rightarrow> ofifo_t \<Rightarrow> u32" where
  "push_volume c s = (if of_state s = ZEROING then 0 else if volume_control c then of_volume s else 1)"

definition push_value :: "fifo_conf \<Rightarrow> u32 \<Rightarrow> u32 \<Rightarrow> u32" where
  "push_value c volume x =
     (let sample = bswap32 x;
          sample = (if format_saf c then sample else push_bit 8 sample)
      in if volume_control c then
           let h = word_of_int (sint sample * sint volume div 2 ^ 32) :: u32
           in signed_drop_bit 6 h AND 0xffffff
         else sample * volume)"

definition push_sample :: "u32 \<Rightarrow> ofifo_t \<Rightarrow> ofifo_t option" where
  "push_sample sample s = do {
     let new_wrptr = wrptr s + 1;
     let new_wrptr = (if new_wrptr = END_OF_FIFO s then START_OF_FIFO else new_wrptr);
     if new_wrptr \<noteq> dptr s then do {
       b \<leftarrow> wr (fifo s) (wrptr s) sample;
       Some (s\<lparr>fifo := b, wrptr := new_wrptr\<rparr>)
     } else Some s
   }"

partial_function (option) push_loop ::
    "fifo_conf \<Rightarrow> u32 \<Rightarrow> u32 list \<Rightarrow> nat \<Rightarrow> nat \<Rightarrow> nat \<Rightarrow> u32 \<Rightarrow> ofifo_t \<Rightarrow> (u32 \<times> ofifo_t) option" where
  "push_loop c volume samples stride n i count s =
     (if i < n then do {
        x \<leftarrow> rd samples i;
        s \<leftarrow> push_sample (push_value c volume x) s;
        push_loop c volume samples stride n (i + stride) (count + 1) s
      } else Some (count, s))"

definition audio_output_fifo_strided_push :: "fifo_conf \<Rightarrow> u32 list \<Rightarrow> nat \<Rightarrow> nat \<Rightarrow> ofifo_t \<Rightarrow> ofifo_t option" where
  "audio_output_fifo_strided_push c samples stride n s = do {
     (count, s) \<leftarrow> push_loop c (push_volume c s) samples stride n 0 0 s;
     Some (s\<lparr>sample_count := sample_count s + count\<rparr>)
   }"

definition audio_output_fifo_pull_sample :: "u32 \<Rightarrow> ofifo_t \<Rightarrow> (u32 \<times> ofifo_t) option" where
  "audio_output_fifo_pull_sample timestamp s =
     (if dptr s = wrptr s then Some (0, s)
      else do {
        sample \<leftarrow> rd (fifo s) (dptr s);
        let s = (if Some (dptr s) = marker s \<and> local_ts s = 0
                 then s\<lparr>local_ts := (if timestamp = 0 then 1 else timestamp)\<rparr> else s);
        let d = dptr s + 1;
        let s = s\<lparr>dptr := (if d = END_OF_FIFO s then START_OF_FIFO else d)\<rparr>;
        Some (if zero_flag s then 0 else sample, s)
      })"

definition audio_output_fifo_handle_buf_ctl ::
    "buf_ctl_cmd \<Rightarrow> bool \<Rightarrow> ofifo_t \<Rightarrow> (buf_ctl_msg list \<times> bool \<times> ofifo_t) option" where
  "audio_output_fifo_handle_buf_ctl cmd notified s =
     (case cmd of
        BUF_CTL_REQUEST_INFO \<Rightarrow>
          Some ([Info (of_state s = LOCKED) (ptp_ts s) (local_ts s) (dptr s - START_OF_FIFO) (wrptr s - START_OF_FIFO)],
                notified, s\<lparr>ptp_ts := 0, local_ts := 0, marker := None\<rparr>)
      | BUF_CTL_REQUEST_NEW_STREAM_INFO \<Rightarrow> Some ([NewStreamInfo (media_clock s), Ack], False, s)
      | BUF_CTL_ADJUST_FILL adjust \<Rightarrow> do {
          p \<leftarrow> raise_ptr (int (END_OF_FIFO s - START_OF_FIFO)) (int (wrptr s) - adjust);
          p \<leftarrow> lower_ptr (int (END_OF_FIFO s - START_OF_FIFO)) p;
          Some ([Ack], False, s\<lparr>wrptr := nat p, of_state := LOCKED, zero_flag := False, ptp_ts := 0, local_ts := 0,
                                marker := None\<rparr>)
        }
      | BUF_CTL_RESET \<Rightarrow> do {
          let z = (if wrptr s = START_OF_FIFO then END_OF_FIFO s - 1 else wrptr s - 1);
          b \<leftarrow> wr (fifo s) z 1;
          Some ([Ack], False, s\<lparr>of_state := ZEROING, zero_marker := z, zero_flag := True, fifo := b\<rparr>)
        }
      | BUF_CTL_ACK \<Rightarrow> Some ([Ack], False, s)
      | BUF_CTL_OTHER \<Rightarrow> Some ([], notified, s))"

definition audio_output_fifo_set_volume :: "u32 \<Rightarrow> ofifo_t \<Rightarrow> ofifo_t" where
  "audio_output_fifo_set_volume v s = s\<lparr>of_volume := v\<rparr>"

text \<open>
  One round of the output loop of \<^verbatim>\<open>audio_buffer_manager\<close>: for I2S a sample of every FIFO, the even ones
  first; for TDM the samples of one channel of each line.
\<close>

definition pull_into ::
    "u32 \<Rightarrow> nat \<Rightarrow> nat \<Rightarrow> ofifo_t list \<times> u32 list \<Rightarrow> (ofifo_t list \<times> u32 list) option" where
  "pull_into timestamp index i st = do {
     s \<leftarrow> rd (fst st) index;
     (x, s) \<leftarrow> audio_output_fifo_pull_sample timestamp s;
     out \<leftarrow> wr (snd st) i x;
     Some ((fst st)[index := s], out)
   }"

definition i2s_round :: "u32 \<Rightarrow> nat \<Rightarrow> ofifo_t list \<times> u32 list \<Rightarrow> (ofifo_t list \<times> u32 list) option" where
  "i2s_round timestamp n st = do {
     st \<leftarrow> for_each (filter even [0..<n]) (\<lambda>i. pull_into timestamp i i) st;
     for_each (filter odd [0..<n]) (\<lambda>i. pull_into timestamp i i) st
   }"

definition tdm_round ::
    "u32 \<Rightarrow> nat \<Rightarrow> nat \<Rightarrow> ofifo_t list \<times> u32 list \<Rightarrow> (nat \<times> ofifo_t list \<times> u32 list) option" where
  "tdm_round timestamp sinks channel st = do {
     st \<leftarrow> for_each [0..<sinks] (\<lambda>i. pull_into timestamp (channel + i * 8) i) st;
     let channel = channel + 1;
     Some (if channel = 8 then 0 else channel, st)
   }"

text \<open>\<open>media_ctl_register\<close> resets each FIFO the media controller names.\<close>

definition media_ctl_register :: "nat list \<Rightarrow> ofifo_t list \<Rightarrow> ofifo_t list option" where
  "media_ctl_register indices fifos = for_each indices (\<lambda>i fifos. do {
     s \<leftarrow> rd fifos i;
     Some (fifos[i := audio_output_fifo_init s]) }) fifos"

record audio_double_buffer_t =
  active_buffer :: nat
  data_ready :: nat

definition init_audio_input_buffer :: "audio_double_buffer_t \<Rightarrow> audio_double_buffer_t" where
  "init_audio_input_buffer b = b\<lparr>active_buffer := 0, data_ready := 0\<rparr>"

text \<open>The result is the index of the frame to fill next.\<close>

definition audio_buffers_swap_active_buffer :: "audio_double_buffer_t \<Rightarrow> nat \<times> audio_double_buffer_t" where
  "audio_buffers_swap_active_buffer b =
     (let a = (if active_buffer b = 0 then 1 else 0) in (a, b\<lparr>active_buffer := a, data_ready := 1\<rparr>))"

section \<open>The ring as a queue\<close>

text \<open>
  \<open>fifo_ok\<close> is the invariant of an initialised FIFO: the pointers are inside the array, and the zero marker is while
  it is used. \<open>queue\<close> is the sequence of the stored samples, oldest first; one cell always stays free.
\<close>

definition fifo_ok :: "ofifo_t \<Rightarrow> bool" where
  "fifo_ok s \<longleftrightarrow> 2 \<le> length (fifo s) \<and> dptr s < length (fifo s) \<and> wrptr s < length (fifo s)
     \<and> (of_state s = ZEROING \<longrightarrow> zero_marker s < length (fifo s))"

definition fill :: "ofifo_t \<Rightarrow> nat" where
  "fill s = (if dptr s \<le> wrptr s then wrptr s - dptr s else length (fifo s) + wrptr s - dptr s)"

definition cell :: "ofifo_t \<Rightarrow> nat \<Rightarrow> nat" where
  "cell s k = (if dptr s + k < length (fifo s) then dptr s + k else dptr s + k - length (fifo s))"

definition queue :: "ofifo_t \<Rightarrow> u32 list" where
  "queue s = map (\<lambda>k. fifo s ! cell s k) [0..<fill s]"

definition capacity :: "ofifo_t \<Rightarrow> nat" where
  "capacity s = length (fifo s) - 1"

lemma length_queue [simp]: "length (queue s) = fill s"
  by (simp add: queue_def)

lemma fill_bound: "fifo_ok s \<Longrightarrow> fill s \<le> capacity s"
  by (auto simp: fifo_ok_def fill_def capacity_def)

lemma queue_empty: "fifo_ok s \<Longrightarrow> queue s = [] \<longleftrightarrow> dptr s = wrptr s"
  by (auto simp: queue_def fifo_ok_def fill_def)

lemma push_sample_spec:
  assumes "fifo_ok s"
  shows "\<exists>u. push_sample x s = Some u \<and> fifo_ok u \<and> capacity u = capacity s
     \<and> queue u = (if fill s < capacity s then queue s @ [x] else queue s)
     \<and> u = s\<lparr>fifo := fifo u, wrptr := wrptr u\<rparr>"
proof -
  let ?n = "length (fifo s)"
  define w where "w = (if wrptr s + 1 = ?n then 0 else wrptr s + 1)"
  have ok: "2 \<le> ?n" "dptr s < ?n" "wrptr s < ?n" using assms by (auto simp: fifo_ok_def)
  have p: "push_sample x s = (if w \<noteq> dptr s then Some (s\<lparr>fifo := (fifo s)[wrptr s := x], wrptr := w\<rparr>) else Some s)"
    using ok by (simp add: push_sample_def END_OF_FIFO_def START_OF_FIFO_def Let_def w_def)
  show ?thesis
  proof (cases "w = dptr s")
    case True
    then have "\<not> fill s < capacity s" using ok by (auto simp: fill_def capacity_def w_def split: if_splits)
    then show ?thesis using True p assms by simp
  next
    case False
    let ?u = "s\<lparr>fifo := (fifo s)[wrptr s := x], wrptr := w\<rparr>"
    have f: "fill ?u = Suc (fill s)" "fill s < capacity s"
      using False ok by (auto simp: fill_def capacity_def w_def split: if_splits)
    have c: "cell ?u k = cell s k" for k by (simp add: cell_def)
    have w: "cell s (fill s) = wrptr s" using ok by (auto simp: cell_def fill_def)
    have "wrptr s \<noteq> cell s k" if "k < fill s" for k
      using that ok by (auto simp: cell_def fill_def split: if_splits)
    then have "queue ?u = queue s @ [x]"
      using ok by (simp add: queue_def f(1) c w)
    moreover have "fifo_ok ?u" using assms by (auto simp: fifo_ok_def w_def)
    ultimately show ?thesis using False p f(2) by (auto simp: capacity_def)
  qed
qed

lemma pull_sample_spec:
  assumes "fifo_ok s"
  shows "\<exists>u. audio_output_fifo_pull_sample t s =
       Some (case queue s of [] \<Rightarrow> 0 | x # q \<Rightarrow> if zero_flag s then 0 else x, u)
     \<and> fifo_ok u \<and> capacity u = capacity s \<and> queue u = tl (queue s)"
proof (cases "dptr s = wrptr s")
  case True
  then have "queue s = []" using queue_empty [OF assms] by simp
  with True assms show ?thesis by (simp add: audio_output_fifo_pull_sample_def)
next
  case False
  let ?n = "length (fifo s)"
  have ok: "2 \<le> ?n" "dptr s < ?n" "wrptr s < ?n" using assms by (auto simp: fifo_ok_def)
  define l where "l = (if Some (dptr s) = marker s \<and> local_ts s = 0 then (if t = 0 then 1 else t) else local_ts s)"
  define d where "d = (if dptr s + 1 = ?n then 0 else dptr s + 1)"
  let ?u = "s\<lparr>local_ts := l, dptr := d\<rparr>"
  have p: "audio_output_fifo_pull_sample t s = Some (if zero_flag s then 0 else fifo s ! dptr s, ?u)"
    using False ok
    by (auto simp: audio_output_fifo_pull_sample_def END_OF_FIFO_def START_OF_FIFO_def Let_def l_def d_def)
  obtain f where f: "fill s = Suc f" using False ok by (cases "fill s") (auto simp: fill_def split: if_splits)
  have fu: "fill ?u = f" using False ok f by (auto simp: fill_def d_def split: if_splits)
  have c: "cell s (Suc k) = cell ?u k" if "k < f" for k
    using that ok f by (auto simp: cell_def fill_def d_def split: if_splits)
  have "[0..<fill s] = 0 # map Suc [0..<f]" by (simp add: f upt_conv_Cons map_Suc_upt del: upt_Suc)
  then have "queue s = fifo s ! dptr s # map (\<lambda>k. fifo s ! cell s (Suc k)) [0..<f]"
    using ok by (simp add: queue_def cell_def comp_def)
  also have "map (\<lambda>k. fifo s ! cell s (Suc k)) [0..<f] = queue ?u" by (auto simp: queue_def fu c)
  finally have q: "queue s = fifo s ! dptr s # queue ?u" .
  have "fifo_ok ?u" using assms by (auto simp: fifo_ok_def d_def)
  with p q show ?thesis by (auto simp: capacity_def)
qed

section \<open>Sequences of operations\<close>

datatype 'a queue_op = Put 'a | Get

fun run_ops :: "('a \<Rightarrow> 's \<Rightarrow> 's option) \<Rightarrow> ('s \<Rightarrow> ('a \<times> 's) option) \<Rightarrow> 'a queue_op list \<Rightarrow> 's \<Rightarrow> ('a list \<times> 's) option" where
  "run_ops put get [] s = Some ([], s)"
| "run_ops put get (Put x # ops) s = do { s \<leftarrow> put x s; run_ops put get ops s }"
| "run_ops put get (Get # ops) s = do { (y, s) \<leftarrow> get s; (ys, s) \<leftarrow> run_ops put get ops s; Some (y # ys, s) }"

text \<open>The specification: a queue of bounded size that drops what does not fit and yields a default value when it is empty or muted.\<close>

fun run_spec :: "'a \<Rightarrow> nat \<Rightarrow> bool \<Rightarrow> 'a queue_op list \<Rightarrow> 'a list \<Rightarrow> 'a list \<times> 'a list" where
  "run_spec d n muted [] q = ([], q)"
| "run_spec d n muted (Put x # ops) q = run_spec d n muted ops (if length q < n then q @ [x] else q)"
| "run_spec d n muted (Get # ops) q =
     (let y = (case q of [] \<Rightarrow> d | x # _ \<Rightarrow> if muted then d else x); (ys, q) = run_spec d n muted ops (tl q) in (y # ys, q))"

locale bounded_queue =
  fixes ok :: "'s \<Rightarrow> bool" and content :: "'s \<Rightarrow> 'a list" and cap :: "'s \<Rightarrow> nat" and muted :: "'s \<Rightarrow> bool" and dflt :: 'a
    and put :: "'a \<Rightarrow> 's \<Rightarrow> 's option" and get :: "'s \<Rightarrow> ('a \<times> 's) option"
  assumes put: "ok s \<Longrightarrow> \<exists>u. put x s = Some u \<and> ok u \<and> cap u = cap s \<and> muted u = muted s
      \<and> content u = (if length (content s) < cap s then content s @ [x] else content s)"
    and get: "ok s \<Longrightarrow> \<exists>u. get s = Some (case content s of [] \<Rightarrow> dflt | x # _ \<Rightarrow> if muted s then dflt else x, u)
      \<and> ok u \<and> cap u = cap s \<and> muted u = muted s \<and> content u = tl (content s)"
begin

lemma run_refines:
  assumes "ok s"
  shows "\<exists>ys u. run_ops put get ops s = Some (ys, u) \<and> ok u \<and> run_spec dflt (cap s) (muted s) ops (content s) = (ys, content u)"
  using assms
proof (induction ops arbitrary: s)
  case (Cons op ops)
  show ?case
  proof (cases op)
    case (Put x)
    from put [OF Cons.prems, of x] obtain u where u: "put x s = Some u" "ok u" "cap u = cap s" "muted u = muted s"
      "content u = (if length (content s) < cap s then content s @ [x] else content s)" by blast
    from Cons.IH [OF u(2)] u Put show ?thesis by auto
  next
    case Get
    from get [OF Cons.prems] obtain u where u: "get s = Some (case content s of [] \<Rightarrow> dflt | x # _ \<Rightarrow> if muted s then dflt else x, u)"
      "ok u" "cap u = cap s" "muted u = muted s" "content u = tl (content s)" by blast
    from Cons.IH [OF u(2)] u Get show ?thesis by auto
  qed
qed simp

end

interpretation ofifo: bounded_queue fifo_ok queue capacity zero_flag 0 push_sample "audio_output_fifo_pull_sample t"
proof
  fix s x assume "fifo_ok s"
  from push_sample_spec [OF this, of x] obtain u where u: "push_sample x s = Some u" "fifo_ok u" "capacity u = capacity s"
    "queue u = (if fill s < capacity s then queue s @ [x] else queue s)" "u = s\<lparr>fifo := fifo u, wrptr := wrptr u\<rparr>" by blast
  from u(5) have "zero_flag u = zero_flag s" by (metis ofifo_t.select_convs(1) ofifo_t.surjective ofifo_t.update_convs(14) ofifo_t.update_convs(3))
  with u show "\<exists>u. push_sample x s = Some u \<and> fifo_ok u \<and> capacity u = capacity s \<and> zero_flag u = zero_flag s
      \<and> queue u = (if length (queue s) < capacity s then queue s @ [x] else queue s)" by auto
next
  fix s assume ok: "fifo_ok s"
  have z: "post (audio_output_fifo_pull_sample t s) (\<lambda>(y, u). zero_flag u = zero_flag s)"
    by (auto simp: audio_output_fifo_pull_sample_def post_simps Let_def)
  from pull_sample_spec [OF ok, of t] z show "\<exists>u. audio_output_fifo_pull_sample t s =
       Some (case queue s of [] \<Rightarrow> 0 | x # _ \<Rightarrow> if zero_flag s then 0 else x, u)
      \<and> fifo_ok u \<and> capacity u = capacity s \<and> zero_flag u = zero_flag s \<and> queue u = tl (queue s)"
    by (auto simp: post_def)
qed

text \<open>C34: the output FIFO is a bounded queue. Any sequence of pushed and pulled samples, starting from any
  valid state of the ring, is executed without fault and yields what a list-based queue yields: samples come
  out in the order they went in, a sample that finds the ring full is dropped, and an empty or muted
  FIFO outputs zero.\<close>

theorem output_fifo_refines_queue:
  assumes "fifo_ok s"
  shows "\<exists>ys u. run_ops push_sample (audio_output_fifo_pull_sample t) ops s = Some (ys, u) \<and> fifo_ok u
     \<and> run_spec 0 (length (fifo s) - 1) (zero_flag s) ops (queue s) = (ys, queue u)"
  using ofifo.run_refines [OF assms] by (simp add: capacity_def)

definition silent_fifo :: "nat \<Rightarrow> ofifo_t" where
  "silent_fifo n = \<lparr>zero_flag = False, dptr = 0, wrptr = 0, marker = None, local_ts = 0, ptp_ts = 0, sample_count = 0,
     zero_marker = 0, of_state = LOCKED, last_notification_time = 0, media_clock = 0, pending_init_notification = False,
     of_volume = MAX_VOLUME, fifo = replicate n 0\<rparr>"

lemma silent_fifo_ok: "2 \<le> n \<Longrightarrow> fifo_ok (silent_fifo n)"
  by (simp add: silent_fifo_def fifo_ok_def)

theorem output_fifo_refines_queue_witness:
  "\<exists>u. run_ops push_sample (audio_output_fifo_pull_sample 5) [Put 7, Put 8, Put 9, Get, Get, Get] (silent_fifo 3) = Some ([7, 8, 0], u)"
  using output_fifo_refines_queue [OF silent_fifo_ok [of 3], of 5 "[Put 7, Put 8, Put 9, Get, Get, Get]"]
  by (auto simp: silent_fifo_def queue_def fill_def)

lemma raise_ptr_eq: "0 < len \<Longrightarrow> raise_ptr len p = Some (if p < 0 then p mod len else p)"
proof (induction "nat (- p)" arbitrary: p rule: less_induct)
  case less
  show ?case
  proof (cases "p < 0")
    case True
    have "raise_ptr len (p + len) = Some (if p + len < 0 then (p + len) mod len else p + len)"
      by (rule less.hyps) (use True less.prems in simp_all)
    moreover have "(p + len) mod len = p mod len" by simp
    moreover have "p + len = p mod len" if "\<not> p + len < 0"
      using that True mod_pos_pos_trivial [of "p + len" len] by simp
    ultimately show ?thesis using True by (subst raise_ptr.simps) (auto simp: START_OF_FIFO_def)
  qed (subst raise_ptr.simps, simp add: START_OF_FIFO_def)
qed

lemma lower_ptr_eq: "0 < len \<Longrightarrow> lower_ptr len p = Some (if p \<ge> len then p mod len else p)"
proof (induction "nat p" arbitrary: p rule: less_induct)
  case less
  show ?case
  proof (cases "p \<ge> len")
    case True
    have "lower_ptr len (p - len) = Some (if p - len \<ge> len then (p - len) mod len else p - len)"
      by (rule less.hyps) (use True less.prems in simp_all)
    moreover have "(p - len) mod len = p mod len" by simp
    moreover have "p - len = p mod len" if "\<not> p - len \<ge> len"
      using that True mod_pos_pos_trivial [of "p - len" len] by simp
    ultimately show ?thesis using True by (subst lower_ptr.simps) auto
  qed (subst lower_ptr.simps, simp)
qed

lemma fill_mod: "fifo_ok s \<Longrightarrow> int (fill s) = (int (wrptr s) - int (dptr s)) mod int (length (fifo s))"
proof -
  assume ok: "fifo_ok s"
  show ?thesis
  proof (cases "dptr s \<le> wrptr s")
    case True
    then show ?thesis using ok by (simp add: fill_def fifo_ok_def of_nat_diff)
  next
    case False
    have "(int (wrptr s) - int (dptr s)) mod int (length (fifo s)) = (int (wrptr s) - int (dptr s) + int (length (fifo s))) mod int (length (fifo s))"
      by simp
    also have "\<dots> = int (wrptr s) - int (dptr s) + int (length (fifo s))"
      by (rule mod_pos_pos_trivial) (use ok False in \<open>auto simp: fifo_ok_def\<close>)
    finally show ?thesis using ok False by (simp add: fill_def fifo_ok_def of_nat_diff)
  qed
qed



section \<open>Pushing the samples of a packet\<close>

text \<open>The number of samples a loop with the given stride visits.\<close>

definition visits :: "nat \<Rightarrow> nat \<Rightarrow> nat" where
  "visits n stride = (n + stride - 1) div stride"

lemma visits_less:
  assumes "0 < stride"
  shows "j < visits n stride \<longleftrightarrow> j * stride < n"
proof -
  have "Suc j \<le> (n + stride - 1) div stride \<longleftrightarrow> Suc j * stride \<le> n + stride - 1"
    by (rule less_eq_div_iff_mult_less_eq) fact
  then show ?thesis using assms by (auto simp: visits_def Suc_le_eq)
qed

lemma take_snoc_cap:
  "length q \<le> n \<Longrightarrow> take n ((if length q < n then q @ [x] else q) @ xs) = take n (q @ x # xs)"
  by (auto simp: take_Cons')

lemma push_loop_spec:
  assumes "0 < stride" and "\<And>j. j < visits n stride \<Longrightarrow> j * stride < length samples" and "fifo_ok s" and "j \<le> visits n stride"
  shows "\<exists>u. push_loop c vol samples stride n (j * stride) k s = Some (k + of_nat (visits n stride - j), u) \<and> fifo_ok u
     \<and> queue u = take (capacity s) (queue s @ map (\<lambda>i. push_value c vol (samples ! (i * stride))) [j..<visits n stride])
     \<and> u = s\<lparr>fifo := fifo u, wrptr := wrptr u\<rparr>"
  using assms(3,4)
proof (induction "visits n stride - j" arbitrary: j k s)
  case 0
  then have "j = visits n stride" "\<not> j * stride < n" using visits_less [OF assms(1), of j n] by auto
  then show ?case using 0 fill_bound [of s] by (subst push_loop.simps) simp
next
  case (Suc d)
  then have j: "j < visits n stride" by simp
  have d: "d = visits n stride - Suc j" using Suc.hyps(2) by simp
  from j have i: "j * stride < n" using visits_less [OF assms(1)] by simp
  let ?x = "push_value c vol (samples ! (j * stride))"
  obtain v where v: "push_sample ?x s = Some v" "fifo_ok v" "capacity v = capacity s"
    "queue v = (if fill s < capacity s then queue s @ [?x] else queue s)" "v = s\<lparr>fifo := fifo v, wrptr := wrptr v\<rparr>"
    using push_sample_spec [OF Suc.prems(1), of ?x] by blast
  obtain u where u: "push_loop c vol samples stride n (Suc j * stride) (k + 1) v = Some (k + 1 + of_nat (visits n stride - Suc j), u)"
    "fifo_ok u" "queue u = take (capacity v) (queue v @ map (\<lambda>i. push_value c vol (samples ! (i * stride))) [Suc j..<visits n stride])"
    "u = v\<lparr>fifo := fifo u, wrptr := wrptr u\<rparr>"
    using Suc.hyps(1) [of "Suc j" v "k + 1", OF d v(2) Suc_leI [OF j]] by blast
  have cnt: "k + 1 + of_nat (visits n stride - Suc j) = k + of_nat (visits n stride - j)"
    using j by (simp add: Suc_diff_Suc [symmetric])
  have q: "queue u = take (capacity s) (queue s @ map (\<lambda>i. push_value c vol (samples ! (i * stride))) [j..<visits n stride])"
    unfolding u(3) v(3,4) upt_conv_Cons [OF j] list.map
    using take_snoc_cap [of "queue s" "capacity s" ?x] fill_bound [OF Suc.prems(1)] by simp
  have fr: "v\<lparr>fifo := x, wrptr := y\<rparr> = s\<lparr>fifo := x, wrptr := y\<rparr>" for x y by (subst v(5)) simp
  have "push_loop c vol samples stride n (j * stride) k s = Some (k + of_nat (visits n stride - j), u)"
    using u(1) v(1) i assms(2) [OF j] unfolding cnt by (subst push_loop.simps) (simp add: ac_simps)
  with u(2) q u(4) [unfolded fr] show ?case by blast
qed

lemma strided_push_spec:
  assumes "fifo_ok s" and "0 < stride" and "\<And>j. j < visits n stride \<Longrightarrow> j * stride < length samples"
  shows "\<exists>u. audio_output_fifo_strided_push c samples stride n s = Some u \<and> fifo_ok u
     \<and> queue u = take (capacity s) (queue s @ map (\<lambda>i. push_value c (push_volume c s) (samples ! (i * stride))) [0..<visits n stride])
     \<and> u = s\<lparr>fifo := fifo u, wrptr := wrptr u, sample_count := sample_count s + of_nat (visits n stride)\<rparr>"
proof -
  obtain u where u: "push_loop c (push_volume c s) samples stride n (0 * stride) 0 s = Some (0 + of_nat (visits n stride - 0), u)" "fifo_ok u"
    "queue u = take (capacity s) (queue s @ map (\<lambda>i. push_value c (push_volume c s) (samples ! (i * stride))) [0..<visits n stride])"
    "u = s\<lparr>fifo := fifo u, wrptr := wrptr u\<rparr>"
    using push_loop_spec [OF assms(2,3,1), of n 0 c "push_volume c s" 0] by auto
  have sc: "sample_count u = sample_count s" by (subst u(4)) simp
  let ?v = "u\<lparr>sample_count := sample_count u + of_nat (visits n stride)\<rparr>"
  have "audio_output_fifo_strided_push c samples stride n s = Some ?v"
    using u(1) by (simp add: audio_output_fifo_strided_push_def)
  moreover have "fifo_ok ?v" using u(2) by (simp add: fifo_ok_def)
  moreover have "queue ?v = queue u" by (simp add: queue_def cell_def fill_def)
  moreover have "?v = s\<lparr>fifo := fifo ?v, wrptr := wrptr ?v, sample_count := sample_count s + of_nat (visits n stride)\<rparr>"
    unfolding sc by (subst u(4)) simp
  ultimately show ?thesis using u(3) by auto
qed

text \<open>Pushing the samples of one channel of a packet. With a positive stride the loop ends, reads every
  \<open>stride\<close>-th word, and appends the converted samples in order as far as the ring has room; the sample counter
  advances by the number of samples whether or not they fitted.\<close>

theorem strided_push_appends:
  assumes "fifo_ok s" and "0 < stride" and "n \<le> length samples"
  shows "\<exists>u. audio_output_fifo_strided_push c samples stride n s = Some u \<and> fifo_ok u
     \<and> queue u = take (length (fifo s) - 1) (queue s @ map (\<lambda>i. push_value c (push_volume c s) (samples ! (i * stride))) [0..<(n + stride - 1) div stride])
     \<and> sample_count u = sample_count s + of_nat ((n + stride - 1) div stride)"
proof -
  have "j * stride < length samples" if "j < visits n stride" for j
    using visits_less [OF assms(2), of j n] that assms(3) by auto
  from strided_push_spec [OF assms(1,2) this, of n c] obtain u where u: "audio_output_fifo_strided_push c samples stride n s = Some u" "fifo_ok u"
    "queue u = take (capacity s) (queue s @ map (\<lambda>i. push_value c (push_volume c s) (samples ! (i * stride))) [0..<visits n stride])"
    "u = s\<lparr>fifo := fifo u, wrptr := wrptr u, sample_count := sample_count s + of_nat (visits n stride)\<rparr>" by blast
  have "sample_count u = sample_count s + of_nat (visits n stride)" by (subst u(4)) simp
  with u(1-3) show ?thesis by (simp add: capacity_def visits_def)
qed

lemma silent_fifo_empty: "queue (silent_fifo n) = []"
  by (simp add: queue_def fill_def silent_fifo_def)

theorem strided_push_appends_witness:
  "\<exists>u. audio_output_fifo_strided_push \<lparr>volume_control = False, format_saf = True\<rparr> [1, 2, 3, 4] 2 4 (silent_fifo 3) = Some u
     \<and> queue u = [0x01000000, 0x03000000]"
proof -
  let ?c = "\<lparr>volume_control = False, format_saf = True\<rparr>"
  let ?xs = "map (\<lambda>i. push_value ?c (push_volume ?c (silent_fifo 3)) ([1, 2, 3, 4] ! (i * 2))) [0..<(4 + 2 - 1) div 2]"
  have "fifo_ok (silent_fifo 3)" by (simp add: silent_fifo_ok)
  from strided_push_appends [OF this, of 2 4 "[1, 2, 3, 4]" ?c]
  obtain u where "audio_output_fifo_strided_push ?c [1, 2, 3, 4] 2 4 (silent_fifo 3) = Some u"
    "queue u = take (length (fifo (silent_fifo 3)) - 1) (queue (silent_fifo 3) @ ?xs)" by auto
  moreover have "take (length (fifo (silent_fifo 3)) - 1) ([] @ ?xs) = [0x01000000, 0x03000000]"
    by code_simp
  ultimately show ?thesis by (simp add: silent_fifo_empty)
qed

section \<open>Start of a stream\<close>

text \<open>While the ring is being zeroed only silence is stored.\<close>

lemma zeroing_pushes_silence: "of_state s = ZEROING \<Longrightarrow> push_value c (push_volume c s) x = 0"
  by (simp add: push_volume_def push_value_def Let_def)

lemma lower_ptr_nat: "0 < n \<Longrightarrow> lower_ptr (int n) (int m) = Some (int (m mod n))"
  by (simp add: lower_ptr_eq zmod_int)

lemma half_ahead:
  fixes d n :: nat
  assumes "d < n"
  shows "(if d \<le> (d + n div 2) mod n then (d + n div 2) mod n - d else n + (d + n div 2) mod n - d) = n div 2"
proof (cases "d + n div 2 < n")
  case False
  then have "(d + n div 2) mod n = d + n div 2 - n" using assms by (simp add: mod_if)
  with False assms show ?thesis by auto
qed simp

text \<open>C35: the end of the zeroing phase. Once the marker planted by \<open>enable_audio_output_fifo\<close> has been overwritten with
  silence, maintenance of the ring starts to lock: the ring then holds exactly half its length in samples, so
  that the stream starts in the middle of the buffer, and the timestamps of the last stream are forgotten.\<close>

theorem zeroing_ends_half_full:
  assumes "fifo_ok s" and "of_state s = ZEROING" and "fifo s ! zero_marker s = 0"
  shows "\<exists>msgs n u. audio_output_fifo_maintain notified s = Some (msgs, n, u) \<and> fifo_ok u \<and> of_state u = LOCKING
     \<and> fill u = length (fifo s) div 2 \<and> ptp_ts u = 0 \<and> local_ts u = 0 \<and> marker u = None"
proof -
  let ?n = "length (fifo s)"
  have n: "0 < ?n" "dptr s < ?n" "zero_marker s < ?n" using assms by (auto simp: fifo_ok_def)
  define r where "r = (dptr s + ?n div 2) mod ?n"
  have r: "r < ?n" unfolding r_def using n(1) by simp
  have half: "(if dptr s \<le> r then r - dptr s else ?n + r - dptr s) = ?n div 2"
    unfolding r_def by (rule half_ahead [OF n(2)])
  have "lower_ptr (int ?n) (int (dptr s + ?n div 2)) = Some (int r)"
    unfolding r_def by (rule lower_ptr_nat [OF n(1)])
  then show ?thesis using assms n r half
    by (auto simp: audio_output_fifo_maintain_def rd_def fifo_ok_def fill_def drop_bit_eq_div [where 'a = nat] START_OF_FIFO_def END_OF_FIFO_def)
qed

theorem zeroing_ends_half_full_witness:
  "\<exists>msgs n u. audio_output_fifo_maintain True ((silent_fifo 10)\<lparr>of_state := ZEROING, zero_marker := 9\<rparr>) = Some (msgs, n, u)
     \<and> of_state u = LOCKING \<and> fill u = 5"
proof -
  let ?s = "(silent_fifo 10)\<lparr>of_state := ZEROING, zero_marker := 9\<rparr>"
  have "fifo_ok ?s" "of_state ?s = ZEROING" "fifo ?s ! zero_marker ?s = 0" "length (fifo ?s) = 10"
    by (simp_all add: fifo_ok_def silent_fifo_def)
  with zeroing_ends_half_full [of ?s True] show ?thesis by fastforce
qed

section \<open>Every operation\<close>

datatype fifo_op =
    Op_Init | Op_Enable int | Op_Disable | Op_Timestamp u32 nat | Op_Maintain bool | Op_Push "u32 list" nat nat | Op_Pull u32
  | Op_Ctl buf_ctl_cmd bool | Op_Volume u32

definition fifo_op_step :: "fifo_conf \<Rightarrow> fifo_op \<Rightarrow> ofifo_t \<Rightarrow> ofifo_t option" where
  "fifo_op_step cf op s =
     (case op of
        Op_Init \<Rightarrow> Some (audio_output_fifo_init s)
      | Op_Enable clock \<Rightarrow> enable_audio_output_fifo clock s
      | Op_Disable \<Rightarrow> Some (disable_audio_output_fifo s)
      | Op_Timestamp ts n \<Rightarrow> Some (audio_output_fifo_set_ptp_timestamp ts n s)
      | Op_Maintain notified \<Rightarrow> do { (_, _, s) \<leftarrow> audio_output_fifo_maintain notified s; Some s }
      | Op_Push samples stride n \<Rightarrow> audio_output_fifo_strided_push cf samples stride n s
      | Op_Pull ts \<Rightarrow> do { (_, s) \<leftarrow> audio_output_fifo_pull_sample ts s; Some s }
      | Op_Ctl cmd notified \<Rightarrow> do { (_, _, s) \<leftarrow> audio_output_fifo_handle_buf_ctl cmd notified s; Some s }
      | Op_Volume v \<Rightarrow> Some (audio_output_fifo_set_volume v s))"

text \<open>What a push may be called with: a stride, and as many samples as it is told there are.\<close>

fun push_args_ok :: "fifo_op \<Rightarrow> bool" where
  "push_args_ok (Op_Push samples stride n) \<longleftrightarrow> 0 < stride \<and> n \<le> length samples"
| "push_args_ok _ \<longleftrightarrow> True"

lemma lower_ptr_inside: "2 \<le> n \<Longrightarrow> tot (lower_ptr (int n) (int m)) (\<lambda>y. nat y < n)"
  by (simp add: lower_ptr_nat tot_def)

lemma maintain_ok: "fifo_ok s \<Longrightarrow> tot (audio_output_fifo_maintain notified s) (\<lambda>(_, _, u). fifo_ok u)"
  by (cases "of_state s") (auto simp: audio_output_fifo_maintain_def tot_simps fifo_ok_def Let_def START_OF_FIFO_def END_OF_FIFO_def
      lower_ptr_inside rd_def simp del: of_nat_add)

lemma buf_ctl_ok: "fifo_ok s \<Longrightarrow> tot (audio_output_fifo_handle_buf_ctl cmd notified s) (\<lambda>(_, _, u). fifo_ok u)"
proof (cases cmd)
  case (BUF_CTL_ADJUST_FILL adjust)
  assume "fifo_ok s"
  then have "0 < int (length (fifo s))" by (auto simp: fifo_ok_def)
  then show ?thesis using \<open>fifo_ok s\<close> unfolding BUF_CTL_ADJUST_FILL
    by (auto simp: audio_output_fifo_handle_buf_ctl_def tot_simps raise_ptr_eq lower_ptr_eq END_OF_FIFO_def START_OF_FIFO_def fifo_ok_def nat_less_iff)
qed (auto simp: audio_output_fifo_handle_buf_ctl_def tot_simps fifo_ok_def wr_def END_OF_FIFO_def START_OF_FIFO_def Let_def)

lemma fifo_op_ok:
  assumes "fifo_ok s" and "push_args_ok op"
  shows "tot (fifo_op_step cf op s) fifo_ok"
proof (cases op)
  case (Op_Push samples stride n)
  then have "0 < stride" "\<And>j. j < visits n stride \<Longrightarrow> j * stride < length samples" using assms(2) visits_less [of stride] by auto
  from strided_push_spec [OF assms(1) this, where c = cf] show ?thesis unfolding Op_Push by (auto simp: fifo_op_step_def tot_def)
next
  case (Op_Maintain notified)
  then show ?thesis using maintain_ok [OF assms(1), of notified] by (simp add: fifo_op_step_def tot_simps case_prod_unfold)
next
  case (Op_Ctl cmd notified)
  then show ?thesis using buf_ctl_ok [OF assms(1), of cmd notified] by (simp add: fifo_op_step_def tot_simps case_prod_unfold)
next
  case (Op_Pull ts)
  then show ?thesis using pull_sample_spec [OF assms(1), of ts] by (auto simp: fifo_op_step_def tot_def)
qed (use assms(1) in \<open>auto simp: fifo_op_step_def tot_simps fifo_ok_def audio_output_fifo_init_def enable_audio_output_fifo_def
      disable_audio_output_fifo_def audio_output_fifo_set_ptp_timestamp_def audio_output_fifo_set_volume_def wr_def START_OF_FIFO_def END_OF_FIFO_def Let_def\<close>)

text \<open>C18: the ring stays well formed. From an initialised FIFO of at least two cells every sequence of operations the listener, the audio
  interface and the media clock server perform on it runs to its end, whatever their order, and leaves both pointers, and the zero marker while it
  is used, inside the array. A push needs only a stride and the number of samples it is told.\<close>

theorem fifo_stays_well_formed:
  assumes "2 \<le> length (fifo s)" and "\<forall>op \<in> set ops. push_args_ok op"
  shows "\<exists>u. for_each ops (fifo_op_step cf) (audio_output_fifo_init s) = Some u \<and> fifo_ok u"
proof -
  have "fifo_ok (audio_output_fifo_init s)" using assms(1) by (auto simp: audio_output_fifo_init_def fifo_ok_def START_OF_FIFO_def)
  then have "tot (for_each ops (fifo_op_step cf) (audio_output_fifo_init s)) fifo_ok"
    by (rule tot_for_each) (use assms(2) in \<open>simp add: fifo_op_ok\<close>)
  then show ?thesis by (simp add: tot_def)
qed

theorem fifo_stays_well_formed_witness:
  "\<exists>u. for_each [Op_Enable 0, Op_Push [1, 2, 3] 1 3, Op_Pull 7, Op_Maintain False, Op_Ctl (BUF_CTL_ADJUST_FILL (- 3)) True]
      (fifo_op_step \<lparr>volume_control = False, format_saf = False\<rparr>) (audio_output_fifo_init (silent_fifo 5)) = Some u \<and> fifo_ok u"
  by (rule fifo_stays_well_formed) (simp_all add: silent_fifo_def)

end
