(* ===== verification/Talker_1722.thy ===== *)
theory Talker_1722
  imports Avbtp Audio_Fifo
begin

text \<open>
  The stream talker: packet construction of \<^verbatim>\<open>src/1722/avb_1722_talker_support_audio.c\<close> and
  \<^verbatim>\<open>avb_1722_talker_support.c\<close>, and the commands and the sending of packets of \<^verbatim>\<open>avb_1722_talker.xc\<close>.

  A packet buffer is a list of bytes; the packet starts at its third byte. What arrives over the control channel with a command is an
  argument of the command, and what the MAC is given is a list of frames. \<^verbatim>\<open>int\<close> and \<^verbatim>\<open>unsigned\<close> are 32-bit words.
\<close>

section \<open>Model\<close>

record audio_frame_t =
  af_timestamp :: u32
  af_samples :: "u32 list"

record avb1722_Talker_StreamConfig_t =
  tk_active :: int
  destMACAdrs :: bytes
  srcMACAdrs :: bytes
  streamId0 :: u32
  streamId1 :: u32
  tk_num_channels :: u32
  tk_map :: "u32 list"
  fifo_mask :: u32
  sampleType :: u32
  current_samples_in_packet :: u32
  timestamp_valid :: bool
  tk_timestamp :: u32
  dbc_at_start_of_last_packet :: u32
  ts_interval :: u32
  samples_per_packet_base :: u32
  samples_per_packet_fractional :: u32
  tk_rem :: u32
  tk_initial :: bool
  presentation_delay :: u32
  txport :: int
  sequence_number :: u8

definition int_count :: "u32 \<Rightarrow> nat" where
  "int_count n = nat (sint n)"

definition AVB1722_CIP_HeaderGen :: "u32 \<Rightarrow> bytes \<Rightarrow> bytes option" where
  "AVB1722_CIP_HeaderGen dbc b = SET_AVB1722_CIP_DBC (2 + AVB_ETHERNET_HDR_SIZE + AVB_TP_HDR_SIZE) dbc b"

definition AVB1722_AVBTP_HeaderGen :: "bool \<Rightarrow> u32 \<Rightarrow> u32 \<Rightarrow> u32 \<Rightarrow> u32 \<Rightarrow> bytes \<Rightarrow> bytes option" where
  "AVB1722_AVBTP_HeaderGen valid_ts avbtp_ts pkt_data_length seq stream_id0 b = do {
     let hdr = 2 + AVB_ETHERNET_HDR_SIZE;
     b \<leftarrow> SET_AVBTP_PACKET_DATA_LENGTH hdr pkt_data_length b;
     b \<leftarrow> (if valid_ts then do { b \<leftarrow> SET_AVBTP_TV hdr 1 b; SET_AVBTP_TIMESTAMP hdr avbtp_ts b }
          else do { b \<leftarrow> SET_AVBTP_TV hdr 0 b; SET_AVBTP_TIMESTAMP hdr 0 b });
     b \<leftarrow> SET_AVBTP_STREAM_ID0 hdr stream_id0 b;
     SET_AVBTP_SEQUENCE_NUMBER hdr seq b
   }"

text \<open>The Ethernet, AVBTP and CIP parts of a new buffer.\<close>

definition bufInit_ethernet :: "avb1722_Talker_StreamConfig_t \<Rightarrow> u32 \<Rightarrow> bytes \<Rightarrow> bytes option" where
  "bufInit_ethernet c vlanid b = do {
     da \<leftarrow> read_block (destMACAdrs c) 0 6;
     sa \<leftarrow> read_block (srcMACAdrs c) 0 6;
     b \<leftarrow> copy_in b 2 da;
     b \<leftarrow> copy_in b 8 sa;
     b \<leftarrow> SET_AVBTP_TPID 2 AVB_TPID b;
     b \<leftarrow> SET_AVBTP_PCP 2 AVB_DEFAULT_PCP b;
     b \<leftarrow> SET_AVBTP_CFI 2 AVB_DEFAULT_CFI b;
     b \<leftarrow> SET_AVBTP_VID 2 vlanid b;
     SET_AVBTP_ETYPE 2 AVB_1722_ETHERTYPE b
   }"

definition bufInit_avbtp :: "avb1722_Talker_StreamConfig_t \<Rightarrow> bytes \<Rightarrow> bytes option" where
  "bufInit_avbtp c b = do {
     let hdr = 2 + AVB_ETHERNET_HDR_SIZE;
     b \<leftarrow> SET_AVBTP_SV hdr 1 b;
     b \<leftarrow> SET_AVBTP_STREAM_ID0 hdr (streamId0 c) b;
     b \<leftarrow> SET_AVBTP_STREAM_ID1 hdr (streamId1 c) b;
     b \<leftarrow> SET_AVB1722_CIP_TAG hdr 1 b;
     b \<leftarrow> SET_AVB1722_CIP_CHANNEL hdr 31 b;
     b \<leftarrow> SET_AVB1722_CIP_TCODE hdr 0xA b;
     SET_AVB1722_CIP_SY hdr 0 b
   }"

definition bufInit_cip :: "u32 \<Rightarrow> bytes \<Rightarrow> bytes option" where
  "bufInit_cip data_block_size b = do {
     let hdr = 2 + AVB_ETHERNET_HDR_SIZE + AVB_TP_HDR_SIZE;
     b \<leftarrow> SET_AVB1722_CIP_EOH1 hdr 0 b;
     b \<leftarrow> SET_AVB1722_CIP_SID hdr 63 b;
     b \<leftarrow> SET_AVB1722_CIP_DBS hdr data_block_size b;
     b \<leftarrow> SET_AVB1722_CIP_FN hdr 0 b;
     b \<leftarrow> SET_AVB1722_CIP_QPC hdr 0 b;
     b \<leftarrow> SET_AVB1722_CIP_SPH hdr 0 b;
     b \<leftarrow> SET_AVB1722_CIP_DBC hdr 0 b;
     b \<leftarrow> SET_AVB1722_CIP_EOH2 hdr 2 b;
     b \<leftarrow> SET_AVB1722_CIP_FMT hdr 0x10 b;
     b \<leftarrow> SET_AVB1722_CIP_FDF hdr 2 b;
     SET_AVB1722_CIP_SYT hdr 0xffff b
   }"

text \<open>The result is the new value of the global \<^verbatim>\<open>AVB1722_audioSampleType\<close> and the buffer.\<close>

definition AVB1722_Talker_bufInit :: "avb1722_Talker_StreamConfig_t \<Rightarrow> u32 \<Rightarrow> bytes \<Rightarrow> (u32 \<times> bytes) option" where
  "AVB1722_Talker_bufInit c vlanid b = do {
     let (ty, data_block_size) =
       (if sampleType c = MBLA_20BIT then (MBLA_20BIT, tk_num_channels c)
        else if sampleType c = MBLA_16BIT then (MBLA_16BIT, tk_num_channels c div 2)
        else (MBLA_24BIT, tk_num_channels c));
     b \<leftarrow> copy_in b 2 (replicate (AVB_ETHERNET_HDR_SIZE + AVB_TP_HDR_SIZE + AVB_CIP_HDR_SIZE) 0);
     b \<leftarrow> bufInit_ethernet c vlanid b;
     b \<leftarrow> bufInit_avbtp c b;
     b \<leftarrow> bufInit_cip data_block_size b;
     Some (ty, b)
   }"

definition avb1722_set_buffer_vlan :: "u32 \<Rightarrow> bytes \<Rightarrow> bytes option" where
  "avb1722_set_buffer_vlan vlan b = do { b \<leftarrow> CLEAR_AVBTP_VID 2 b; SET_AVBTP_VID 2 vlan b }"

text \<open>One audio frame is added to the packet: a word per channel, the sample without its lowest byte under the label of the sample type.\<close>

definition packet_sample :: "u32 \<Rightarrow> u32 \<Rightarrow> u32" where
  "packet_sample ty x = byterev (drop_bit 8 x OR ty)"

definition SAMPLES :: nat where
  "SAMPLES = 2 + AVB_ETHERNET_HDR_SIZE + AVB_TP_HDR_SIZE + AVB_CIP_HDR_SIZE"

definition put_samples :: "u32 \<Rightarrow> avb1722_Talker_StreamConfig_t \<Rightarrow> audio_frame_t \<Rightarrow> bytes \<Rightarrow> bytes option" where
  "put_samples ty c frame b =
     (let dest = SAMPLES + 4 * unat (current_samples_in_packet c * tk_num_channels c)
      in for_each [0..<int_count (tk_num_channels c)] (\<lambda>i b. do {
           k \<leftarrow> rd (tk_map c) i;
           x \<leftarrow> rd (af_samples frame) (unat k);
           copy_in b (dest + 4 * i) (le_bytes32 (packet_sample ty x))
         }) b)"

text \<open>\<open>avb1722_create_packet\<close> returns the size of the packet when it is complete, and 0 before.\<close>

definition samples_in_packet :: "avb1722_Talker_StreamConfig_t \<Rightarrow> u32" where
  "samples_in_packet c = samples_per_packet_base c + (if tk_rem c AND 0xffff0000 \<noteq> 0 then 1 else 0)"

definition next_rem :: "avb1722_Talker_StreamConfig_t \<Rightarrow> u32" where
  "next_rem c = (let r = tk_rem c + samples_per_packet_fractional c
     in if samples_in_packet c > samples_per_packet_base c then r AND 0xffff else r)"

definition finish_packet ::
    "ptp_time_info_mod64 \<Rightarrow> bool \<Rightarrow> u32 \<Rightarrow> avb1722_Talker_StreamConfig_t \<Rightarrow> bytes \<Rightarrow> (u32 \<times> avb1722_Talker_StreamConfig_t \<times> bytes) option" where
  "finish_packet time ts_valid presentation_time c b = do {
     let samples_per_channel = samples_in_packet c;
     let pkt_data_length = of_nat AVB_CIP_HDR_SIZE + push_bit 2 (samples_per_channel * tk_num_channels c);
     let dbc = dbc_at_start_of_last_packet c;
     b \<leftarrow> AVB1722_CIP_HeaderGen (dbc AND 0xff) b;
     let ptp_time = (if ts_valid then local_timestamp_to_ptp_mod32 presentation_time time + presentation_delay c else 0);
     b \<leftarrow> AVB1722_AVBTP_HeaderGen ts_valid ptp_time pkt_data_length (ucast (sequence_number c)) (streamId0 c) b;
     Some (of_nat (AVB_ETHERNET_HDR_SIZE + AVB_TP_HDR_SIZE) + pkt_data_length,
       c\<lparr>tk_rem := next_rem c, dbc_at_start_of_last_packet := dbc + samples_per_channel,
         sequence_number := sequence_number c + 1, current_samples_in_packet := 0, timestamp_valid := False\<rparr>, b)
   }"

definition avb1722_create_packet ::
    "u32 \<Rightarrow> ptp_time_info_mod64 \<Rightarrow> audio_frame_t \<Rightarrow> avb1722_Talker_StreamConfig_t \<Rightarrow> bytes \<Rightarrow> (u32 \<times> avb1722_Talker_StreamConfig_t \<times> bytes) option" where
  "avb1722_create_packet ty time frame c b = do {
     b \<leftarrow> put_samples ty c frame b;
     let this_dbc = dbc_at_start_of_last_packet c + current_samples_in_packet c;
     let ts_this_dbc = (this_dbc AND (ts_interval c - 1) = 0);
     let ts_valid = (timestamp_valid c \<or> ts_this_dbc);
     let presentation_time = (if ts_this_dbc then af_timestamp frame else tk_timestamp c);
     let current = current_samples_in_packet c + 1;
     if current = samples_in_packet c then finish_packet time ts_valid presentation_time c b
     else Some (0, c\<lparr>timestamp_valid := ts_valid, tk_timestamp := presentation_time, current_samples_in_packet := current\<rparr>, b)
   }"

section \<open>The talker unit\<close>

record talker_config =
  cf_sampleType :: u32
  cf_destMAC :: bytes
  cf_streamIdExt :: u32
  cf_num_channels :: u32
  cf_fifo_mask :: u32
  cf_map :: "u32 list"
  cf_rate :: u32
  cf_delay :: u32

record avb_1722_talker_state_t =
  tx_buf :: "bytes list"
  tx_buf_fill_size :: "u32 list"
  talker_streams :: "avb1722_Talker_StreamConfig_t list"
  cur_avb_stream :: int
  max_active_avb_stream :: int
  tk_mac_addr :: bytes
  tk_vlan :: u32
  sent_1722 :: u32
  audioSampleType :: u32

definition talker_ts_interval :: "u32 \<Rightarrow> u32 option" where
  "talker_ts_interval rate =
     (if rate = 8000 then Some 1 else if rate = 16000 then Some 2
      else if rate = 32000 \<or> rate = 44100 \<or> rate = 48000 then Some 8
      else if rate = 88200 \<or> rate = 96000 then Some 16
      else if rate = 176400 \<or> rate = 192000 then Some 32 else None)"

definition rate_fraction :: "u32 \<Rightarrow> u32" where
  "rate_fraction rate = push_bit 16 (rate div 100) div (PACKET_RATE_1722 div 100)"

definition talker_configure_stream ::
    "talker_config \<Rightarrow> bytes \<Rightarrow> avb1722_Talker_StreamConfig_t \<Rightarrow> avb1722_Talker_StreamConfig_t option" where
  "talker_configure_stream cf mac c = do {
     da \<leftarrow> read_block (cf_destMAC cf) 0 6;
     sa \<leftarrow> read_block mac 0 6;
     m \<leftarrow> read_block (cf_map cf) 0 (unat (cf_num_channels cf));
     mp \<leftarrow> copy_in (tk_map c) 0 m;
     interval \<leftarrow> talker_ts_interval (cf_rate cf);
     let tmp = rate_fraction (cf_rate cf);
     Some (c\<lparr>sampleType := cf_sampleType cf, destMACAdrs := da, srcMACAdrs := sa,
       streamId1 := ntoh_32 (sa ! 0, sa ! 1, sa ! 2, sa ! 3),
       streamId0 := push_bit 24 (ucast (sa ! 4)) OR push_bit 16 (ucast (sa ! 5)) OR cf_streamIdExt cf,
       tk_num_channels := cf_num_channels cf, fifo_mask := cf_fifo_mask cf, tk_map := mp,
       presentation_delay := cf_delay cf, ts_interval := interval,
       samples_per_packet_base := drop_bit 16 tmp, samples_per_packet_fractional := tmp AND 0xffff, tk_rem := 0,
       current_samples_in_packet := 0, timestamp_valid := False, tk_initial := True, dbc_at_start_of_last_packet := 0,
       tk_active := 1, sequence_number := 0, txport := 0\<rparr>)
   }"

datatype talker_cmd =
    Configure_Talker nat talker_config | Disable_Talker nat | Talker_Go nat | Talker_Stop nat
  | Talker_Set_Port nat int | Talker_Set_Vlan nat u32 | Talker_Get_Counters | Talker_Other

definition upd_stream ::
    "nat \<Rightarrow> (avb1722_Talker_StreamConfig_t \<Rightarrow> avb1722_Talker_StreamConfig_t) \<Rightarrow> avb_1722_talker_state_t \<Rightarrow> avb_1722_talker_state_t option" where
  "upd_stream i f s = do {
     c \<leftarrow> rd (talker_streams s) i;
     Some (s\<lparr>talker_streams := (talker_streams s)[i := f c]\<rparr>)
   }"

definition avb_1722_talker_init :: "bytes \<Rightarrow> avb_1722_talker_state_t \<Rightarrow> avb_1722_talker_state_t" where
  "avb_1722_talker_init mac s = s\<lparr>tk_vlan := 0, cur_avb_stream := 0, max_active_avb_stream := - 1, tx_buf_fill_size := map (\<lambda>_. 0) (tx_buf_fill_size s),
     tk_mac_addr := mac, talker_streams := map (\<lambda>c. c\<lparr>tk_active := 0\<rparr>) (talker_streams s), sent_1722 := 0\<rparr>"

definition avb_1722_talker_handle_cmd :: "talker_cmd \<Rightarrow> avb_1722_talker_state_t \<Rightarrow> avb_1722_talker_state_t option" where
  "avb_1722_talker_handle_cmd cmd s =
     (case cmd of
        Configure_Talker i cf \<Rightarrow> do {
          c \<leftarrow> rd (talker_streams s) i;
          c \<leftarrow> talker_configure_stream cf (tk_mac_addr s) c;
          b \<leftarrow> rd (tx_buf s) i;
          (ty, b) \<leftarrow> AVB1722_Talker_bufInit c (tk_vlan s) b;
          Some (s\<lparr>talker_streams := (talker_streams s)[i := c],
            max_active_avb_stream := max (int i) (max_active_avb_stream s), tx_buf := (tx_buf s)[i := b], audioSampleType := ty\<rparr>)
        }
      | Disable_Talker i \<Rightarrow> upd_stream i (\<lambda>c. c\<lparr>streamId1 := 0, streamId0 := 0, tk_active := 0\<rparr>) s
      | Talker_Go i \<Rightarrow> upd_stream i (\<lambda>c. c\<lparr>sequence_number := 0, tk_initial := True, tk_active := 2\<rparr>) s
      | Talker_Stop i \<Rightarrow> upd_stream i (\<lambda>c. c\<lparr>tk_active := 1\<rparr>) s
      | Talker_Set_Port i p \<Rightarrow> upd_stream i (\<lambda>c. c\<lparr>txport := p\<rparr>) s
      | Talker_Set_Vlan i v \<Rightarrow> do {
          b \<leftarrow> rd (tx_buf s) i;
          b \<leftarrow> avb1722_set_buffer_vlan v b;
          Some (s\<lparr>tk_vlan := v, tx_buf := (tx_buf s)[i := b]\<rparr>)
        }
      | Talker_Get_Counters \<Rightarrow> Some s
      | Talker_Other \<Rightarrow> Some s)"

text \<open>
  \<open>avb_1722_talker_send_packets\<close> adds the frame that is ready to the packet of every streaming stream, and then sends one of the
  complete packets. The frame is that of the buffer half the audio interface does not fill.
\<close>

definition talker_add_frame ::
    "ptp_time_info_mod64 \<Rightarrow> audio_frame_t \<Rightarrow> nat \<Rightarrow> avb_1722_talker_state_t \<Rightarrow> avb_1722_talker_state_t option" where
  "talker_add_frame time frame i s = do {
     c \<leftarrow> rd (talker_streams s) i;
     if tk_active c = 2 then do {
       b \<leftarrow> rd (tx_buf s) i;
       (packet_size, c, b) \<leftarrow> avb1722_create_packet (audioSampleType s) time frame c b;
       f \<leftarrow> rd (tx_buf_fill_size s) i;
       Some (s\<lparr>tx_buf := (tx_buf s)[i := b], talker_streams := (talker_streams s)[i := c],
         tx_buf_fill_size := (if f = 0 then (tx_buf_fill_size s)[i := packet_size] else tx_buf_fill_size s)\<rparr>)
     } else Some s
   }"

primrec talker_transmit :: "nat list \<Rightarrow> avb_1722_talker_state_t \<Rightarrow> (bytes list \<times> avb_1722_talker_state_t) option" where
  "talker_transmit [] s = Some ([], s)"
| "talker_transmit (i # is) s = do {
     packet_size \<leftarrow> rd (tx_buf_fill_size s) i;
     if packet_size \<noteq> 0 then do {
       b \<leftarrow> rd (tx_buf s) i;
       frame \<leftarrow> read_block b 2 (unat packet_size);
       Some ([frame], s\<lparr>tx_buf_fill_size := (tx_buf_fill_size s)[i := 0], sent_1722 := sent_1722 s + 1\<rparr>)
     } else talker_transmit is s
   }"

definition avb_1722_talker_send_packets ::
    "ptp_time_info_mod64 \<Rightarrow> audio_frame_t list \<Rightarrow> audio_double_buffer_t \<Rightarrow> avb_1722_talker_state_t
      \<Rightarrow> (bytes list \<times> audio_double_buffer_t \<times> avb_1722_talker_state_t) option" where
  "avb_1722_talker_send_packets time frames p s =
     (if data_ready p = 0 then Some ([], p, s)
      else do {
        frame \<leftarrow> rd frames (if active_buffer p = 0 then 1 else 0);
        if max_active_avb_stream s \<noteq> - 1 then do {
          let is = [0..<nat (max_active_avb_stream s + 1)];
          s \<leftarrow> for_each is (talker_add_frame time frame) s;
          (sent, s) \<leftarrow> talker_transmit is s;
          Some (sent, p\<lparr>data_ready := 0\<rparr>, s)
        } else Some ([], p, s)
      })"

text \<open>
  One turn of the loop of \<^verbatim>\<open>avb_1722_talker\<close>: a command, the time to ask the PTP server for new time information, its answer, or, when
  none of these is there, the next audio frame. The result is what is sent, and whether the PTP server is asked.
\<close>

definition TIMEINFO_UPDATE_INTERVAL :: u32 where "TIMEINFO_UPDATE_INTERVAL = 50000000"

record talker_task =
  tt_state :: avb_1722_talker_state_t
  tt_timeInfo :: ptp_time_info_mod64
  tt_t :: u32
  pending_timeinfo :: bool

datatype talker_event =
    Talker_Cmd talker_cmd | Talker_Timer u32 | Talker_Time_Info ptp_time_info_mod64 | Talker_Idle

definition avb_1722_talker_turn ::
    "audio_frame_t list \<Rightarrow> talker_event \<Rightarrow> audio_double_buffer_t \<Rightarrow> talker_task
      \<Rightarrow> (bytes list \<times> bool \<times> audio_double_buffer_t \<times> talker_task) option" where
  "avb_1722_talker_turn frames ev p k =
     (case ev of
        Talker_Cmd cmd \<Rightarrow> do { s \<leftarrow> avb_1722_talker_handle_cmd cmd (tt_state k); Some ([], False, p, k\<lparr>tt_state := s\<rparr>) }
      | Talker_Timer now \<Rightarrow> Some ([], \<not> pending_timeinfo k, p, k\<lparr>tt_t := now + TIMEINFO_UPDATE_INTERVAL, pending_timeinfo := True\<rparr>)
      | Talker_Time_Info info \<Rightarrow> Some ([], False, p, k\<lparr>tt_timeInfo := info, pending_timeinfo := False\<rparr>)
      | Talker_Idle \<Rightarrow> do {
          (sent, p, s) \<leftarrow> avb_1722_talker_send_packets (tt_timeInfo k) frames p (tt_state k);
          Some (sent, False, p, k\<lparr>tt_state := s\<rparr>)
        })"

end
