(* ===== verification/Listener_1722.thy ===== *)
theory Listener_1722
  imports Avbtp Audio_Fifo "HOL-Library.Signed_Division"
begin

text \<open>
  The stream listener: \<^verbatim>\<open>src/1722/avb_1722_listener_support_audio.c\<close> and the commands and the packet handler of
  \<^verbatim>\<open>avb_1722_listener.xc\<close>. The audio FIFOs the buffer handle gives access to are a list of \<open>ofifo_t\<close>; an \<^verbatim>\<open>int\<close> is an \<open>int\<close>, as the
  values stay far from the limits; \<open>sdiv\<close> is division that truncates.
\<close>

section \<open>Model\<close>

record avb_1722_stream_info_t =
  ls_active :: bool
  ls_state :: int
  chan_lock :: int
  ls_rate :: int
  prev_num_samples :: int
  num_channels_in_payload :: int
  ls_num_channels :: int
  ls_dbc :: int
  ls_map :: "int list"

text \<open>The rate that a number of samples per packet and channel stands for, and the number of samples between timestamps.\<close>

definition estimated_rate :: "int \<Rightarrow> int" where
  "estimated_rate n =
     (if n = 1 then 8000 else if n = 2 then 16000 else if n = 4 then 32000 else if n = 5 then 44100
      else if n = 6 then 48000 else if n = 11 then 88200 else if n = 12 then 96000 else if n = 24 then 192000 else 0)"

definition syt_interval :: "int \<Rightarrow> u32 option" where
  "syt_interval rate =
     (if rate = 8000 then Some 1 else if rate = 16000 then Some 2
      else if rate = 32000 \<or> rate = 44100 \<or> rate = 48000 then Some 8
      else if rate = 88200 \<or> rate = 96000 then Some 16
      else if rate = 176400 \<or> rate = 192000 then Some 32 else None)"

text \<open>Locking on to a stream: 16 packets with the same number of channels.\<close>

definition listener_lock :: "int \<Rightarrow> int \<Rightarrow> int \<Rightarrow> avb_1722_stream_info_t \<Rightarrow> avb_1722_stream_info_t option" where
  "listener_lock prev dbc_diff num_samples s =
     (if prev = 0 \<or> dbc_diff = 0 then Some s
      else do {
        let num_channels = prev sdiv dbc_diff;
        let s = (if num_channels_in_payload s = 0 \<or> num_channels_in_payload s \<noteq> num_channels
                 then s\<lparr>num_channels_in_payload := num_channels, chan_lock := 0, ls_rate := 0\<rparr> else s);
        let s = s\<lparr>ls_rate := ls_rate s + num_samples, chan_lock := chan_lock s + 1\<rparr>;
        if chan_lock s = 16
        then if num_channels_in_payload s = 0 then None
          else Some (s\<lparr>ls_rate := estimated_rate (ls_rate s sdiv num_channels_in_payload s sdiv 16)\<rparr>)
        else Some s
      })"

text \<open>The FIFO of a channel, for the channels that have one.\<close>

definition with_fifo :: "avb_1722_stream_info_t \<Rightarrow> nat \<Rightarrow> (ofifo_t \<Rightarrow> 'a \<Rightarrow> (ofifo_t \<times> 'a) option) \<Rightarrow> ofifo_t list \<times> 'a \<Rightarrow> (ofifo_t list \<times> 'a) option" where
  "with_fifo s i f st = do {
     k \<leftarrow> rd (ls_map s) i;
     if k \<ge> 0 then do {
       q \<leftarrow> rd (fst st) (nat k);
       (q, x) \<leftarrow> f q (snd st);
       Some ((fst st)[nat k := q], x)
     } else Some st
   }"

definition listener_timestamp ::
    "u32 \<Rightarrow> u32 \<Rightarrow> avb_1722_stream_info_t \<Rightarrow> ofifo_t list \<times> unit \<Rightarrow> (ofifo_t list \<times> unit) option" where
  "listener_timestamp ts sample_num s =
     for_each [0..<nat (ls_num_channels s)]
       (\<lambda>i. with_fifo s i (\<lambda>q u. Some (audio_output_fifo_set_ptp_timestamp ts (unat sample_num) q, u)))"

definition listener_maintain ::
    "avb_1722_stream_info_t \<Rightarrow> ofifo_t list \<times> buf_ctl_msg list \<times> bool \<Rightarrow> (ofifo_t list \<times> buf_ctl_msg list \<times> bool) option" where
  "listener_maintain s =
     for_each [0..<nat (ls_num_channels s)]
       (\<lambda>i. with_fifo s i (\<lambda>q (msgs, notified). do {
          (new, notified, q) \<leftarrow> audio_output_fifo_maintain notified q;
          Some (q, msgs @ new, notified) }))"

text \<open>The words of a buffer from an offset on, as far as there are four bytes for them.\<close>

definition word_at :: "bytes \<Rightarrow> nat \<Rightarrow> u32" where
  "word_at b p = ucast (b ! p) OR push_bit 8 (ucast (b ! (p + 1))) OR push_bit 16 (ucast (b ! (p + 2))) OR push_bit 24 (ucast (b ! (p + 3)))"

definition words_from :: "bytes \<Rightarrow> nat \<Rightarrow> u32 list" where
  "words_from b p = map (\<lambda>i. word_at b (p + 4 * i)) [0..<(length b - p) div 4]"

definition listener_push ::
    "fifo_conf \<Rightarrow> bytes \<Rightarrow> nat \<Rightarrow> int \<Rightarrow> avb_1722_stream_info_t \<Rightarrow> ofifo_t list \<times> unit \<Rightarrow> (ofifo_t list \<times> unit) option" where
  "listener_push cf b p num_samples s =
     for_each [0..<nat (min (ls_num_channels s) (num_channels_in_payload s))]
       (\<lambda>i. with_fifo s i (\<lambda>q u. do {
          q \<leftarrow> audio_output_fifo_strided_push cf (words_from b (p + 4 * i)) (nat (num_channels_in_payload s)) (nat num_samples) q;
          Some (q, u) }))"

text \<open>
  The result of processing a packet: the return value, the messages to the media clock server, the flag
  \<^verbatim>\<open>notified_buf_ctl\<close>, the stream and the FIFOs.
\<close>

type_synonym listener_result = "bool \<times> buf_ctl_msg list \<times> bool \<times> avb_1722_stream_info_t \<times> ofifo_t list"

definition listener_deliver ::
    "fifo_conf \<Rightarrow> bytes \<Rightarrow> nat \<Rightarrow> u8 \<Rightarrow> int \<Rightarrow> bool \<Rightarrow> avb_1722_stream_info_t \<Rightarrow> ofifo_t list \<Rightarrow> listener_result option" where
  "listener_deliver cf b hdr dbc num_samples notified s fifos = do {
     tv \<leftarrow> AVBTP_TV hdr b;
     if tv = 1 \<and> syt_interval (ls_rate s) = None then Some (False, [], notified, s, fifos)
     else do {
       fifos \<leftarrow> (case syt_interval (ls_rate s) of
           Some interval \<Rightarrow> if tv = 1 then do {
             ts \<leftarrow> AVBTP_TIMESTAMP hdr b;
             (fifos, _) \<leftarrow> listener_timestamp ts ((interval - (ucast dbc AND (interval - 1))) AND (interval - 1)) s (fifos, ());
             Some fifos } else Some fifos
         | None \<Rightarrow> Some fifos);
       (fifos, msgs, notified) \<leftarrow> listener_maintain s (fifos, [], notified);
       (fifos, _) \<leftarrow> listener_push cf b (hdr + AVB_TP_HDR_SIZE + AVB_CIP_HDR_SIZE) num_samples s (fifos, ());
       Some (True, msgs, notified, s, fifos)
     }
   }"

definition avb_1722_listener_process_packet ::
    "fifo_conf \<Rightarrow> bytes \<Rightarrow> nat \<Rightarrow> bool \<Rightarrow> avb_1722_stream_info_t \<Rightarrow> ofifo_t list \<Rightarrow> listener_result option" where
  "avb_1722_listener_process_packet cf b numBytes notified s fifos = do {
     tpid \<leftarrow> rd b 12;
     let hdr = (if tpid = 0x81 then 18 else 14);
     if numBytes \<le> hdr + AVB_TP_HDR_SIZE + AVB_CIP_HDR_SIZE then Some (False, [], notified, s, fifos)
     else do {
       version \<leftarrow> AVBTP_VERSION hdr b;
       cd \<leftarrow> AVBTP_CD hdr b;
       sv \<leftarrow> AVBTP_SV hdr b;
       if version \<noteq> 0 \<or> cd \<noteq> AVBTP_CD_DATA \<or> sv = 0 then Some (False, [], notified, s, fifos)
       else do {
         dbc \<leftarrow> rd b (hdr + AVB_TP_HDR_SIZE + 3);
         let dbc_diff = uint dbc - ls_dbc s;
         let dbc_diff = (if dbc_diff < 0 then dbc_diff + 0x100 else dbc_diff);
         len \<leftarrow> packet_data_length hdr b;
         let num_samples = (uint len - 8) div 4;
         let prev = prev_num_samples s;
         let s = s\<lparr>ls_dbc := uint dbc, prev_num_samples := num_samples\<rparr>;
         if chan_lock s < 16 then do {
           s \<leftarrow> listener_lock prev dbc_diff num_samples s;
           Some (False, [], notified, s, fifos)
         } else listener_deliver cf b hdr dbc num_samples notified s fifos
       }
     }
   }"

section \<open>The listener unit\<close>

record avb_1722_listener_state_t =
  listener_streams :: "avb_1722_stream_info_t list"
  notified_buf_ctl :: bool
  router_link :: int
  received_1722 :: u32
  ln_fifos :: "ofifo_t list"

definition avb_1722_listener_init :: "int \<Rightarrow> avb_1722_listener_state_t \<Rightarrow> avb_1722_listener_state_t" where
  "avb_1722_listener_init link s = s\<lparr>router_link := link, notified_buf_ctl := False,
     listener_streams := map (\<lambda>c. c\<lparr>ls_active := False, ls_state := 0\<rparr>) (listener_streams s), received_1722 := 0\<rparr>"

text \<open>\<open>configure_stream\<close> gets the media clock, the rate and the FIFOs of the channels.\<close>

definition listener_configure_stream ::
    "int \<Rightarrow> int \<Rightarrow> int list \<Rightarrow> avb_1722_stream_info_t \<Rightarrow> ofifo_t list \<Rightarrow> (avb_1722_stream_info_t \<times> ofifo_t list) option" where
  "listener_configure_stream clock rate fifo_map s fifos = do {
     mp \<leftarrow> copy_in (ls_map s) 0 fifo_map;
     let s = s\<lparr>ls_rate := rate, ls_num_channels := int (length fifo_map), ls_map := mp\<rparr>;
     (fifos, _) \<leftarrow> for_each [0..<length fifo_map]
       (\<lambda>i. with_fifo s i (\<lambda>q u. do { q \<leftarrow> enable_audio_output_fifo clock q; Some (q, u) })) (fifos, ());
     Some (s\<lparr>ls_active := True, ls_state := 0, num_channels_in_payload := 0, chan_lock := 0, prev_num_samples := 0, ls_dbc := - 1\<rparr>, fifos)
   }"

definition listener_disable_stream :: "avb_1722_stream_info_t \<Rightarrow> ofifo_t list \<Rightarrow> (avb_1722_stream_info_t \<times> ofifo_t list) option" where
  "listener_disable_stream s fifos = do {
     (fifos, _) \<leftarrow> for_each [0..<nat (ls_num_channels s)]
       (\<lambda>i. with_fifo s i (\<lambda>q u. Some (disable_audio_output_fifo q, u))) (fifos, ());
     Some (s\<lparr>ls_active := False, ls_state := 0\<rparr>, fifos)
   }"

definition listener_adjust_map :: "int list \<Rightarrow> avb_1722_stream_info_t \<Rightarrow> avb_1722_stream_info_t option" where
  "listener_adjust_map new_map s = do {
     m \<leftarrow> read_block new_map 0 (nat (ls_num_channels s));
     mp \<leftarrow> copy_in (ls_map s) 0 m;
     Some (s\<lparr>ls_map := mp\<rparr>)
   }"

definition listener_adjust_volume :: "u32 list \<Rightarrow> avb_1722_stream_info_t \<Rightarrow> ofifo_t list \<Rightarrow> ofifo_t list option" where
  "listener_adjust_volume volumes s fifos = for_each [0..<length volumes] (\<lambda>i fifos.
     if int i < ls_num_channels s then do {
       k \<leftarrow> rd (ls_map s) i;
       q \<leftarrow> (if k < 0 then None else rd fifos (nat k));
       Some (fifos[nat k := audio_output_fifo_set_volume (volumes ! i) q])
     } else Some fifos) fifos"

datatype listener_cmd =
    Configure_Listener nat int int "int list" | Adjust_Listener_Map nat "int list" | Adjust_Listener_Volume nat "u32 list"
  | Disable_Listener nat | Listener_Get

definition avb_1722_listener_handle_cmd :: "listener_cmd \<Rightarrow> avb_1722_listener_state_t \<Rightarrow> avb_1722_listener_state_t option" where
  "avb_1722_listener_handle_cmd cmd s =
     (case cmd of
        Configure_Listener n clock rate fifo_map \<Rightarrow> do {
          c \<leftarrow> rd (listener_streams s) n;
          (c, fifos) \<leftarrow> listener_configure_stream clock rate fifo_map c (ln_fifos s);
          Some (s\<lparr>listener_streams := (listener_streams s)[n := c], ln_fifos := fifos\<rparr>)
        }
      | Adjust_Listener_Map n new_map \<Rightarrow> do {
          c \<leftarrow> rd (listener_streams s) n;
          c \<leftarrow> listener_adjust_map new_map c;
          Some (s\<lparr>listener_streams := (listener_streams s)[n := c]\<rparr>)
        }
      | Adjust_Listener_Volume n volumes \<Rightarrow> do {
          c \<leftarrow> rd (listener_streams s) n;
          fifos \<leftarrow> listener_adjust_volume volumes c (ln_fifos s);
          Some (s\<lparr>ln_fifos := fifos\<rparr>)
        }
      | Disable_Listener n \<Rightarrow> do {
          c \<leftarrow> rd (listener_streams s) n;
          (c, fifos) \<leftarrow> listener_disable_stream c (ln_fifos s);
          Some (s\<lparr>listener_streams := (listener_streams s)[n := c], ln_fifos := fifos\<rparr>)
        }
      | Listener_Get \<Rightarrow> Some s)"

text \<open>A packet arrives with the number of the stream the MAC filter found for it. The packet starts at the third byte of the buffer.\<close>

definition avb_1722_listener_handle_packet ::
    "fifo_conf \<Rightarrow> bool \<Rightarrow> nat \<Rightarrow> nat \<Rightarrow> bytes \<Rightarrow> avb_1722_listener_state_t \<Rightarrow> (buf_ctl_msg list \<times> avb_1722_listener_state_t) option" where
  "avb_1722_listener_handle_packet cf is_data stream_id len rxbuf s =
     (if \<not> is_data then Some ([], s)
      else if stream_id < length (listener_streams s) \<and> ls_active (listener_streams s ! stream_id) then do {
        (_, msgs, notified, c, fifos) \<leftarrow> avb_1722_listener_process_packet cf (drop 2 rxbuf) len (notified_buf_ctl s)
          (listener_streams s ! stream_id) (ln_fifos s);
        Some (msgs, s\<lparr>listener_streams := (listener_streams s)[stream_id := c], notified_buf_ctl := notified, ln_fifos := fifos,
          received_1722 := received_1722 s + 1\<rparr>)
      } else Some ([], s))"

text \<open>One turn of the loop of \<^verbatim>\<open>avb_1722_listener\<close>: a message of the media clock server for a FIFO, a packet, or a command.\<close>

datatype listener_event =
    Listener_Buf_Ctl nat buf_ctl_cmd | Listener_Packet bool nat nat bytes | Listener_Cmd listener_cmd

definition avb_1722_listener_turn ::
    "fifo_conf \<Rightarrow> listener_event \<Rightarrow> avb_1722_listener_state_t \<Rightarrow> (buf_ctl_msg list \<times> avb_1722_listener_state_t) option" where
  "avb_1722_listener_turn cf ev s =
     (case ev of
        Listener_Buf_Ctl k cmd \<Rightarrow> do {
          q \<leftarrow> rd (ln_fifos s) k;
          (msgs, notified, q) \<leftarrow> audio_output_fifo_handle_buf_ctl cmd (notified_buf_ctl s) q;
          Some (msgs, s\<lparr>ln_fifos := (ln_fifos s)[k := q], notified_buf_ctl := notified\<rparr>)
        }
      | Listener_Packet is_data stream_id len rxbuf \<Rightarrow> avb_1722_listener_handle_packet cf is_data stream_id len rxbuf s
      | Listener_Cmd cmd \<Rightarrow> do { s \<leftarrow> avb_1722_listener_handle_cmd cmd s; Some ([], s) })"

end
