(* ===== verification/Stream_1722.thy ===== *)
theory Stream_1722
  imports Talker_1722 Listener_1722
begin

text \<open>
  The way of an audio stream from the talker to the FIFOs of the listener: the packet the talker builds from a run of audio frames, the
  header it carries, and what the listener does with it.
\<close>


section \<open>The packet under construction\<close>

lemma overlay_append:
  assumes "p + length xs + length ys \<le> length b"
  shows "overlay (p + length xs) ys (overlay p xs b) = overlay p (xs @ ys) b"
  using assms by (simp add: overlay_eq ac_simps)

text \<open>The words one frame adds to a packet.\<close>

definition frame_words :: "u32 \<Rightarrow> avb1722_Talker_StreamConfig_t \<Rightarrow> nat \<Rightarrow> audio_frame_t \<Rightarrow> u32 list" where
  "frame_words ty c ch f = map (\<lambda>i. packet_sample ty (af_samples f ! unat (tk_map c ! i))) [0..<ch]"

definition word_bytes :: "u32 list \<Rightarrow> bytes" where
  "word_bytes ws = concat (map le_bytes32 ws)"

lemma length_word_bytes [simp]: "length (word_bytes ws) = 4 * length ws"
  by (induction ws) (simp_all add: word_bytes_def le_bytes32_def)

lemma word_bytes_append [simp]: "word_bytes (xs @ ys) = word_bytes xs @ word_bytes ys" "word_bytes [] = []" "word_bytes [w] = le_bytes32 w"
  by (simp_all add: word_bytes_def)

definition frame_ok :: "avb1722_Talker_StreamConfig_t \<Rightarrow> nat \<Rightarrow> audio_frame_t \<Rightarrow> bool" where
  "frame_ok c ch f \<longleftrightarrow> ch \<le> length (tk_map c) \<and> (\<forall>i < ch. unat (tk_map c ! i) < length (af_samples f))"

lemma put_words:
  assumes "frame_ok c ch f" and "n \<le> ch" and "p + 4 * n \<le> length b"
  shows "for_each [0..<n] (\<lambda>i b. do {
           k \<leftarrow> rd (tk_map c) i;
           x \<leftarrow> rd (af_samples f) (unat k);
           copy_in b (p + 4 * i) (le_bytes32 (packet_sample ty x)) }) b
     = Some (overlay p (word_bytes (frame_words ty c n f)) b)"
  using assms(2,3)
proof (induction n)
  case 0
  then show ?case by (simp add: frame_words_def overlay_eq)
next
  case (Suc n)
  let ?w = "packet_sample ty (af_samples f ! unat (tk_map c ! n))"
  have f: "frame_words ty c (Suc n) f = frame_words ty c n f @ [?w]" by (simp add: frame_words_def)
  have l: "length (frame_words ty c n f) = n" by (simp add: frame_words_def)
  have "copy_in (overlay p (word_bytes (frame_words ty c n f)) b) (p + 4 * n) (le_bytes32 ?w)
      = Some (overlay p (word_bytes (frame_words ty c (Suc n) f)) b)"
    using Suc.prems overlay_append [of p "word_bytes (frame_words ty c n f)" "le_bytes32 ?w" b]
    by (simp add: copy_in_overlay f l)
  then show ?case using Suc assms(1) by (simp add: for_each_append frame_ok_def)
qed

text \<open>A talker ready for the first frame of a packet of \<open>n\<close> frames of \<open>ch\<close> channels, with room for it.\<close>

definition talker_ready :: "avb1722_Talker_StreamConfig_t \<Rightarrow> nat \<Rightarrow> nat \<Rightarrow> bytes \<Rightarrow> bool" where
  "talker_ready c ch n b \<longleftrightarrow> current_samples_in_packet c = 0 \<and> tk_num_channels c = of_nat ch \<and> samples_in_packet c = of_nat n
     \<and> 0 < n \<and> 0 < ch \<and> SAMPLES + 4 * (n * ch) \<le> length b \<and> length b < 2 ^ 15"

lemma put_samples_eq:
  assumes "tk_num_channels c = of_nat ch" and "current_samples_in_packet c = of_nat j" and "frame_ok c ch f"
    and "SAMPLES + 4 * (j * ch) + 4 * ch \<le> length b" and "length b < 2 ^ 15"
  shows "put_samples ty c f b = Some (overlay (SAMPLES + 4 * (j * ch)) (word_bytes (frame_words ty c ch f)) b)"
proof -
  have ch: "int_count (of_nat ch) = ch"
    using assms(4,5) by (simp add: int_count_def signed_of_nat signed_take_bit_int_eq_self)
  have "unat (of_nat j * of_nat ch :: u32) = j * ch"
    using assms(4,5) by (simp flip: of_nat_mult add: unat_of_nat take_bit_eq_mod)
  then show ?thesis
    using put_words [OF assms(3) order.refl, of "SAMPLES + 4 * (j * ch)" b ty] assms by (simp add: put_samples_def ch Let_def)
qed

lemma byte_setters:
  "p < length b \<Longrightarrow> set_byte p a b = Some (b[p := ucast a])"
  "p < length b \<Longrightarrow> or_byte p a b = Some (b[p := b ! p OR ucast a])"
  "p + 4 \<le> length b \<Longrightarrow> put32 p a b = Some (overlay p (le_bytes32 (byterev a)) b)"
  by (simp_all add: set_byte_def or_byte_def put32_def hton_32_inline_same hton_32_def copy_in_overlay le_bytes32_byterev)

lemmas header_sizes = AVB_ETHERNET_HDR_SIZE_def AVB_TP_HDR_SIZE_def AVB_CIP_HDR_SIZE_def SAMPLES_def

lemma finish_packet_spec:
  assumes "52 \<le> length b"
  shows "\<exists>b'. finish_packet time v pt c b = Some (50 + push_bit 2 (samples_in_packet c * tk_num_channels c),
       c\<lparr>tk_rem := next_rem c, dbc_at_start_of_last_packet := dbc_at_start_of_last_packet c + samples_in_packet c,
         sequence_number := sequence_number c + 1, current_samples_in_packet := 0, timestamp_valid := False\<rparr>, b')
     \<and> length b' = length b \<and> drop SAMPLES b' = drop SAMPLES b \<and> b' ! 14 = b ! 14 \<and> b' ! 20 = b ! 20
     \<and> b' ! 21 = (b ! 21 AND NOT 1) OR (if v then 1 else 0) \<and> b' ! 47 = ucast (dbc_at_start_of_last_packet c)
     \<and> b' ! 40 = ucast (signed_drop_bit 8 (8 + push_bit 2 (samples_in_packet c * tk_num_channels c)))
     \<and> b' ! 41 = ucast (8 + push_bit 2 (samples_in_packet c * tk_num_channels c))"
proof -
  let ?ts = "if v then local_timestamp_to_ptp_mod32 pt time + presentation_delay c else 0"
  let ?len = "8 + push_bit 2 (samples_in_packet c * tk_num_channels c)"
  let ?b1 = "b[47 := ucast (dbc_at_start_of_last_packet c), 40 := ucast (signed_drop_bit 8 ?len), 41 := ucast ?len]"
  let ?b2 = "overlay 32 (le_bytes32 (byterev ?ts)) (?b1[21 := b ! 21 AND NOT 1 OR (if v then 1 else 0)])"
  let ?b3 = "(overlay 28 (le_bytes32 (byterev (streamId0 c))) ?b2)[22 := ucast (ucast (sequence_number c) :: u32)]"
  have "finish_packet time v pt c b = Some (50 + push_bit 2 (samples_in_packet c * tk_num_channels c),
       c\<lparr>tk_rem := next_rem c, dbc_at_start_of_last_packet := dbc_at_start_of_last_packet c + samples_in_packet c,
         sequence_number := sequence_number c + 1, current_samples_in_packet := 0, timestamp_valid := False\<rparr>, ?b3)"
    using assms
    by (simp add: finish_packet_def AVB1722_CIP_HeaderGen_def AVB1722_AVBTP_HeaderGen_def SET_AVB1722_CIP_DBC_def
        SET_AVBTP_PACKET_DATA_LENGTH_def SET_AVBTP_TV_def SET_AVBTP_TIMESTAMP_def SET_AVBTP_STREAM_ID0_def
        SET_AVBTP_SEQUENCE_NUMBER_def header_sizes byte_setters Let_def)
  moreover have "length ?b3 = length b" by simp
  moreover have "drop SAMPLES ?b3 = drop SAMPLES b"
    by (rule nth_equalityI) (use assms in \<open>simp_all add: header_sizes nth_overlay\<close>)
  ultimately show ?thesis
    by (intro exI [of _ ?b3]) (use assms in \<open>simp add: nth_overlay\<close>)
qed

text \<open>Audio frames, one after the other, added to the packet of a stream.\<close>

definition feed :: "u32 \<Rightarrow> ptp_time_info_mod64 \<Rightarrow> audio_frame_t list \<Rightarrow> avb1722_Talker_StreamConfig_t \<Rightarrow> bytes
      \<Rightarrow> (u32 \<times> avb1722_Talker_StreamConfig_t \<times> bytes) option" where
  "feed ty time frames c b = for_each frames (\<lambda>f (_, c, b). avb1722_create_packet ty time f c b) (0, c, b)"

text \<open>The stream while \<open>j\<close> frames of the packet are present.\<close>

definition filling :: "avb1722_Talker_StreamConfig_t \<Rightarrow> nat \<Rightarrow> avb1722_Talker_StreamConfig_t \<Rightarrow> bool" where
  "filling c j d \<longleftrightarrow> (\<exists>v t. d = c\<lparr>current_samples_in_packet := of_nat j, timestamp_valid := v, tk_timestamp := t\<rparr>)"

lemma filling_simps:
  assumes "filling c j d"
  shows "current_samples_in_packet d = of_nat j" "tk_num_channels d = tk_num_channels c" "tk_map d = tk_map c"
    "samples_in_packet d = samples_in_packet c" "dbc_at_start_of_last_packet d = dbc_at_start_of_last_packet c" "streamId0 d = streamId0 c"
    "next_rem d = next_rem c" "sequence_number d = sequence_number c" "presentation_delay d = presentation_delay c"
  using assms unfolding filling_def by (auto simp: samples_in_packet_def next_rem_def)

lemma filling_start: "talker_ready c ch n b \<Longrightarrow> filling c 0 c"
  unfolding filling_def talker_ready_def
  by (intro exI [of _ "timestamp_valid c"] exI [of _ "tk_timestamp c"]) simp

lemma put_next_frame:
  assumes "talker_ready c ch n b" and "filling c (length fs) d" and "length fs < n" and "frame_ok c ch f"
  shows "put_samples ty d f (overlay SAMPLES (word_bytes (concat (map (frame_words ty c ch) fs))) b)
      = Some (overlay SAMPLES (word_bytes (concat (map (frame_words ty c ch) (fs @ [f])))) b)"
    and "n < 2 ^ 15"
proof -
  let ?ws = "word_bytes (concat (map (frame_words ty c ch) fs))"
  note s = filling_simps [OF assms(2)]
  have c: "tk_num_channels c = of_nat ch" "SAMPLES + 4 * (n * ch) \<le> length b" "length b < 2 ^ 15" "0 < ch"
    using assms(1) by (simp_all add: talker_ready_def)
  have "n \<le> n * ch" using c(4) by (cases ch) simp_all
  then show "n < 2 ^ 15" using c(2,3) by linarith
  have "Suc (length fs) * ch \<le> n * ch" using assms(3) by (intro mult_le_mono1) simp
  then have fit: "SAMPLES + 4 * (length fs * ch) + 4 * ch \<le> length b" using c(2) by simp
  have l: "length ?ws = 4 * (length fs * ch)"
    by (simp add: length_concat comp_def frame_words_def sum_list_triv)
  have fw: "frame_words ty d ch f = frame_words ty c ch f" by (simp add: frame_words_def s)
  show "put_samples ty d f (overlay SAMPLES ?ws b) = Some (overlay SAMPLES (word_bytes (concat (map (frame_words ty c ch) (fs @ [f])))) b)"
    using put_samples_eq [of d ch "length fs" f "overlay SAMPLES ?ws b" ty] assms(4) fit c(1,3) l
      overlay_append [of SAMPLES ?ws "word_bytes (frame_words ty c ch f)" b]
    by (simp add: s fw frame_ok_def) (simp add: frame_words_def)
qed

lemma small_count_eq: "j < 2 ^ 15 \<Longrightarrow> n < 2 ^ 15 \<Longrightarrow> of_nat j = (of_nat n :: u32) \<longleftrightarrow> j = n"
  by (auto simp: word_of_nat_eq_iff take_bit_eq_mod)

lemma feed_partial:
  assumes "talker_ready c ch n b" and "\<forall>f \<in> set frames. frame_ok c ch f" and "length frames < n"
  shows "\<exists>d. feed ty time frames c b = Some (0, d, overlay SAMPLES (word_bytes (concat (map (frame_words ty c ch) frames))) b)
     \<and> filling c (length frames) d"
  using assms(2,3)
proof (induction frames rule: rev_induct)
  case Nil
  have "overlay SAMPLES [] b = b" using assms(1) by (simp add: talker_ready_def overlay_eq)
  then show ?case using filling_start [OF assms(1)] by (simp add: feed_def)
next
  case (snoc f fs)
  let ?b = "\<lambda>fs. overlay SAMPLES (word_bytes (concat (map (frame_words ty c ch) fs))) b"
  from snoc obtain d where d: "feed ty time fs c b = Some (0, d, ?b fs)" "filling c (length fs) d" by auto
  have put: "put_samples ty d f (?b fs) = Some (?b (fs @ [f]))" and n: "n < 2 ^ 15"
    using put_next_frame [OF assms(1) d(2)] snoc.prems by auto
  have ne: "1 + of_nat (length fs) \<noteq> (of_nat n :: u32)"
    using small_count_eq [of "Suc (length fs)" n] n snoc.prems(2) by simp
  obtain v t where dv: "d = c\<lparr>current_samples_in_packet := of_nat (length fs), timestamp_valid := v, tk_timestamp := t\<rparr>"
    using d(2) by (auto simp: filling_def)
  define z where "z \<longleftrightarrow> (dbc_at_start_of_last_packet c + of_nat (length fs)) AND (ts_interval c - 1) = 0"
  have "avb1722_create_packet ty time f d (?b fs)
      = Some (0, c\<lparr>current_samples_in_packet := of_nat (Suc (length fs)), timestamp_valid := v \<or> z, tk_timestamp := (if z then af_timestamp f else t)\<rparr>,
          ?b (fs @ [f]))"
    using put ne dv z_def filling_simps(4) [OF d(2)] assms(1)
    by (simp add: avb1722_create_packet_def Let_def add.commute talker_ready_def)
  then have "\<exists>e. avb1722_create_packet ty time f d (?b fs) = Some (0, e, ?b (fs @ [f])) \<and> filling c (Suc (length fs)) e"
    unfolding filling_def by blast
  then show ?case using d(1) by (auto simp: feed_def for_each_append)
qed

text \<open>The buffer with a complete packet, and the headers a listener accepts.\<close>

definition packet_header :: "bytes \<Rightarrow> bool" where
  "packet_header b \<longleftrightarrow> 52 \<le> length b \<and> b ! 14 = 0x81 \<and> drop_bit 7 (b ! 20) = 0 \<and> b ! 21 AND NOT 1 = 0x80"

lemma word_bytes_nth: "i < length ws \<Longrightarrow> take 4 (drop (4 * i) (word_bytes ws)) = le_bytes32 (ws ! i)"
proof (induction ws arbitrary: i)
  case (Cons w ws)
  have "word_bytes (w # ws) = le_bytes32 w @ word_bytes ws" by (simp add: word_bytes_def)
  with Cons show ?case by (cases i) (auto simp: drop_append)
qed simp

lemma sint_small: "x < 2 ^ 31 \<Longrightarrow> sint (of_nat x :: u32) = int x"
  by (simp add: signed_of_nat signed_take_bit_int_eq_self)

lemma signed_drop_small:
  assumes "x < 2 ^ 31"
  shows "signed_drop_bit k (of_nat x :: u32) = of_nat (x div 2 ^ k)"
proof (rule signed_word_eqI)
  have "x div 2 ^ k \<le> x" by simp
  then have "x div 2 ^ k < 2 ^ 31" using assms by linarith
  then show "sint (signed_drop_bit k (of_nat x :: u32)) = sint (of_nat (x div 2 ^ k) :: u32)"
    unfolding sint_signed_drop_bit_eq using assms by (simp add: sint_small drop_bit_eq_div zdiv_int)
qed

lemma ucast_count: "ucast (of_nat x :: u32) = (of_nat x :: u8)"
  by (simp add: unsigned_of_nat word_of_nat_eq_iff)

lemma packet_words:
  assumes "SAMPLES + 4 * length ws \<le> length b" and "drop SAMPLES b' = drop SAMPLES (overlay SAMPLES (word_bytes ws) b)" and "i < length ws"
  shows "take 4 (drop (SAMPLES + 4 * i) b') = le_bytes32 (ws ! i)"
proof -
  have "drop (SAMPLES + 4 * i) b' = drop (4 * i) (drop SAMPLES b')" by (simp add: add.commute)
  also have "drop SAMPLES b' = word_bytes ws @ drop (SAMPLES + 4 * length ws) b"
    unfolding assms(2) using assms(1) by (simp add: overlay_eq)
  finally have "take 4 (drop (SAMPLES + 4 * i) b') = take 4 (drop (4 * i) (word_bytes ws))" using assms(3) by simp
  then show ?thesis using word_bytes_nth [OF assms(3)] by simp
qed

lemma length_bytes:
  assumes "x < 2 ^ 15"
  shows "ucast (signed_drop_bit 8 (of_nat x :: u32)) = (of_nat (x div 256) :: u8)" and "ucast (of_nat x :: u32) = (of_nat x :: u8)"
  using assms signed_drop_small [of x 8] by (simp_all add: ucast_count)

lemma finished_stream:
  assumes "talker_ready c ch n b" and "filling c j d"
  shows "\<exists>t. d\<lparr>tk_rem := next_rem d, dbc_at_start_of_last_packet := dbc_at_start_of_last_packet d + samples_in_packet d,
      sequence_number := sequence_number d + 1, current_samples_in_packet := 0, timestamp_valid := False\<rparr>
    = c\<lparr>tk_rem := next_rem c, dbc_at_start_of_last_packet := dbc_at_start_of_last_packet c + of_nat n,
      sequence_number := sequence_number c + 1, timestamp_valid := False, tk_timestamp := t\<rparr>"
proof -
  obtain v t where d: "d = c\<lparr>current_samples_in_packet := of_nat j, timestamp_valid := v, tk_timestamp := t\<rparr>"
    using assms(2) by (auto simp: filling_def)
  have c: "current_samples_in_packet c = 0" "samples_in_packet c = of_nat n" using assms(1) by (simp_all add: talker_ready_def)
  note s = filling_simps [OF assms(2)]
  show ?thesis
    unfolding s c(2)
    by (intro exI [of _ t] avb1722_Talker_StreamConfig_t.equality) (simp_all add: d c(1))
qed

lemma feed_packet:
  assumes "talker_ready c ch n b" and "\<forall>f \<in> set frames. frame_ok c ch f" and "length frames = n" and "packet_header b"
  shows "\<exists>c' b' v. feed ty time frames c b = Some (of_nat (50 + 4 * (n * ch)), c', b')
     \<and> (\<exists>t. c' = c\<lparr>tk_rem := next_rem c, dbc_at_start_of_last_packet := dbc_at_start_of_last_packet c + of_nat n,
           sequence_number := sequence_number c + 1, timestamp_valid := False, tk_timestamp := t\<rparr>)
     \<and> length b' = length b \<and> packet_header b' \<and> b' ! 21 = 0x80 OR v \<and> v \<in> {0, 1}
     \<and> (\<forall>i < n * ch. take 4 (drop (SAMPLES + 4 * i) b') = le_bytes32 (concat (map (frame_words ty c ch) frames) ! i))
     \<and> b' ! 47 = ucast (dbc_at_start_of_last_packet c)
     \<and> b' ! 40 = of_nat ((8 + 4 * (n * ch)) div 256) \<and> b' ! 41 = of_nat (8 + 4 * (n * ch))"
proof -
  let ?ws = "\<lambda>fs. concat (map (frame_words ty c ch) fs)"
  let ?b = "\<lambda>fs. overlay SAMPLES (word_bytes (?ws fs)) b"
  have c: "tk_num_channels c = of_nat ch" "samples_in_packet c = of_nat n" "0 < n" "SAMPLES + 4 * (n * ch) \<le> length b" "length b < 2 ^ 15"
    using assms(1) by (simp_all add: talker_ready_def)
  from c(3) assms(3) obtain fs f where fs: "frames = fs @ [f]" by (cases frames rule: rev_cases) auto
  from feed_partial [OF assms(1), of fs ty time] assms(2,3) fs
  obtain d where d: "feed ty time fs c b = Some (0, d, ?b fs)" "filling c (length fs) d" by auto
  note s = filling_simps [OF d(2)]
  have put: "put_samples ty d f (?b fs) = Some (?b frames)"
    using put_next_frame [OF assms(1) d(2)] assms(2,3) fs by simp
  have l: "length (?ws frames) = n * ch"
    using assms(3) by (simp add: length_concat comp_def frame_words_def sum_list_triv)
  have p: "push_bit 2 (of_nat n * of_nat ch) = (of_nat (4 * (n * ch)) :: u32)" by (simp add: push_bit_eq_mult)
  have last: "of_nat (length fs) + 1 = (of_nat n :: u32)" using assms(3) fs by (auto simp: add.commute)
  define z where "z \<longleftrightarrow> (dbc_at_start_of_last_packet c + of_nat (length fs)) AND (ts_interval d - 1) = 0"
  from finish_packet_spec [of "?b frames" time "timestamp_valid d \<or> z" "if z then af_timestamp f else tk_timestamp d" d]
  obtain b' where b': "finish_packet time (timestamp_valid d \<or> z) (if z then af_timestamp f else tk_timestamp d) d (?b frames)
      = Some (of_nat (50 + 4 * (n * ch)), d\<lparr>tk_rem := next_rem d, dbc_at_start_of_last_packet := dbc_at_start_of_last_packet d + samples_in_packet d,
         sequence_number := sequence_number d + 1, current_samples_in_packet := 0, timestamp_valid := False\<rparr>, b')"
      "length b' = length b" "drop SAMPLES b' = drop SAMPLES (?b frames)" "b' ! 14 = ?b frames ! 14" "b' ! 20 = ?b frames ! 20"
      "b' ! 21 = (?b frames ! 21 AND NOT 1) OR (if timestamp_valid d \<or> z then 1 else 0)" "b' ! 47 = ucast (dbc_at_start_of_last_packet d)"
      "b' ! 40 = ucast (signed_drop_bit 8 (of_nat (8 + 4 * (n * ch)) :: u32))" "b' ! 41 = ucast (of_nat (8 + 4 * (n * ch)) :: u32)"
    using assms(4) p c(1,2) by (auto simp: packet_header_def s)
  have "feed ty time frames c b = Some (of_nat (50 + 4 * (n * ch)), d\<lparr>tk_rem := next_rem d,
         dbc_at_start_of_last_packet := dbc_at_start_of_last_packet d + samples_in_packet d,
         sequence_number := sequence_number d + 1, current_samples_in_packet := 0, timestamp_valid := False\<rparr>, b')"
    using d(1) put b'(1) last c(2) by (simp add: fs feed_def for_each_append avb1722_create_packet_def Let_def s z_def)
  moreover have "?b frames ! j = b ! j" if "j < SAMPLES" for j
    using that c(4) by (simp add: nth_overlay)
  then have h: "?b frames ! 14 = b ! 14" "?b frames ! 20 = b ! 20" "?b frames ! 21 = b ! 21" by (simp_all add: header_sizes)
  then have "packet_header b'" "b' ! 21 = 0x80 OR (if timestamp_valid d \<or> z then 1 else 0)"
    using assms(4) b'(2,4-6) by (auto simp: packet_header_def)
  moreover have "take 4 (drop (SAMPLES + 4 * i) b') = le_bytes32 (?ws frames ! i)" if "i < n * ch" for i
    using packet_words [OF _ b'(3)] that c(4) l by simp
  moreover have "8 + 4 * (n * ch) \<le> length b" using c(4) by (simp add: header_sizes)
  then have "8 + 4 * (n * ch) < 2 ^ 15" using c(5) by (rule le_less_trans)
  note length_bytes [OF this, folded b'(8,9)]
  moreover from finished_stream [OF assms(1) d(2)] obtain t where
    "d\<lparr>tk_rem := next_rem d, dbc_at_start_of_last_packet := dbc_at_start_of_last_packet d + samples_in_packet d,
         sequence_number := sequence_number d + 1, current_samples_in_packet := 0, timestamp_valid := False\<rparr>
     = c\<lparr>tk_rem := next_rem c, dbc_at_start_of_last_packet := dbc_at_start_of_last_packet c + of_nat n,
           sequence_number := sequence_number c + 1, timestamp_valid := False, tk_timestamp := t\<rparr>" ..
  moreover have "b' ! 47 = ucast (dbc_at_start_of_last_packet c)" using b'(7) by (simp add: s)
  ultimately show ?thesis using b'(2)
    by (intro exI [of _ "c\<lparr>tk_rem := next_rem c, dbc_at_start_of_last_packet := dbc_at_start_of_last_packet c + of_nat n,
           sequence_number := sequence_number c + 1, timestamp_valid := False, tk_timestamp := t\<rparr>"] exI [of _ b']
        exI [of _ "if timestamp_valid d \<or> z then 1 else 0"] conjI exI [of _ t]) auto
qed

section \<open>Channels and FIFOs\<close>

text \<open>Every channel below \<open>n\<close> has an entry in the map; no two of them name the same FIFO, and every FIFO they name exists.\<close>

definition map_ok :: "avb_1722_stream_info_t \<Rightarrow> nat \<Rightarrow> nat \<Rightarrow> bool" where
  "map_ok s n fifos \<longleftrightarrow> n \<le> length (ls_map s) \<and> (\<forall>i < n. ls_map s ! i < int fifos)
     \<and> (\<forall>i < n. \<forall>j < n. 0 \<le> ls_map s ! i \<longrightarrow> ls_map s ! i = ls_map s ! j \<longrightarrow> i = j)"

text \<open>What a loop over the channels does: the FIFO of a channel is related by \<open>R\<close> to its old value, the others are unchanged.\<close>

definition each_fifo :: "avb_1722_stream_info_t \<Rightarrow> nat \<Rightarrow> (nat \<Rightarrow> ofifo_t \<Rightarrow> ofifo_t \<Rightarrow> bool) \<Rightarrow> ofifo_t list \<Rightarrow> ofifo_t list \<Rightarrow> bool" where
  "each_fifo s n R qs qs' \<longleftrightarrow> length qs' = length qs \<and> (\<forall>i < n. \<forall>k. ls_map s ! i = int k \<longrightarrow> R i (qs ! k) (qs' ! k))
     \<and> (\<forall>k < length qs. (\<forall>i < n. ls_map s ! i \<noteq> int k) \<longrightarrow> qs' ! k = qs ! k)"

lemma with_fifo_each:
  assumes "map_ok s n (length qs)" and "\<And>i k x. i < n \<Longrightarrow> ls_map s ! i = int k \<Longrightarrow> tot (f i (qs ! k) x) (\<lambda>(q, _). R i (qs ! k) q)"
  shows "tot (for_each [0..<n] (\<lambda>i. with_fifo s i (f i)) (qs, x)) (\<lambda>(qs', _). each_fifo s n R qs qs')"
  using assms
proof (induction n)
  case 0
  then show ?case by (simp add: each_fifo_def tot_simps)
next
  case (Suc n)
  have m: "map_ok s n (length qs)" using Suc.prems(1) by (simp add: map_ok_def)
  have "tot (with_fifo s n (f n) (qs1, x1)) (\<lambda>(qs', _). each_fifo s (Suc n) R qs qs')" if e: "each_fifo s n R qs qs1" for qs1 x1
  proof (cases "0 \<le> ls_map s ! n")
    case False
    then show ?thesis using e Suc.prems(1)
      by (auto simp: with_fifo_def map_ok_def tot_simps each_fifo_def less_Suc_eq)
  next
    case True
    then obtain k where k: "ls_map s ! n = int k" using nonneg_int_cases by metis
    have other: "ls_map s ! i \<noteq> int k" if "i < n" for i
      using Suc.prems(1) k that True unfolding map_ok_def by (metis less_Suc_eq less_irrefl)
    have l: "k < length qs" "length qs1 = length qs" "n < length (ls_map s)"
      using Suc.prems(1) k e by (auto simp: map_ok_def each_fifo_def)
    have q: "qs1 ! k = qs ! k" using e other l by (simp add: each_fifo_def)
    have "tot (f n (qs ! k) x1) (\<lambda>(q, _). R n (qs ! k) q)" using Suc.prems(2) k by simp
    then obtain q' y where "f n (qs ! k) x1 = Some (q', y)" "R n (qs ! k) q'" by (auto simp: tot_def)
    then show ?thesis using l q k e other
      by (auto simp: with_fifo_def tot_simps each_fifo_def less_Suc_eq nth_list_update)
  qed
  then show ?case using tot_call [OF Suc.IH [OF m Suc.prems(2)]]
    by (simp add: for_each_append tot_simps split: prod.splits)
qed

lemma each_fifo_trans:
  assumes "each_fifo s n R qs qs1" and "each_fifo s m Q qs1 qs2" and "m \<le> n" and "i < m" and "ls_map s ! i = int k"
  shows "\<exists>q. R i (qs ! k) q \<and> Q i q (qs2 ! k)"
  using assms unfolding each_fifo_def by (intro exI [of _ "qs1 ! k"]) simp

text \<open>Timestamps and maintenance leave the audio content of a FIFO alone, unless it is being zeroed.\<close>

definition same_audio :: "nat \<Rightarrow> ofifo_t \<Rightarrow> ofifo_t \<Rightarrow> bool" where
  "same_audio i q q' \<longleftrightarrow> fifo q' = fifo q \<and> dptr q' = dptr q \<and> wrptr q' = wrptr q \<and> of_state q' = of_state q
     \<and> zero_marker q' = zero_marker q \<and> of_volume q' = of_volume q"

lemma same_audio_queue:
  assumes "same_audio i q q'"
  shows "queue q' = queue q" "capacity q' = capacity q" "fifo_ok q' = fifo_ok q" "push_volume cf q' = push_volume cf q"
  using assms by (simp_all add: same_audio_def queue_def cell_def fill_def capacity_def fifo_ok_def push_volume_def)

lemma timestamp_same_audio: "same_audio i q (audio_output_fifo_set_ptp_timestamp ts n q)"
  by (simp add: same_audio_def audio_output_fifo_set_ptp_timestamp_def Let_def)

lemma maintain_same_audio:
  assumes "of_state q \<noteq> ZEROING"
  shows "tot (audio_output_fifo_maintain notified q) (\<lambda>(_, _, q'). same_audio i q q')"
  using assms
  by (cases "of_state q") (auto simp: audio_output_fifo_maintain_def tot_simps same_audio_def Let_def)

lemma strided_push_words:
  assumes "fifo_ok q" and "0 < ch" and "p + 4 * (m * ch) \<le> length b" and "i < ch"
  shows "tot (audio_output_fifo_strided_push cf (words_from b (p + 4 * i)) ch (m * ch) q)
    (\<lambda>q'. queue q' = take (capacity q) (queue q @ map (\<lambda>j. push_value cf (push_volume cf q) (word_at b (p + 4 * (j * ch + i)))) [0..<m]))"
proof -
  have "m * ch + ch - 1 = (ch - 1) + m * ch" using assms(2) by simp
  moreover have "((ch - 1) + m * ch) div ch = m" using assms(2) by (subst div_mult_self1) simp_all
  ultimately have v: "visits (m * ch) ch = m" by (simp only: visits_def)
  have idx: "j * ch < (length b - (p + 4 * i)) div 4" if "j < m" for j
  proof -
    have "Suc j * ch \<le> m * ch" using that by (intro mult_le_mono1) simp
    then have "4 * (j * ch) + 4 \<le> length b - (p + 4 * i)" using assms(3,4) by simp
    then show ?thesis by linarith
  qed
  have nth: "words_from b (p + 4 * i) ! (j * ch) = word_at b (p + 4 * (j * ch + i))" if "j < m" for j
    using idx [OF that] by (simp add: words_from_def algebra_simps)
  have "j * ch < length (words_from b (p + 4 * i))" if "j < visits (m * ch) ch" for j
    using idx that by (simp add: v words_from_def)
  from strided_push_spec [where n = "m * ch" and c = cf, OF assms(1,2) this] obtain u where
    u: "audio_output_fifo_strided_push cf (words_from b (p + 4 * i)) ch (m * ch) q = Some u"
    "queue u = take (capacity q) (queue q @ map (\<lambda>j. push_value cf (push_volume cf q) (words_from b (p + 4 * i) ! (j * ch))) [0..<m])"
    unfolding v by blast
  moreover have "map (\<lambda>j. push_value cf (push_volume cf q) (words_from b (p + 4 * i) ! (j * ch))) [0..<m]
      = map (\<lambda>j. push_value cf (push_volume cf q) (word_at b (p + 4 * (j * ch + i)))) [0..<m]"
    by (rule map_cong [OF refl]) (simp add: nth)
  ultimately show ?thesis by (simp add: tot_def)
qed

text \<open>A stream whose FIFOs can take samples.\<close>

definition fifos_ready :: "avb_1722_stream_info_t \<Rightarrow> nat \<Rightarrow> ofifo_t list \<Rightarrow> bool" where
  "fifos_ready s n qs \<longleftrightarrow> map_ok s n (length qs)
     \<and> (\<forall>i < n. \<forall>k. ls_map s ! i = int k \<longrightarrow> fifo_ok (qs ! k) \<and> of_state (qs ! k) \<noteq> ZEROING)"

lemma same_audio_ready:
  assumes "each_fifo s n same_audio qs qs'" and "fifos_ready s n qs"
  shows "fifos_ready s n qs'"
proof -
  have "fifo_ok (qs' ! k) \<and> of_state (qs' ! k) \<noteq> ZEROING" if "i < n" "ls_map s ! i = int k" for i k
    using assms that same_audio_queue(3) [of i "qs ! k" "qs' ! k"] by (simp add: fifos_ready_def each_fifo_def same_audio_def)
  then show ?thesis using assms by (simp add: fifos_ready_def each_fifo_def)
qed

lemma listener_loops:
  assumes "fifos_ready s n qs" and "ls_num_channels s = int n"
  shows "tot (listener_timestamp ts k s (qs, x)) (\<lambda>(qs', _). each_fifo s n same_audio qs qs')"
    and "tot (listener_maintain s (qs, y)) (\<lambda>(qs', _). each_fifo s n same_audio qs qs')"
proof -
  have z: "of_state (qs ! k) \<noteq> ZEROING" if "i < n" "ls_map s ! i = int k" for i k
    using assms(1) that by (auto simp: fifos_ready_def)
  note mk = assms(1) [unfolded fifos_ready_def, THEN conjunct1]
  show "tot (listener_timestamp ts k s (qs, x)) (\<lambda>(qs', _). each_fifo s n same_audio qs qs')"
    unfolding listener_timestamp_def assms(2) nat_int
    by (rule with_fifo_each [OF mk]) (simp add: tot_simps timestamp_same_audio)
  show "tot (listener_maintain s (qs, y)) (\<lambda>(qs', _). each_fifo s n same_audio qs qs')"
    unfolding listener_maintain_def assms(2) nat_int
  proof (rule with_fifo_each [OF mk])
    fix i k and w :: "buf_ctl_msg list \<times> bool" assume "i < n" "ls_map s ! i = int k"
    then have "tot (audio_output_fifo_maintain (snd w) (qs ! k)) (\<lambda>(_, _, q'). same_audio i (qs ! k) q')"
      using maintain_same_audio z by blast
    then obtain new nt q where "audio_output_fifo_maintain (snd w) (qs ! k) = Some (new, nt, q)" "same_audio i (qs ! k) q"
      by (auto simp: tot_def)
    then show "tot (case w of (msgs, notified) \<Rightarrow> do {
          (new, notified, q) \<leftarrow> audio_output_fifo_maintain notified (qs ! k); Some (q, msgs @ new, notified) })
        (\<lambda>(q, _). same_audio i (qs ! k) q)"
      by (cases w) (simp add: tot_def)
  qed
qed

lemma listener_push_loop:
  assumes "fifos_ready s ch qs" and "ls_num_channels s = int ch" and "num_channels_in_payload s = int ch" and "0 < ch"
    and "p + 4 * (m * ch) \<le> length b"
  shows "tot (listener_push cf b p (int (m * ch)) s (qs, x)) (\<lambda>(qs', _). each_fifo s ch (\<lambda>i q q'. queue q' = take (capacity q)
      (queue q @ map (\<lambda>j. push_value cf (push_volume cf q) (word_at b (p + 4 * (j * ch + i)))) [0..<m])) qs qs')"
  unfolding listener_push_def assms(2,3) min.idem nat_int
proof (rule with_fifo_each)
  show "map_ok s ch (length qs)" using assms(1) by (simp add: fifos_ready_def)
  fix i k and u :: 'a assume i: "i < ch" "ls_map s ! i = int k"
  then have "fifo_ok (qs ! k)" using assms(1) by (simp add: fifos_ready_def)
  from strided_push_words [OF this assms(4,5) i(1)]
  show "tot (do { q \<leftarrow> audio_output_fifo_strided_push cf (words_from b (p + 4 * i)) ch (m * ch) (qs ! k); Some (q, u) })
      (\<lambda>(q, _). queue q = take (capacity (qs ! k))
      (queue (qs ! k) @ map (\<lambda>j. push_value cf (push_volume cf (qs ! k)) (word_at b (p + 4 * (j * ch + i)))) [0..<m]))"
    by (simp add: tot_simps)
qed

lemma length_join:
  assumes "x < 2 ^ 15"
  shows "uint (push_bit 8 (ucast (of_nat (x div 256) :: u8)) OR ucast (of_nat x :: u8) :: u32) = int x"
proof -
  have "(push_bit 8 (ucast (of_nat (x div 256) :: u8)) OR ucast (of_nat x :: u8) :: u32) = of_nat x"
  proof (rule bit_word_eqI)
    fix n assume "n < LENGTH(32)"
    have "\<not> bit x n" if "16 \<le> n"
      using assms that take_bit_nat_eq_self [of x 16] bit_take_bit_iff [of 16 x n] by simp
    moreover have "x div 256 = drop_bit 8 x" by (simp add: drop_bit_eq_div)
    ultimately show "bit (push_bit 8 (ucast (of_nat (x div 256) :: u8)) OR ucast (of_nat x :: u8) :: u32) n = bit (of_nat x :: u32) n"
      using \<open>n < LENGTH(32)\<close> by (cases "n < 8"; cases "n < 16") (auto simp: bit_simps)
  qed
  then show ?thesis using assms by (simp add: unsigned_of_nat take_bit_eq_mod)
qed

lemma word_at_le:
  assumes "q + 4 \<le> length b" and "take 4 (drop q b) = le_bytes32 w"
  shows "word_at b q = w"
proof -
  have "b ! (q + k) = le_bytes32 w ! k" if "k < 4" for k
    using that assms by (metis (no_types, lifting) add_leD1 nth_drop nth_take)
  from this [of 0] this [of 1] this [of 2] this [of 3] show ?thesis
    using join32_split [of w] by (simp add: word_at_def le_bytes32_def ac_simps)
qed

lemma deliver_spec:
  assumes "fifos_ready s ch qs" and "ls_num_channels s = int ch" and "num_channels_in_payload s = int ch" and "0 < ch"
    and "syt_interval (ls_rate s) \<noteq> None" and "hdr + 32 + 4 * (m * ch) \<le> length b"
  shows "\<exists>msgs nt qs'. listener_deliver cf b hdr dbc (int (m * ch)) notified s qs = Some (True, msgs, nt, s, qs')
     \<and> (\<forall>i < ch. \<forall>k. ls_map s ! i = int k \<longrightarrow> queue (qs' ! k) = take (capacity (qs ! k))
      (queue (qs ! k) @ map (\<lambda>j. push_value cf (push_volume cf (qs ! k)) (word_at b (hdr + 32 + 4 * (j * ch + i)))) [0..<m]))"
proof -
  from assms(5) obtain interval where i: "syt_interval (ls_rate s) = Some interval" by auto
  have b: "hdr + 15 < length b" using assms(6) by linarith
  obtain tv where tv: "AVBTP_TV hdr b = Some tv" using b by (simp add: AVBTP_TV_def)
  obtain ts where ts: "AVBTP_TIMESTAMP hdr b = Some ts" using b by (simp add: AVBTP_TIMESTAMP_def)
  let ?k = "(interval - (ucast dbc AND (interval - 1))) AND (interval - 1)"
  obtain qs1 where q1: "(if tv = 1 then do { (qs, _) \<leftarrow> listener_timestamp ts ?k s (qs, ()); Some qs } else Some qs) = Some qs1"
      "each_fifo s ch same_audio qs qs1"
  proof (cases "tv = 1")
    case True
    from listener_loops(1) [OF assms(1,2), of ts ?k "()"] obtain qs1 where
      "listener_timestamp ts ?k s (qs, ()) = Some (qs1, ())" "each_fifo s ch same_audio qs qs1" by (auto simp: tot_def)
    with True that show ?thesis by simp
  next
    case False
    with that [of qs] show ?thesis by (simp add: each_fifo_def same_audio_def)
  qed
  have r1: "fifos_ready s ch qs1" by (rule same_audio_ready [OF q1(2) assms(1)])
  from listener_loops(2) [OF r1 assms(2), of "([], notified)"] obtain qs2 msgs nt where
    q2: "listener_maintain s (qs1, [], notified) = Some (qs2, msgs, nt)" "each_fifo s ch same_audio qs1 qs2" by (auto simp: tot_def)
  have r2: "fifos_ready s ch qs2" by (rule same_audio_ready [OF q2(2) r1])
  from listener_push_loop [OF r2 assms(2,3,4,6), of cf "()"] obtain qs3 where
    q3: "listener_push cf b (hdr + 32) (int (m * ch)) s (qs2, ()) = Some (qs3, ())"
      "each_fifo s ch (\<lambda>i q q'. queue q' = take (capacity q)
      (queue q @ map (\<lambda>j. push_value cf (push_volume cf q) (word_at b (hdr + 32 + 4 * (j * ch + i)))) [0..<m])) qs2 qs3" by (auto simp: tot_def)
  have "listener_deliver cf b hdr dbc (int (m * ch)) notified s qs = Some (True, msgs, nt, s, qs3)"
    using tv ts i q1(1) q2(1) q3(1) by (auto simp: listener_deliver_def header_sizes ac_simps bind_eq_Some_conv split: if_splits)
  moreover have "queue (qs3 ! k) = take (capacity (qs ! k))
      (queue (qs ! k) @ map (\<lambda>j. push_value cf (push_volume cf (qs ! k)) (word_at b (hdr + 32 + 4 * (j * ch + i)))) [0..<m])"
    if ik: "i < ch" "ls_map s ! i = int k" for i k
  proof -
    have sa: "same_audio i (qs ! k) (qs2 ! k)"
      using each_fifo_trans [OF q1(2) q2(2) order.refl ik] by (auto simp: same_audio_def)
    have "queue (qs3 ! k) = take (capacity (qs2 ! k))
      (queue (qs2 ! k) @ map (\<lambda>j. push_value cf (push_volume cf (qs2 ! k)) (word_at b (hdr + 32 + 4 * (j * ch + i)))) [0..<m])"
      using q3(2) ik unfolding each_fifo_def by blast
    then show ?thesis unfolding same_audio_queue [OF sa] .
  qed
  ultimately show ?thesis by blast
qed


lemma byterev_byterev: "bswap32 (byterev w) = w"
proof -
  have m: "x AND 0xff = ucast (ucast x :: u8)" for x :: u32
  proof -
    have ff: "(0xff :: u32) = mask 8" by (simp add: mask_eq_exp_minus_1)
    show ?thesis unfolding ff by (rule bit_word_eqI) (auto simp: bit_simps)
  qed
  have t: "drop_bit 24 x = ucast (ucast (drop_bit 24 x) :: u8)" for x :: u32
    by (rule bit_word_eqI) (auto simp: bit_simps dest: bit_imp_le_length)
  from le_bytes32_byterev [of w] have "ucast (byterev w) = (ucast (drop_bit 24 w) :: u8)"
    "ucast (drop_bit 8 (byterev w)) = (ucast (drop_bit 16 w) :: u8)" "ucast (drop_bit 16 (byterev w)) = (ucast (drop_bit 8 w) :: u8)"
    "ucast (drop_bit 24 (byterev w)) = (ucast w :: u8)" by (simp_all add: le_bytes32_def)
  moreover have "bswap32 y = push_bit 24 (ucast (ucast y :: u8)) OR push_bit 16 (ucast (ucast (drop_bit 8 y) :: u8))
      OR push_bit 8 (ucast (ucast (drop_bit 16 y) :: u8)) OR ucast (ucast (drop_bit 24 y) :: u8)" for y
    by (simp only: bswap32_def m t [symmetric])
  ultimately show ?thesis using join32_split [of w] by simp
qed

lemma carried_sample:
  assumes "ty AND 0xffffff = 0" and "\<not> volume_control cf" and "\<not> format_saf cf"
  shows "push_value cf 1 (packet_sample ty x) = x AND 0xffffff00"
proof -
  have m: "(0xffffff :: u32) = mask 24" "(0xffffff00 :: u32) = push_bit 8 (mask 24)" by (simp_all add: mask_eq_exp_minus_1)
  have ty: "\<not> bit ty n" if "n < 24" for n
    using arg_cong [OF assms(1) [unfolded m(1)], of "\<lambda>w. bit w n"] that by (simp add: bit_simps)
  show ?thesis
    unfolding push_value_def packet_sample_def m using assms(2,3)
    by (simp add: byterev_byterev Let_def) (rule bit_word_eqI, auto simp: bit_simps ty)
qed

lemma packet_read:
  assumes "packet_header b" and "b ! 21 = 0x80 OR v" and "v \<in> {0, 1}" and "0 < m * ch" and "SAMPLES + 4 * (m * ch) \<le> length b" and "length b < 2 ^ 15"
    and "b ! 40 = of_nat ((8 + 4 * (m * ch)) div 256)" and "b ! 41 = of_nat (8 + 4 * (m * ch))"
  shows "avb_1722_listener_process_packet cf (take (50 + 4 * (m * ch)) (drop 2 b)) (50 + 4 * (m * ch)) notified s qs =
     (let t = s\<lparr>ls_dbc := uint (b ! 47), prev_num_samples := int (m * ch)\<rparr>; d = uint (b ! 47) - ls_dbc s in
      if chan_lock s < 16
      then do { t \<leftarrow> listener_lock (prev_num_samples s) (if d < 0 then d + 0x100 else d) (int (m * ch)) t; Some (False, [], notified, t, qs) }
      else listener_deliver cf (take (50 + 4 * (m * ch)) (drop 2 b)) 18 (b ! 47) (int (m * ch)) notified t qs)"
proof -
  let ?p = "take (50 + 4 * (m * ch)) (drop 2 b)"
  have rd: "rd ?p i = Some (b ! (2 + i))" if "i < 50" for i
    using assms(5) that by (simp add: header_sizes)
  have "8 + 4 * (m * ch) \<le> length b" using assms(5) by (simp add: header_sizes)
  then have x: "8 + 4 * (m * ch) < 2 ^ 15" using assms(6) by (rule le_less_trans)
  have "drop_bit 4 (b ! 21) AND 7 = 0" "drop_bit 7 (b ! 21) = 1" using assms(2,3) by auto
  moreover have "\<exists>len. packet_data_length 18 ?p = Some len \<and> uint len = int (8 + 4 * (m * ch))"
    using length_join [OF x] assms(7,8) by (simp add: packet_data_length_def rd del: of_nat_add of_nat_mult)
  moreover have "b ! 14 = 0x81" "drop_bit 7 (b ! 20) = 0" using assms(1) by (simp_all add: packet_header_def)
  ultimately show ?thesis
    using assms(4)
    by (auto simp: avb_1722_listener_process_packet_def rd AVBTP_VERSION_def AVBTP_CD_def AVBTP_SV_def AVBTP_CD_DATA_def header_sizes Let_def)
qed

lemmas avbtp_setters = SET_AVBTP_TPID_def SET_AVBTP_PCP_def SET_AVBTP_CFI_def SET_AVBTP_VID_def SET_AVBTP_ETYPE_def SET_AVBTP_SV_def
  SET_AVBTP_STREAM_ID0_def SET_AVBTP_STREAM_ID1_def SET_AVB1722_CIP_TAG_def SET_AVB1722_CIP_CHANNEL_def SET_AVB1722_CIP_TCODE_def
  SET_AVB1722_CIP_SY_def SET_AVB1722_CIP_EOH1_def SET_AVB1722_CIP_SID_def SET_AVB1722_CIP_DBS_def SET_AVB1722_CIP_FN_def
  SET_AVB1722_CIP_QPC_def SET_AVB1722_CIP_SPH_def SET_AVB1722_CIP_DBC_def SET_AVB1722_CIP_EOH2_def SET_AVB1722_CIP_FMT_def
  SET_AVB1722_CIP_FDF_def SET_AVB1722_CIP_SYT_def

lemma bufInit_ethernet_header:
  assumes "52 \<le> length b" and "length (destMACAdrs c) = 6" and "length (srcMACAdrs c) = 6"
  shows "tot (bufInit_ethernet c vlan b) (\<lambda>b'. length b' = length b \<and> b' ! 14 = 0x81 \<and> b' ! 20 = b ! 20 \<and> b' ! 21 = b ! 21)"
  using assms
  by (simp add: bufInit_ethernet_def avbtp_setters byte_setters copy_in_overlay tot_simps read_block_def AVB_TPID_def nth_overlay)

lemma bufInit_avbtp_header:
  assumes "52 \<le> length b"
  shows "tot (bufInit_avbtp c b) (\<lambda>b'. length b' = length b \<and> b' ! 14 = b ! 14 \<and> b' ! 20 = b ! 20 \<and> b' ! 21 = b ! 21 OR 0x80)"
  using assms by (simp add: bufInit_avbtp_def avbtp_setters byte_setters tot_simps header_sizes nth_overlay Let_def)

lemma bufInit_cip_header:
  assumes "52 \<le> length b"
  shows "tot (bufInit_cip dbs b) (\<lambda>b'. length b' = length b \<and> b' ! 14 = b ! 14 \<and> b' ! 20 = b ! 20 \<and> b' ! 21 = b ! 21)"
  using assms by (simp add: bufInit_cip_def avbtp_setters byte_setters tot_simps header_sizes Let_def)

lemma bufInit_header:
  assumes "52 \<le> length b" and "length (destMACAdrs c) = 6" and "length (srcMACAdrs c) = 6"
  shows "tot (AVB1722_Talker_bufInit c vlan b) (\<lambda>(ty, b'). ty AND 0xffffff = 0 \<and> length b' = length b \<and> packet_header b')"
proof -
  let ?b0 = "overlay 2 (replicate 50 0) b"
  obtain b1 where 1: "bufInit_ethernet c vlan ?b0 = Some b1" "length b1 = length b" "b1 ! 14 = 0x81" "b1 ! 20 = 0" "b1 ! 21 = 0"
    using bufInit_ethernet_header [of ?b0 c vlan] assms by (auto simp: tot_def nth_overlay)
  obtain b2 where 2: "bufInit_avbtp c b1 = Some b2" "length b2 = length b" "b2 ! 14 = 0x81" "b2 ! 20 = 0" "b2 ! 21 = 0x80"
    using bufInit_avbtp_header [of b1 c] 1 assms(1) by (auto simp: tot_def)
  have 3: "tot (bufInit_cip dbs b2) (\<lambda>b'. length b' = length b \<and> packet_header b')" for dbs
    by (rule tot_call [OF bufInit_cip_header]) (use 2 assms(1) in \<open>auto simp: packet_header_def\<close>)
  have "copy_in b 2 (replicate (AVB_ETHERNET_HDR_SIZE + AVB_TP_HDR_SIZE + AVB_CIP_HDR_SIZE) 0) = Some ?b0"
    using assms(1) by (simp add: header_sizes copy_in_overlay)
  then show ?thesis using 1(1) 2(1) 3
    by (simp add: AVB1722_Talker_bufInit_def tot_simps MBLA_16BIT_def MBLA_20BIT_def MBLA_24BIT_def)
qed

lemma concat_blocks_nth:
  assumes "\<forall>xs \<in> set xss. length xs = ch" and "j < length xss" and "i < ch"
  shows "concat xss ! (j * ch + i) = xss ! j ! i"
  using assms
proof (induction xss arbitrary: j)
  case (Cons xs xss)
  then show ?case by (cases j) (auto simp: nth_append)
qed simp

text \<open>C6: samples travel from the talker to the FIFOs of the listener. A talker that is given as many audio frames as a packet holds completes the
  packet with the last of them; a listener that is locked to the stream accepts the packet and appends to the FIFO of every channel, in order
  and as far as there is room, the samples of that channel without their lowest byte. This holds for every number of channels and frames
  that fits the buffer, every buffer content under the headers, and for each of the three sample types.\<close>

theorem samples_reach_listener:
  assumes "talker_ready c ch n b" and "packet_header b" and "length frames = n" and "\<forall>f \<in> set frames. frame_ok c ch f"
    and "ty AND 0xffffff = 0" and "\<not> volume_control cf" and "\<not> format_saf cf"
    and "16 \<le> chan_lock s" and "ls_num_channels s = int ch" and "num_channels_in_payload s = int ch"
    and "syt_interval (ls_rate s) \<noteq> None" and "fifos_ready s ch qs"
  shows "\<exists>c' b' msgs nt s' qs'. feed ty time frames c b = Some (of_nat (50 + 4 * (n * ch)), c', b')
     \<and> avb_1722_listener_process_packet cf (take (50 + 4 * (n * ch)) (drop 2 b')) (50 + 4 * (n * ch)) notified s qs
         = Some (True, msgs, nt, s', qs')
     \<and> (\<forall>i < ch. \<forall>k. ls_map s ! i = int k \<longrightarrow> queue (qs' ! k) =
          take (capacity (qs ! k)) (queue (qs ! k) @ map (\<lambda>f. af_samples f ! unat (tk_map c ! i) AND 0xffffff00) frames))"
proof -
  have c: "0 < n * ch" "SAMPLES + 4 * (n * ch) \<le> length b" "length b < 2 ^ 15" "0 < ch"
    using assms(1) by (simp_all add: talker_ready_def)
  from feed_packet [OF assms(1,4,3,2), of ty time] obtain c' b' v where
    f: "feed ty time frames c b = Some (of_nat (50 + 4 * (n * ch)), c', b')" and b': "length b' = length b" "packet_header b'"
      "b' ! 21 = 0x80 OR v" "v \<in> {0, 1}"
      "\<forall>i < n * ch. take 4 (drop (SAMPLES + 4 * i) b') = le_bytes32 (concat (map (frame_words ty c ch) frames) ! i)"
      "b' ! 40 = of_nat ((8 + 4 * (n * ch)) div 256)" "b' ! 41 = of_nat (8 + 4 * (n * ch))" by blast
  let ?p = "take (50 + 4 * (n * ch)) (drop 2 b')"
  let ?s = "s\<lparr>ls_dbc := uint (b' ! 47), prev_num_samples := int (n * ch)\<rparr>"
  have w: "word_at ?p (18 + 32 + 4 * (j * ch + i)) = packet_sample ty (af_samples (frames ! j) ! unat (tk_map c ! i))" if "j < n" "i < ch" for i j
  proof -
    have "Suc j * ch \<le> n * ch" using that by (intro mult_le_mono1) simp
    then have x: "j * ch + i < n * ch" using that by simp
    have "take 4 (drop (18 + 32 + 4 * (j * ch + i)) ?p) = take 4 (drop (SAMPLES + 4 * (j * ch + i)) b')"
      using x by (simp add: header_sizes drop_take min_def)
    also have "\<dots> = le_bytes32 (frame_words ty c ch (frames ! j) ! i)"
      using b'(5) [rule_format, OF x] that assms(3) concat_blocks_nth [of "map (frame_words ty c ch) frames" ch j i] by (simp add: frame_words_def)
    finally show ?thesis
      using word_at_le [of "18 + 32 + 4 * (j * ch + i)" ?p] x b'(1) c(2) that by (simp add: frame_words_def header_sizes)
  qed
  have r: "fifos_ready ?s ch qs" using assms(12) by (simp add: fifos_ready_def map_ok_def)
  have pre: "ls_num_channels ?s = int ch" "num_channels_in_payload ?s = int ch" "syt_interval (ls_rate ?s) \<noteq> None"
    "18 + 32 + 4 * (n * ch) \<le> length ?p" using assms(9-11) b'(1) c(2) by (simp_all add: header_sizes)
  from deliver_spec [OF r pre(1,2) c(4) pre(3,4), of cf "b' ! 47" notified] obtain msgs nt qs' where
    d: "listener_deliver cf ?p 18 (b' ! 47) (int (n * ch)) notified ?s qs = Some (True, msgs, nt, ?s, qs')"
      "\<forall>i < ch. \<forall>k. ls_map ?s ! i = int k \<longrightarrow> queue (qs' ! k) = take (capacity (qs ! k))
      (queue (qs ! k) @ map (\<lambda>j. push_value cf (push_volume cf (qs ! k)) (word_at ?p (18 + 32 + 4 * (j * ch + i)))) [0..<n])"
    by blast
  have "queue (qs' ! k) = take (capacity (qs ! k)) (queue (qs ! k) @ map (\<lambda>f. af_samples f ! unat (tk_map c ! i) AND 0xffffff00) frames)"
    if "i < ch" "ls_map s ! i = int k" for i k
  proof -
    have "push_volume cf (qs ! k) = 1" using assms(6,12) that by (simp add: push_volume_def fifos_ready_def)
    then have "map (\<lambda>j. push_value cf (push_volume cf (qs ! k)) (word_at ?p (18 + 32 + 4 * (j * ch + i)))) [0..<n]
        = map (\<lambda>j. af_samples (frames ! j) ! unat (tk_map c ! i) AND 0xffffff00) [0..<n]"
      using that w by (intro map_cong refl) (simp add: carried_sample [OF assms(5-7)])
    also have "\<dots> = map (\<lambda>f. af_samples f ! unat (tk_map c ! i) AND 0xffffff00) frames"
      using assms(3) by (intro nth_equalityI) simp_all
    finally show ?thesis using d(2) that by simp
  qed
  moreover have "avb_1722_listener_process_packet cf ?p (50 + 4 * (n * ch)) notified s qs = Some (True, msgs, nt, ?s, qs')"
    using packet_read [OF b'(2-4) c(1)] b'(1,6,7) c(2,3) assms(8) d(1) by (simp add: Let_def)
  ultimately show ?thesis using f by blast
qed

text \<open>A stream of two channels at 48 kHz, its buffer, and a listener locked to it.\<close>

definition sample_stream :: avb1722_Talker_StreamConfig_t where
  "sample_stream = \<lparr>tk_active = 2, destMACAdrs = [0x91, 0xe0, 0xf0, 0, 0, 1], srcMACAdrs = [0, 0x22, 0x97, 0, 0, 1], streamId0 = 0x10000,
     streamId1 = 0x229700, tk_num_channels = 2, tk_map = [1, 0], fifo_mask = 0, sampleType = MBLA_24BIT, current_samples_in_packet = 0,
     timestamp_valid = False, tk_timestamp = 0, dbc_at_start_of_last_packet = 0, ts_interval = 8, samples_per_packet_base = 6,
     samples_per_packet_fractional = 0, tk_rem = 0, tk_initial = True, presentation_delay = 2000000, txport = 0, sequence_number = 0\<rparr>"

definition sample_buffer :: "u32 \<times> bytes" where
  "sample_buffer = the (AVB1722_Talker_bufInit sample_stream 2 (replicate 120 0))"

definition locked_listener :: avb_1722_stream_info_t where
  "locked_listener = \<lparr>ls_active = True, ls_state = 0, chan_lock = 16, ls_rate = 48000, prev_num_samples = 12, num_channels_in_payload = 2,
     ls_num_channels = 2, ls_dbc = 0, ls_map = [0, - 1]\<rparr>"

lemma sample_buffer_header:
  "fst sample_buffer AND 0xffffff = 0" "length (snd sample_buffer) = 120" "packet_header (snd sample_buffer)"
  using bufInit_header [of "replicate 120 0" sample_stream 2] by (auto simp: tot_def sample_buffer_def sample_stream_def)

definition sample_frames :: "audio_frame_t list" where
  "sample_frames = map (\<lambda>x. \<lparr>af_timestamp = 0, af_samples = [0, x]\<rparr>) [0x101, 0x201, 0x301, 0x401, 0x501, 0x601]"

definition sample_time :: ptp_time_info_mod64 where
  "sample_time = \<lparr>ti_local_ts = 0, ptp_ts_hi = 0, ptp_ts_lo = 0, ptp_adjust = 0, inv_ptp_adjust = 0\<rparr>"

theorem samples_reach_listener_witness:
  "\<exists>c' b' msgs nt s' qs'. feed (fst sample_buffer) sample_time sample_frames sample_stream (snd sample_buffer) = Some (98, c', b')
     \<and> avb_1722_listener_process_packet \<lparr>volume_control = False, format_saf = False\<rparr> (take 98 (drop 2 b')) 98 False locked_listener [silent_fifo 10]
         = Some (True, msgs, nt, s', qs')
     \<and> queue (qs' ! 0) = [0x100, 0x200, 0x300, 0x400, 0x500, 0x600]"
proof -
  have a: "talker_ready sample_stream 2 6 (snd sample_buffer)"
    using sample_buffer_header(2) by (simp add: talker_ready_def sample_stream_def samples_in_packet_def header_sizes)
  have b: "fifos_ready locked_listener 2 [silent_fifo 10]"
    using silent_fifo_ok [of 10] by (auto simp: fifos_ready_def map_ok_def locked_listener_def silent_fifo_def less_Suc_eq numeral_2_eq_2)
  have c: "\<forall>f \<in> set sample_frames. frame_ok sample_stream 2 f"
    by (auto simp: sample_frames_def frame_ok_def sample_stream_def less_Suc_eq numeral_2_eq_2)
  have d: "capacity (silent_fifo 10) = 9" "fill (silent_fifo 10) = 0" by (simp_all add: silent_fifo_def capacity_def fill_def)
  have e: "ls_map locked_listener ! 0 = int 0" by (simp add: locked_listener_def)
  from samples_reach_listener [OF a sample_buffer_header(3) _ c sample_buffer_header(1) _ _ _ _ _ _ b,
      of "\<lparr>volume_control = False, format_saf = False\<rparr>" sample_time False]
  obtain c' b' msgs nt s' qs' where
    "feed (fst sample_buffer) sample_time sample_frames sample_stream (snd sample_buffer) = Some (98, c', b')"
    "avb_1722_listener_process_packet \<lparr>volume_control = False, format_saf = False\<rparr> (take 98 (drop 2 b')) 98 False locked_listener [silent_fifo 10]
         = Some (True, msgs, nt, s', qs')"
    "\<forall>i < 2. \<forall>k. ls_map locked_listener ! i = int k \<longrightarrow> queue (qs' ! k) = take (capacity ([silent_fifo 10] ! k)) (queue ([silent_fifo 10] ! k) @
       map (\<lambda>f. af_samples f ! unat (tk_map sample_stream ! i) AND 0xffffff00) sample_frames)"
    by (auto simp: locked_listener_def syt_interval_def sample_frames_def)
  moreover from this(3) e have "queue (qs' ! 0) = [0x100, 0x200, 0x300, 0x400, 0x500, 0x600]"
    by (auto simp: silent_fifo_empty d sample_frames_def sample_stream_def dest!: spec [of _ 0])
  ultimately show ?thesis by blast
qed

section \<open>Packet sizes\<close>

text \<open>The numbers of audio frames in the next \<open>k\<close> packets of a stream.\<close>

primrec packet_sizes :: "nat \<Rightarrow> avb1722_Talker_StreamConfig_t \<Rightarrow> nat list" where
  "packet_sizes 0 c = []"
| "packet_sizes (Suc k) c = unat (samples_in_packet c) # packet_sizes k (c\<lparr>tk_rem := next_rem c\<rparr>)"

lemma high_half: "x AND 0xffff0000 = 0 \<longleftrightarrow> x < 0x10000" for x :: u32
proof -
  have m: "(0xffff0000 :: u32) = push_bit 16 (mask 16)" by (simp add: mask_eq_exp_minus_1)
  have "x AND 0xffff0000 = push_bit 16 (drop_bit 16 x)"
    unfolding m by (rule bit_word_eqI) (auto simp: bit_simps)
  moreover have "push_bit 16 (drop_bit 16 x) = 0 \<longleftrightarrow> drop_bit 16 x = 0"
  proof
    assume "push_bit 16 (drop_bit 16 x) = 0"
    then have "drop_bit 16 (push_bit 16 (drop_bit 16 x)) = (0 :: u32)" by simp
    moreover have "drop_bit 16 (push_bit 16 (drop_bit 16 x)) = drop_bit 16 x"
      by (rule bit_word_eqI) (auto simp: bit_simps dest: bit_imp_le_length)
    ultimately show "drop_bit 16 x = 0" by simp
  qed simp
  moreover have "take_bit 32 (unat x) = unat x" using unsigned_less [of x, where 'a = nat] by (simp add: take_bit_nat_eq_self)
  then have "drop_bit 16 x = 0 \<longleftrightarrow> x < 0x10000"
    by (simp add: word_eq_iff_unsigned [where 'a = nat] unsigned_drop_bit_eq drop_bit_eq_div [where 'a = nat] word_less_nat_alt div_eq_0_iff)
  ultimately show ?thesis by simp
qed

lemma size_step:
  assumes "unat (tk_rem c) = r" and "unat (samples_per_packet_base c) = base" and "unat (samples_per_packet_fractional c) = frac"
    and "r < 0x10000 + frac" and "frac < 0x10000" and "base < 2 ^ 16"
  shows "unat (samples_in_packet c) = base + (if r < 0x10000 then 0 else 1)"
    and "unat (next_rem c) = (if r < 0x10000 then r + frac else (r + frac) mod 0x10000)"
proof -
  have r: "tk_rem c AND 0xffff0000 = 0 \<longleftrightarrow> r < 0x10000" using assms(1) by (simp add: high_half word_less_nat_alt)
  show s: "unat (samples_in_packet c) = base + (if r < 0x10000 then 0 else 1)"
    using assms r by (simp add: samples_in_packet_def unat_word_ariths)
  have "unat (tk_rem c + samples_per_packet_fractional c) = r + frac" using assms by (simp add: unat_word_ariths)
  moreover have "unat (x AND 0xffff) = unat x mod 0x10000" for x :: u32
  proof -
    have "(0xffff :: u32) = mask 16" by (simp add: mask_eq_exp_minus_1)
    then show ?thesis by (simp only: take_bit_eq_mask [symmetric] unsigned_take_bit_eq) (simp add: take_bit_eq_mod [where 'a = nat])
  qed
  moreover have "samples_in_packet c > samples_per_packet_base c \<longleftrightarrow> \<not> r < 0x10000"
    using s assms(2) by (simp add: word_less_nat_alt)
  ultimately show "unat (next_rem c) = (if r < 0x10000 then r + frac else (r + frac) mod 0x10000)"
    by (simp add: next_rem_def Let_def)
qed

lemma sizes_sum:
  assumes "base < 2 ^ 16" and "frac \<le> 0x8000" and "unat (tk_rem c) = r" and "r < 0x10000 + frac"
    and "unat (samples_per_packet_base c) = base" and "unat (samples_per_packet_fractional c) = frac"
  shows "\<exists>r' < 0x10000 + frac. r + k * (0x10000 * base + frac) = 0x10000 * sum_list (packet_sizes k c) + r'"
  using assms(3-)
proof (induction k arbitrary: c r)
  case (Suc k)
  let ?r = "if r < 0x10000 then r + frac else r + frac - 0x10000"
  note step = size_step [OF Suc.prems(1,3,4,2)]
  have "\<not> r < 0x10000 \<Longrightarrow> (r + frac) mod 0x10000 = r + frac - 0x10000"
    using Suc.prems(2) assms(2) by (simp add: mod_if)
  then have n: "unat (next_rem c) = ?r" using step(2) assms(1,2) by simp
  have "?r < 0x10000 + frac" using Suc.prems(2) assms(2) by (cases "r < 0x10000") auto
  with n obtain r' where r': "r' < 0x10000 + frac"
      "?r + k * (0x10000 * base + frac) = 0x10000 * sum_list (packet_sizes k (c\<lparr>tk_rem := next_rem c\<rparr>)) + r'"
    using Suc.IH [of "c\<lparr>tk_rem := next_rem c\<rparr>" ?r] Suc.prems(3,4) by auto
  have "r + Suc k * (0x10000 * base + frac) = 0x10000 * unat (samples_in_packet c) + (?r + k * (0x10000 * base + frac))"
    using step(1) assms(1,2) by simp
  also have "\<dots> = 0x10000 * sum_list (packet_sizes (Suc k) c) + r'" unfolding r'(2) by simp
  finally show ?case using r'(1) by blast
qed simp




text \<open>The number of samples in the next packets, from the remainder the stream has.\<close>

primrec total_samples :: "nat \<Rightarrow> nat \<Rightarrow> nat \<Rightarrow> nat \<Rightarrow> nat" where
  "total_samples base frac 0 r = 0"
| "total_samples base frac (Suc k) r = (if r < 0x10000 then base + total_samples base frac k (r + frac)
     else Suc base + total_samples base frac k ((r + frac) mod 0x10000))"

lemma total_samples_numeral:
  "total_samples base frac (numeral v) r = (if r < 0x10000 then base + total_samples base frac (pred_numeral v) (r + frac)
     else Suc base + total_samples base frac (pred_numeral v) ((r + frac) mod 0x10000))"
  by (simp only: numeral_eq_Suc [of v] total_samples.simps)

lemma sum_packet_sizes:
  assumes "unat (tk_rem c) = r" and "unat (samples_per_packet_base c) = base" and "unat (samples_per_packet_fractional c) = frac"
    and "r < 0x10000 + frac" and "frac < 0x10000" and "base < 2 ^ 16"
  shows "sum_list (packet_sizes k c) = total_samples base frac k r"
  using assms(1-4)
proof (induction k arbitrary: c r)
  case (Suc k)
  let ?c = "c\<lparr>tk_rem := next_rem c\<rparr>"
  note step = size_step [OF Suc.prems assms(5,6)]
  have "sum_list (packet_sizes k ?c) = total_samples base frac k (unat (next_rem c))"
    by (rule Suc.IH) (use Suc.prems step(2) in auto)
  then show ?case using step by simp
qed simp



section \<open>Locking on to a stream\<close>

text \<open>A complete packet goes from the talker to the listener.\<close>

definition transfer ::
    "fifo_conf \<Rightarrow> u32 \<Rightarrow> ptp_time_info_mod64 \<Rightarrow> audio_frame_t list
      \<Rightarrow> avb1722_Talker_StreamConfig_t \<times> bytes \<times> bool \<times> avb_1722_stream_info_t \<times> ofifo_t list
      \<Rightarrow> (avb1722_Talker_StreamConfig_t \<times> bytes \<times> bool \<times> avb_1722_stream_info_t \<times> ofifo_t list) option" where
  "transfer cf ty time frames = (\<lambda>(c, b, notified, s, qs). do {
     (len, c, b) \<leftarrow> feed ty time frames c b;
     (_, _, notified, s, qs) \<leftarrow> avb_1722_listener_process_packet cf (take (unat len) (drop 2 b)) (unat len) notified s qs;
     Some (c, b, notified, s, qs)
   })"

text \<open>A listener that has counted \<open>k\<close> packets with \<open>r\<close> samples of \<open>ch\<close> channels; the last packet had the data block count \<open>d\<close> and \<open>n\<close> samples.\<close>

definition locking :: "nat \<Rightarrow> u8 \<Rightarrow> nat \<Rightarrow> nat \<Rightarrow> nat \<Rightarrow> avb_1722_stream_info_t \<Rightarrow> bool" where
  "locking ch d n k r s \<longleftrightarrow> prev_num_samples s = int (n * ch) \<and> ls_dbc s = uint d \<and> chan_lock s = int k
     \<and> (if k = 0 then num_channels_in_payload s = 0 else num_channels_in_payload s = int ch)
     \<and> (if k < 16 then k = 0 \<or> ls_rate s = int (r * ch) else ls_rate s = estimated_rate (int (r div 16)))"

lemma dbc_difference:
  assumes "n < 256"
  shows "(let e = uint (d + of_nat n :: u8) - uint d in if e < 0 then e + 0x100 else e) = int n"
proof -
  have "uint (d + of_nat n) = (uint d + int n) mod 256" using assms by (simp add: uint_word_ariths unsigned_of_nat take_bit_eq_mod zmod_int)
  moreover have "0 \<le> uint d" "uint d < 256" using unsigned_less [of d, where 'a = int] by simp_all
  moreover from this assms have "(uint d + int n) mod 256 = (if uint d + int n < 256 then uint d + int n else uint d + int n - 256)"
    using minus_mod_self2 [of "uint d + int n" 256] mod_pos_pos_trivial [of "uint d + int n - 256" 256] by auto
  ultimately show ?thesis using assms by (auto simp: Let_def)
qed

lemma sdiv_nat: "int a sdiv int b = int (a div b)"
  by (simp add: signed_divide_int_def sgn_if zdiv_int)

lemma lock_step:
  assumes "locking ch d n k r s" and "0 < ch" and "0 < n" and "k < 16" and "k = 0 \<longrightarrow> r = 0"
  shows "tot (listener_lock (prev_num_samples s) (int n) (int (m * ch)) (s\<lparr>ls_dbc := uint (d + of_nat n), prev_num_samples := int (m * ch)\<rparr>))
     (locking ch (d + of_nat n) m (Suc k) (r + m))"
proof -
  have q: "int (n * ch) sdiv int n = int ch" using assms(3) by (simp only: sdiv_nat) simp
  have r: "int ((r + m) * ch) sdiv int ch sdiv 16 = int ((r + m) div 16)"
    using sdiv_nat [of "(r + m) * ch" ch] sdiv_nat [of "r + m" 16] assms(2) by simp
  have p: "prev_num_samples s = int (n * ch)" "n * ch \<noteq> 0" using assms by (simp_all add: locking_def)
  show ?thesis
    using assms p(2) q r unfolding listener_lock_def p(1) Let_def
    by (auto simp: locking_def tot_def algebra_simps split: if_splits)
qed

lemma size_word:
  assumes "talker_ready c ch n b"
  shows "unat (of_nat (50 + 4 * (n * ch)) :: u32) = 50 + 4 * (n * ch)" and "52 + 4 * (n * ch) \<le> length b"
proof -
  have c: "SAMPLES + 4 * (n * ch) \<le> length b" "length b < 2 ^ 15" using assms by (simp_all add: talker_ready_def)
  have "50 + 4 * (n * ch) \<le> length b" using c(1) by (simp add: header_sizes)
  then have "50 + 4 * (n * ch) < 2 ^ 15" using c(2) by (rule le_less_trans)
  then show "unat (of_nat (50 + 4 * (n * ch)) :: u32) = 50 + 4 * (n * ch)" unfolding unat_of_nat by (intro mod_less) simp
  show "52 + 4 * (n * ch) \<le> length b" using c(1) by (simp add: header_sizes)
qed

lemma transfer_unlocked:
  assumes "talker_ready c ch n b" and "\<forall>f \<in> set frames. frame_ok c ch f" and "length frames = n" and "packet_header b" and "chan_lock s < 16"
  shows "\<exists>t b'. packet_header b' \<and> length b' = length b \<and> transfer cf ty time frames (c, b, notified, s, qs) =
     (let d = ucast (dbc_at_start_of_last_packet c) :: u8; e = uint d - ls_dbc s in do {
        s' \<leftarrow> listener_lock (prev_num_samples s) (if e < 0 then e + 0x100 else e) (int (n * ch))
          (s\<lparr>ls_dbc := uint d, prev_num_samples := int (n * ch)\<rparr>);
        Some (c\<lparr>tk_rem := next_rem c, dbc_at_start_of_last_packet := dbc_at_start_of_last_packet c + of_nat n,
           sequence_number := sequence_number c + 1, timestamp_valid := False, tk_timestamp := t\<rparr>, b', notified, s', qs) })"
proof -
  have c: "0 < n * ch" "SAMPLES + 4 * (n * ch) \<le> length b" "length b < 2 ^ 15"
    using assms(1) by (simp_all add: talker_ready_def)
  from feed_packet [OF assms(1-4), of ty time] obtain b' v t where
    f: "feed ty time frames c b = Some (of_nat (50 + 4 * (n * ch)), c\<lparr>tk_rem := next_rem c,
           dbc_at_start_of_last_packet := dbc_at_start_of_last_packet c + of_nat n,
           sequence_number := sequence_number c + 1, timestamp_valid := False, tk_timestamp := t\<rparr>, b')"
    and b': "length b' = length b" "packet_header b'" "b' ! 21 = 0x80 OR v" "v \<in> {0, 1}"
      "b' ! 40 = of_nat ((8 + 4 * (n * ch)) div 256)" "b' ! 41 = of_nat (8 + 4 * (n * ch))"
      "b' ! 47 = ucast (dbc_at_start_of_last_packet c)" by blast
  note u = size_word(1) [OF assms(1)]
  show ?thesis
    using f b'(1,2) packet_read [OF b'(2-4) c(1), of cf notified s qs] b'(5-7) c(2,3) assms(5)
    by (intro exI [of _ t] exI [of _ b'] conjI) (simp_all add: transfer_def Let_def u del: of_nat_add of_nat_mult cong: Option.bind_cong)
qed

text \<open>A stream at the start of a packet, with room for the larger of its two packet sizes.\<close>

definition paced :: "avb1722_Talker_StreamConfig_t \<Rightarrow> nat \<Rightarrow> bytes \<Rightarrow> bool" where
  "paced c ch b \<longleftrightarrow> current_samples_in_packet c = 0 \<and> tk_num_channels c = of_nat ch \<and> 0 < ch
     \<and> 0 < unat (samples_per_packet_base c) \<and> unat (samples_per_packet_base c) < 255 \<and> unat (samples_per_packet_fractional c) < 0x10000
     \<and> unat (tk_rem c) < 0x10000 + unat (samples_per_packet_fractional c)
     \<and> SAMPLES + 4 * (Suc (unat (samples_per_packet_base c)) * ch) \<le> length b \<and> length b < 2 ^ 15"

lemma paced_size:
  assumes "paced c ch b"
  shows "unat (samples_in_packet c) \<in> {unat (samples_per_packet_base c), Suc (unat (samples_per_packet_base c))}"
    and "unat (next_rem c) < 0x10000 + unat (samples_per_packet_fractional c)"
  using size_step [of c, OF refl refl refl] assms by (auto simp: paced_def)

lemma paced_ready:
  assumes "paced c ch b"
  shows "talker_ready c ch (unat (samples_in_packet c)) b" and "0 < unat (samples_in_packet c)" and "unat (samples_in_packet c) < 256"
proof -
  have "unat (samples_in_packet c) \<le> Suc (unat (samples_per_packet_base c))" using paced_size(1) [OF assms] by auto
  then have "unat (samples_in_packet c) * ch \<le> Suc (unat (samples_per_packet_base c)) * ch" by (rule mult_le_mono1)
  moreover have "SAMPLES + 4 * (Suc (unat (samples_per_packet_base c)) * ch) \<le> length b" using assms by (simp add: paced_def)
  ultimately have "SAMPLES + 4 * (unat (samples_in_packet c) * ch) \<le> length b" by linarith
  moreover show "0 < unat (samples_in_packet c)" and "unat (samples_in_packet c) < 256"
    using paced_size(1) [OF assms] assms by (auto simp: paced_def)
  ultimately show "talker_ready c ch (unat (samples_in_packet c)) b"
    using assms unfolding paced_def talker_ready_def
    by (intro conjI) simp_all
qed

lemma packet_sizes_cong:
  assumes "samples_per_packet_base d = samples_per_packet_base c" and "samples_per_packet_fractional d = samples_per_packet_fractional c"
    and "tk_rem d = tk_rem c"
  shows "packet_sizes k d = packet_sizes k c"
  using assms
proof (induction k arbitrary: c d)
  case (Suc k)
  have "samples_in_packet d = samples_in_packet c" "next_rem d = next_rem c"
    using Suc.prems by (simp_all add: samples_in_packet_def next_rem_def)
  then show ?case using Suc.prems by (simp add: Suc.IH [of "d\<lparr>tk_rem := next_rem c\<rparr>" "c\<lparr>tk_rem := next_rem c\<rparr>"])
qed simp

lemma ucast_plus: "ucast (x + y :: u32) = (ucast x + ucast y :: u8)"
  by (rule word_uint_eqI) (simp add: unsigned_ucast_eq uint_word_ariths take_bit_eq_mod mod_simps mod_mod_cancel)

lemma transfers_lock:
  assumes "paced c ch b" and "packet_header b" and "locking ch d n k r s" and "ucast (dbc_at_start_of_last_packet c) = d + of_nat n"
    and "0 < n" and "n < 256" and "k + length fss \<le> 16" and "k = 0 \<longrightarrow> r = 0"
    and "map length fss = packet_sizes (length fss) c" and "\<forall>fs \<in> set fss. \<forall>f \<in> set fs. frame_ok c ch f"
  shows "\<exists>c' b' s' d' n'. for_each fss (transfer cf ty time) (c, b, notified, s, qs) = Some (c', b', notified, s', qs)
     \<and> locking ch d' n' (k + length fss) (r + sum_list (packet_sizes (length fss) c)) s'"
  using assms
proof (induction fss arbitrary: c b d n k r s)
  case (Cons fs fss)
  let ?n = "unat (samples_in_packet c)"
  note rd = paced_ready [OF Cons.prems(1)]
  have l: "length fs = ?n" "map length fss = packet_sizes (length fss) (c\<lparr>tk_rem := next_rem c\<rparr>)" using Cons.prems(9) by simp_all
  have ch: "0 < ch" using Cons.prems(1) by (simp add: paced_def)
  have k: "k < 16" "chan_lock s < 16" using Cons.prems(3,7) by (auto simp: locking_def)
  have ld: "ls_dbc s = uint d" using Cons.prems(3) by (simp add: locking_def)
  obtain s' where s': "listener_lock (prev_num_samples s) (int n) (int (?n * ch)) (s\<lparr>ls_dbc := uint (d + of_nat n), prev_num_samples := int (?n * ch)\<rparr>) = Some s'"
      "locking ch (d + of_nat n) ?n (Suc k) (r + ?n) s'"
    using lock_step [OF Cons.prems(3) ch Cons.prems(5) k(1) Cons.prems(8), of ?n] by (auto simp: tot_def)
  have fr: "\<forall>f \<in> set fs. frame_ok c ch f" using Cons.prems(10) by simp
  obtain t b' where b': "packet_header b'" "length b' = length b"
    and tr: "transfer cf ty time fs (c, b, notified, s, qs) = Some (c\<lparr>tk_rem := next_rem c,
           dbc_at_start_of_last_packet := dbc_at_start_of_last_packet c + of_nat ?n,
           sequence_number := sequence_number c + 1, timestamp_valid := False, tk_timestamp := t\<rparr>, b', notified, s', qs)"
    using transfer_unlocked [OF rd(1) fr l(1) Cons.prems(2) k(2), of cf ty time notified qs] s'(1) dbc_difference [OF Cons.prems(6), of d]
    unfolding Let_def Cons.prems(4) ld by auto
  let ?c = "c\<lparr>tk_rem := next_rem c, dbc_at_start_of_last_packet := dbc_at_start_of_last_packet c + of_nat ?n,
           sequence_number := sequence_number c + 1, timestamp_valid := False, tk_timestamp := t\<rparr>"
  have sz: "packet_sizes (length fss) ?c = packet_sizes (length fss) (c\<lparr>tk_rem := next_rem c\<rparr>)" by (rule packet_sizes_cong) simp_all
  have p: "paced ?c ch b'" using Cons.prems(1) b'(2) paced_size(2) [OF Cons.prems(1)] by (simp add: paced_def)
  have dbc: "ucast (dbc_at_start_of_last_packet ?c) = d + of_nat n + of_nat ?n"
    using Cons.prems(4) by (simp add: ucast_plus ucast_count)
  have fr': "\<forall>fs \<in> set fss. \<forall>f \<in> set fs. frame_ok ?c ch f" using Cons.prems(10) by (simp add: frame_ok_def)
  have "Suc k + length fss \<le> 16" "Suc k = 0 \<longrightarrow> r + ?n = 0" using Cons.prems(7) by simp_all
  from Cons.IH [OF p b'(1) s'(2) dbc rd(2,3) this l(2) [folded sz] fr', unfolded sz] show ?case
    using tr by (simp add: add.assoc)
qed auto

text \<open>The rates a stream can have, with the number of samples per packet as a whole number and a fraction.\<close>

definition known_rates :: "(u32 \<times> nat \<times> nat) list" where
  "known_rates = [(8000, 1, 0), (16000, 2, 0), (32000, 4, 0), (44100, 5, 33587), (48000, 6, 0), (88200, 11, 1638), (96000, 12, 0),
     (176400, 22, 3276), (192000, 24, 0)]"

lemma configured_rate:
  assumes "talker_configure_stream tc mac c0 = Some c"
  shows "(cf_rate tc, unat (samples_per_packet_base c), unat (samples_per_packet_fractional c)) \<in> set known_rates" and "tk_rem c = 0"
    and "current_samples_in_packet c = 0" and "dbc_at_start_of_last_packet c = 0" and "tk_num_channels c = cf_num_channels tc"
    and "length (destMACAdrs c) = 6" and "length (srcMACAdrs c) = 6"
proof -
  obtain interval da sa mp id0 id1 where i: "talker_ts_interval (cf_rate tc) = Some interval"
    and c: "c = c0\<lparr>sampleType := cf_sampleType tc, destMACAdrs := da, srcMACAdrs := sa, streamId1 := id1, streamId0 := id0,
       tk_num_channels := cf_num_channels tc, fifo_mask := cf_fifo_mask tc, tk_map := mp,
       presentation_delay := cf_delay tc, ts_interval := interval,
       samples_per_packet_base := drop_bit 16 (rate_fraction (cf_rate tc)),
       samples_per_packet_fractional := rate_fraction (cf_rate tc) AND 0xffff, tk_rem := 0,
       current_samples_in_packet := 0, timestamp_valid := False, tk_initial := True, dbc_at_start_of_last_packet := 0,
       tk_active := 1, sequence_number := 0, txport := 0\<rparr>" and l: "length da = 6" "length sa = 6"
    using assms unfolding talker_configure_stream_def Let_def bind_eq_Some_conv by (auto simp: read_block_Some_iff)
  from i have "cf_rate tc \<in> {8000, 16000, 32000, 44100, 48000, 88200, 96000, 176400, 192000}"
    by (auto simp: talker_ts_interval_def split: if_splits)
  then show "(cf_rate tc, unat (samples_per_packet_base c), unat (samples_per_packet_fractional c)) \<in> set known_rates"
    unfolding known_rates_def by (elim insertE emptyE) (simp_all add: c rate_fraction_def PACKET_RATE_1722_def)
  show "tk_rem c = 0" "current_samples_in_packet c = 0" "dbc_at_start_of_last_packet c = 0" "tk_num_channels c = cf_num_channels tc"
    "length (destMACAdrs c) = 6" "length (srcMACAdrs c) = 6" unfolding c using l by simp_all
qed

lemma recognised_rate:
  assumes "(rate, base, frac) \<in> set known_rates"
  shows "estimated_rate (int (total_samples base frac 16 frac div 16)) = (if rate = 176400 then 0 else uint rate)"
    and "0 < base" and "base < 255" and "frac < 0x10000"
  using assms unfolding known_rates_def list.set
  by (elim insertE emptyE Pair_inject; hypsubst; simp add: total_samples_numeral estimated_rate_def)+

lemma length_packet_sizes: "length (packet_sizes k c) = k"
  by (induction k arbitrary: c) simp_all

text \<open>Without a known rate every packet with a timestamp is dropped.\<close>

lemma unknown_rate_refuses:
  "syt_interval (ls_rate s) = None \<Longrightarrow> AVBTP_TV hdr b = Some 1 \<Longrightarrow> listener_deliver cf b hdr dbc m notified s qs = Some (False, [], notified, s, qs)"
  by (simp add: listener_deliver_def)

text \<open>C7: a listener locks on to every stream of a talker. When both have just been configured, the listener finds the number of channels
  from the first 17 packets, and the sampling rate, except that it has no entry for 176.4 kHz: it ends with rate 0 there, with which it drops every packet
  that carries a timestamp.\<close>

theorem listener_locks_to_stream:
  assumes "talker_configure_stream tc mac c0 = Some c" and "AVB1722_Talker_bufInit c vlan b0 = Some (ty, b)"
    and "listener_configure_stream clock rate fifo_map s0 qs0 = Some (s, qs)"
    and "cf_num_channels tc = of_nat ch" and "0 < ch" and "length b0 < 2 ^ 15"
    and "SAMPLES + 4 * (Suc (unat (samples_per_packet_base c)) * ch) \<le> length b0"
    and "map length fss = packet_sizes 17 c" and "\<forall>fs \<in> set fss. \<forall>f \<in> set fs. frame_ok c ch f"
  shows "\<exists>c' b' s'. for_each fss (transfer cf ty time) (c, b, notified, s, qs) = Some (c', b', notified, s', qs)
     \<and> chan_lock s' = 16 \<and> num_channels_in_payload s' = int ch \<and> ls_rate s' = (if cf_rate tc = 176400 then 0 else uint (cf_rate tc))"
proof -
  let ?n = "unat (samples_in_packet c)"
  note conf = configured_rate [OF assms(1)] and rate = recognised_rate [OF configured_rate(1) [OF assms(1)]]
  have b: "packet_header b" "length b = length b0"
    using bufInit_header [of b0 c vlan] conf(6,7) assms(2,7) by (simp_all add: tot_def header_sizes)
  have p: "paced c ch b" using conf rate assms(4-7) b(2) by (simp add: paced_def)
  have s: "chan_lock s = 0" "num_channels_in_payload s = 0" "prev_num_samples s = 0"
    using assms(3) by (auto simp: listener_configure_stream_def Let_def split: bind_splits)
  obtain fs gss where fss: "fss = fs # gss" "length fs = ?n" "map length gss = packet_sizes 16 (c\<lparr>tk_rem := next_rem c\<rparr>)"
    using assms(8) by (cases fss) (auto simp: numeral_eq_Suc)
  note rd = paced_ready [OF p]
  have fr: "\<forall>f \<in> set fs. frame_ok c ch f" "\<forall>fs \<in> set gss. \<forall>f \<in> set fs. frame_ok c ch f" using assms(9) fss(1) by simp_all
  let ?s = "s\<lparr>ls_dbc := 0, prev_num_samples := int (?n * ch)\<rparr>"
  obtain t b' where b': "packet_header b'" "length b' = length b"
    and tr: "transfer cf ty time fs (c, b, notified, s, qs) = Some (c\<lparr>tk_rem := next_rem c,
           dbc_at_start_of_last_packet := of_nat ?n, sequence_number := sequence_number c + 1, timestamp_valid := False, tk_timestamp := t\<rparr>,
           b', notified, ?s, qs)"
    using transfer_unlocked [OF rd(1) fr(1) fss(2) b(1), of s cf ty time notified qs] s conf(4) by (auto simp: listener_lock_def Let_def)
  let ?c = "c\<lparr>tk_rem := next_rem c, dbc_at_start_of_last_packet := of_nat ?n,
           sequence_number := sequence_number c + 1, timestamp_valid := False, tk_timestamp := t\<rparr>"
  have sz: "packet_sizes k ?c = packet_sizes k (c\<lparr>tk_rem := next_rem c\<rparr>)" for k by (rule packet_sizes_cong) simp_all
  have l: "length gss = 16" using arg_cong [OF fss(3), of length] by (simp add: length_packet_sizes)
  have "paced ?c ch b'" using p b'(2) paced_size(2) [OF p] by (simp add: paced_def)
  moreover have "locking ch 0 ?n 0 0 ?s" using s by (simp add: locking_def)
  moreover have "\<forall>fs \<in> set gss. \<forall>f \<in> set fs. frame_ok ?c ch f" using fr(2) by (simp add: frame_ok_def)
  ultimately obtain c' b'' s' d' n' where
    run: "for_each gss (transfer cf ty time) (?c, b', notified, ?s, qs) = Some (c', b'', notified, s', qs)"
      and lk: "locking ch d' n' 16 (sum_list (packet_sizes 16 ?c)) s'"
    using transfers_lock [of ?c ch b' 0 ?n 0 0 ?s gss cf ty time notified qs] b'(1) rd(2,3) l fss(3) sz
    by (auto simp: ucast_count)
  have "sum_list (packet_sizes 16 ?c) = total_samples (unat (samples_per_packet_base c)) (unat (samples_per_packet_fractional c)) 16
      (unat (samples_per_packet_fractional c))"
    using size_step(2) [OF _ refl refl, of c 0] conf(2) rate(3,4) by (intro sum_packet_sizes) simp_all
  then show ?thesis using tr run lk rate(1) fss(1) by (auto simp: locking_def)
qed

lemma packet_sizes_whole:
  assumes "tk_rem c = 0" and "samples_per_packet_fractional c = 0"
  shows "packet_sizes k c = replicate k (unat (samples_per_packet_base c))"
  using assms
proof (induction k arbitrary: c)
  case (Suc k)
  have "samples_in_packet c = samples_per_packet_base c" "next_rem c = 0" using Suc.prems by (simp_all add: samples_in_packet_def next_rem_def Let_def)
  then show ?case using Suc.prems by (simp add: Suc.IH)
qed simp

definition sample_config :: talker_config where
  "sample_config = \<lparr>cf_sampleType = MBLA_24BIT, cf_destMAC = [0x91, 0xe0, 0xf0, 0, 0, 1], cf_streamIdExt = 0, cf_num_channels = 2, cf_fifo_mask = 3,
       cf_map = [0, 1], cf_rate = 48000, cf_delay = 2000000\<rparr>"

theorem listener_locks_to_stream_witness:
  "\<exists>c ty b s qs c' b' s'. talker_configure_stream sample_config [0, 0x22, 0x97, 0, 0, 1] sample_stream = Some c
     \<and> AVB1722_Talker_bufInit c 2 (replicate 200 0) = Some (ty, b)
     \<and> listener_configure_stream 0 48000 [0, - 1] locked_listener [silent_fifo 10] = Some (s, qs)
     \<and> for_each (replicate 17 (replicate 6 \<lparr>af_timestamp = 0, af_samples = [1, 2]\<rparr>)) (transfer \<lparr>volume_control = False, format_saf = False\<rparr> ty sample_time)
         (c, b, False, s, qs) = Some (c', b', False, s', qs)
     \<and> chan_lock s' = 16 \<and> num_channels_in_payload s' = 2 \<and> ls_rate s' = 48000"
proof -
  obtain c where c: "talker_configure_stream sample_config [0, 0x22, 0x97, 0, 0, 1] sample_stream = Some c"
    and t: "tk_map c = [0, 1]" "samples_per_packet_base c = 6" "samples_per_packet_fractional c = 0"
    by (simp add: sample_config_def talker_configure_stream_def read_block_def copy_in_def sample_stream_def talker_ts_interval_def Let_def
        rate_fraction_def PACKET_RATE_1722_def)
  obtain ty b where b: "AVB1722_Talker_bufInit c 2 (replicate 200 0) = Some (ty, b)"
    using bufInit_header [of "replicate 200 0" c 2] configured_rate(6,7) [OF c] by (auto simp: tot_def)
  obtain s qs where s: "listener_configure_stream 0 48000 [0, - 1] locked_listener [silent_fifo 10] = Some (s, qs)"
    by (simp add: listener_configure_stream_def locked_listener_def copy_in_def with_fifo_def rd_def enable_audio_output_fifo_def Let_def silent_fifo_def wr_def END_OF_FIFO_def)
  let ?f = "\<lparr>af_timestamp = 0, af_samples = [1, 2]\<rparr> :: audio_frame_t"
  have "map length (replicate 17 (replicate 6 ?f)) = packet_sizes 17 c"
    using packet_sizes_whole [OF configured_rate(2) [OF c] t(3), of 17] t(2) by simp
  moreover have "\<forall>fs \<in> set (replicate 17 (replicate 6 ?f)). \<forall>f \<in> set fs. frame_ok c 2 f"
    by (auto simp: frame_ok_def t less_Suc_eq numeral_2_eq_2)
  ultimately show ?thesis
    using listener_locks_to_stream [OF c b s, of 2 "replicate 17 (replicate 6 ?f)" "\<lparr>volume_control = False, format_saf = False\<rparr>" sample_time False] b c s t
    by (auto simp: sample_config_def header_sizes)
qed

section \<open>Two streams of one talker\<close>

text \<open>The talker handles audio frames, each as soon as the audio interface has completed it; the result is what it sends.\<close>

primrec talker_run :: "ptp_time_info_mod64 \<Rightarrow> audio_frame_t list \<Rightarrow> avb_1722_talker_state_t \<Rightarrow> (bytes list \<times> avb_1722_talker_state_t) option" where
  "talker_run time [] s = Some ([], s)"
| "talker_run time (f # fs) s = do {
     (sent, _, s) \<leftarrow> avb_1722_talker_send_packets time [f, f] \<lparr>active_buffer = 0, data_ready = 1\<rparr> s;
     (more, s) \<leftarrow> talker_run time fs s;
     Some (sent @ more, s)
   }"

text \<open>A talker with two streams that stream.\<close>

definition two_streams :: "avb1722_Talker_StreamConfig_t \<Rightarrow> bytes \<Rightarrow> u32 \<Rightarrow> avb1722_Talker_StreamConfig_t \<Rightarrow> bytes \<Rightarrow> u32 \<Rightarrow> avb_1722_talker_state_t \<Rightarrow> bool" where
  "two_streams c0 b0 k0 c1 b1 k1 s \<longleftrightarrow> talker_streams s = [c0, c1] \<and> tx_buf s = [b0, b1] \<and> tx_buf_fill_size s = [k0, k1] \<and> max_active_avb_stream s = 1
     \<and> tk_active c0 = 2 \<and> tk_active c1 = 2"

lemma create_keeps_active:
  "avb1722_create_packet ty time f c b = Some (k, d, e) \<Longrightarrow> tk_active d = tk_active c"
  by (auto simp: avb1722_create_packet_def finish_packet_def Let_def bind_eq_Some_conv split: if_splits)

lemma two_streams_step:
  assumes "two_streams c0 b0 k0 c1 b1 k1 s" and "avb1722_create_packet (audioSampleType s) time f c0 b0 = Some (m0, d0, e0)"
    and "avb1722_create_packet (audioSampleType s) time f c1 b1 = Some (m1, d1, e1)"
  shows "\<exists>t. two_streams d0 e0 (if k0 = 0 then m0 else k0) d1 e1 (if k1 = 0 then m1 else k1) t \<and> audioSampleType t = audioSampleType s
     \<and> avb_1722_talker_send_packets time [f, f] \<lparr>active_buffer = 0, data_ready = 1\<rparr> s = do {
       (sent, t) \<leftarrow> talker_transmit [0, 1] t; Some (sent, \<lparr>active_buffer = 0, data_ready = 0\<rparr>, t) }"
proof -
  let ?t = "s\<lparr>tx_buf := [e0, e1], talker_streams := [d0, d1], tx_buf_fill_size := [if k0 = 0 then m0 else k0, if k1 = 0 then m1 else k1]\<rparr>"
  have "for_each [0, 1] (talker_add_frame time f) s = Some ?t"
    using assms by (simp add: two_streams_def talker_add_frame_def rd_def)
  moreover have "two_streams d0 e0 (if k0 = 0 then m0 else k0) d1 e1 (if k1 = 0 then m1 else k1) ?t"
    using assms(1) create_keeps_active [OF assms(2)] create_keeps_active [OF assms(3)] by (simp add: two_streams_def)
  moreover have "[0..<nat (max_active_avb_stream s + 1)] = [0, 1]" using assms(1) by (simp add: two_streams_def upt_rec)
  ultimately show ?thesis
    using assms(1) by (intro exI [of _ ?t]) (simp add: avb_1722_talker_send_packets_def two_streams_def rd_def Let_def del: for_each.simps talker_transmit.simps)
qed

lemma for_each_empty: "for_each [] f = Some"
  by (rule ext) simp

lemma feed_snoc: "feed ty time (fs @ [f]) c b = do { (_, c, b) \<leftarrow> feed ty time fs c b; avb1722_create_packet ty time f c b }"
  by (simp add: feed_def for_each_append case_prod_unfold for_each_empty)

lemma talker_run_append:
  "talker_run time (xs @ ys) s = do { (p, s) \<leftarrow> talker_run time xs s; (q, s) \<leftarrow> talker_run time ys s; Some (p @ q, s) }"
  by (induction xs arbitrary: s) (simp_all add: case_prod_unfold bind_assoc [symmetric] cong: Option.bind_cong)

lemma two_streams_quiet: "two_streams c0 b0 0 c1 b1 0 s \<Longrightarrow> talker_transmit [0, 1] s = Some ([], s)"
  by (simp add: two_streams_def)

lemma two_streams_partial:
  assumes "two_streams c0 b0 0 c1 b1 0 s" and "talker_ready c0 ch0 n b0" and "talker_ready c1 ch1 n b1"
    and "\<forall>f \<in> set fs. frame_ok c0 ch0 f \<and> frame_ok c1 ch1 f" and "length fs < n"
  shows "\<exists>d0 e0 d1 e1 t. talker_run time fs s = Some ([], t) \<and> two_streams d0 e0 0 d1 e1 0 t \<and> audioSampleType t = audioSampleType s
     \<and> feed (audioSampleType s) time fs c0 b0 = Some (0, d0, e0) \<and> feed (audioSampleType s) time fs c1 b1 = Some (0, d1, e1)"
  using assms(4,5)
proof (induction fs rule: rev_induct)
  case Nil
  then show ?case using assms(1) by (simp add: feed_def)
next
  case (snoc f fs)
  then obtain d0 e0 d1 e1 t where t: "talker_run time fs s = Some ([], t)" "two_streams d0 e0 0 d1 e1 0 t" "audioSampleType t = audioSampleType s"
    and f: "feed (audioSampleType s) time fs c0 b0 = Some (0, d0, e0)" "feed (audioSampleType s) time fs c1 b1 = Some (0, d1, e1)" by auto
  from feed_partial [OF assms(2), of "fs @ [f]" "audioSampleType s" time] feed_partial [OF assms(3), of "fs @ [f]" "audioSampleType s" time] snoc.prems f
  obtain d0' e0' d1' e1' where c: "avb1722_create_packet (audioSampleType s) time f d0 e0 = Some (0, d0', e0')"
      "avb1722_create_packet (audioSampleType s) time f d1 e1 = Some (0, d1', e1')"
    by (auto simp: feed_snoc)
  from two_streams_step [OF t(2) c [folded t(3)]] two_streams_quiet obtain t' where
    "two_streams d0' e0' 0 d1' e1' 0 t'" "audioSampleType t' = audioSampleType s"
    "avb_1722_talker_send_packets time [f, f] \<lparr>active_buffer = 0, data_ready = 1\<rparr> t = Some ([], \<lparr>active_buffer = 0, data_ready = 0\<rparr>, t')"
    unfolding t(3) by fastforce
  then show ?case using t(1) f c by (auto simp: talker_run_append feed_snoc)
qed

lemma packet_fits:
  assumes "talker_ready c ch n b" and "\<forall>f \<in> set fs. frame_ok c ch f" and "length fs = n" and "packet_header b" and "feed ty time fs c b = Some (m, d, e)"
  shows "m \<noteq> 0" and "2 + unat m \<le> length e"
proof -
  have e: "m = of_nat (50 + 4 * (n * ch))" "length e = length b" using feed_packet [OF assms(1-4), of ty time] assms(5) by auto
  then have "unat m = 50 + 4 * (n * ch)" using size_word(1) [OF assms(1)] by simp
  then show "m \<noteq> 0" "2 + unat m \<le> length e" using size_word(2) [OF assms(1)] e(2) by auto
qed

text \<open>When both packets are complete, that of the second stream stays behind.\<close>

lemma two_streams_complete:
  assumes "two_streams c0 b0 0 c1 b1 0 s" and "talker_ready c0 ch0 n b0" and "talker_ready c1 ch1 n b1" and "packet_header b0" and "packet_header b1"
    and "\<forall>f \<in> set fs. frame_ok c0 ch0 f \<and> frame_ok c1 ch1 f" and "length fs = n"
    and "feed (audioSampleType s) time fs c0 b0 = Some (m0, d0, e0)" and "feed (audioSampleType s) time fs c1 b1 = Some (m1, d1, e1)"
  shows "\<exists>t. talker_run time fs s = Some ([take (unat m0) (drop 2 e0)], t) \<and> two_streams d0 e0 0 d1 e1 m1 t \<and> audioSampleType t = audioSampleType s"
proof -
  have "0 < n" using assms(2) by (simp add: talker_ready_def)
  then obtain gs g where fs: "fs = gs @ [g]" "length gs < n" using assms(7) by (cases fs rule: rev_cases) auto
  from two_streams_partial [OF assms(1-3), of gs time] assms(6) fs
  obtain c0' b0' c1' b1' t where t: "talker_run time gs s = Some ([], t)" "two_streams c0' b0' 0 c1' b1' 0 t" "audioSampleType t = audioSampleType s"
    and f: "feed (audioSampleType s) time gs c0 b0 = Some (0, c0', b0')" "feed (audioSampleType s) time gs c1 b1 = Some (0, c1', b1')" by auto
  have c: "avb1722_create_packet (audioSampleType s) time g c0' b0' = Some (m0, d0, e0)"
      "avb1722_create_packet (audioSampleType s) time g c1' b1' = Some (m1, d1, e1)"
    using assms(8,9) f fs(1) by (simp_all add: feed_snoc)
  from two_streams_step [OF t(2) c [folded t(3)]] obtain t' where
    t': "two_streams d0 e0 m0 d1 e1 m1 t'" "audioSampleType t' = audioSampleType s"
    "avb_1722_talker_send_packets time [g, g] \<lparr>active_buffer = 0, data_ready = 1\<rparr> t = do {
       (sent, t) \<leftarrow> talker_transmit [0, 1] t'; Some (sent, \<lparr>active_buffer = 0, data_ready = 0\<rparr>, t) }"
    unfolding t(3) by fastforce
  have "\<forall>f \<in> set fs. frame_ok c0 ch0 f" using assms(6) by blast
  note packet_fits [OF assms(2) this assms(7,4,8)]
  then have "talker_transmit [0, 1] t' = Some ([take (unat m0) (drop 2 e0)], t'\<lparr>tx_buf_fill_size := [0, m1], sent_1722 := sent_1722 t' + 1\<rparr>)"
    using t'(1) by (simp add: two_streams_def read_block_def)
  then show ?thesis using t' t(1) fs(1) by (auto simp: talker_run_append two_streams_def)
qed

lemma paced_packet:
  assumes "paced c ch b" and "packet_header b" and "\<forall>f \<in> set fs. frame_ok c ch f" and "length fs = unat (samples_in_packet c)"
  shows "\<exists>m d e. feed ty time fs c b = Some (m, d, e) \<and> paced d ch e \<and> packet_header e \<and> tk_map d = tk_map c
     \<and> samples_per_packet_base d = samples_per_packet_base c"
proof -
  from feed_packet [OF paced_ready(1) [OF assms(1)] assms(3,4,2), of ty time] obtain m d e where
    d: "feed ty time fs c b = Some (m, d, e)" "packet_header e" "length e = length b" "tk_rem d = next_rem c"
      "samples_per_packet_base d = samples_per_packet_base c" "samples_per_packet_fractional d = samples_per_packet_fractional c" "tk_map d = tk_map c"
      "current_samples_in_packet d = current_samples_in_packet c" "tk_num_channels d = tk_num_channels c"
    by fastforce
  then show ?thesis using assms(1) paced_size(2) [OF assms(1)] by (auto simp: paced_def)
qed

text \<open>C26: a talker loses samples when the packets of two of its streams are complete at the same frame. It sends only the first of them;
  the frame that follows overwrites the first samples of the other packet, and it is sent in that state. The streams can have any number of
  channels, and any packet size of two or more.\<close>

theorem pending_packet_overwritten:
  assumes "two_streams c0 b0 0 c1 b1 0 s" and "paced c0 ch0 b0" and "paced c1 ch1 b1" and "packet_header b0" and "packet_header b1"
    and "2 \<le> unat (samples_per_packet_base c0)" and "2 \<le> unat (samples_per_packet_base c1)"
    and "\<forall>f \<in> set (fs @ [g]). frame_ok c0 ch0 f \<and> frame_ok c1 ch1 f"
    and "length fs = unat (samples_in_packet c0)" and "length fs = unat (samples_in_packet c1)"
  shows "\<exists>m0 d0 e0 m1 d1 e1 t. feed (audioSampleType s) time fs c0 b0 = Some (m0, d0, e0)
     \<and> feed (audioSampleType s) time fs c1 b1 = Some (m1, d1, e1)
     \<and> talker_run time (fs @ [g]) s = Some ([take (unat m0) (drop 2 e0),
         take (unat m1) (drop 2 (overlay SAMPLES (word_bytes (frame_words (audioSampleType s) c1 ch1 g)) e1))], t)"
proof -
  let ?ty = "audioSampleType s"
  have ok: "\<forall>f \<in> set fs. frame_ok c0 ch0 f" "\<forall>f \<in> set fs. frame_ok c1 ch1 f" "\<forall>f \<in> set fs. frame_ok c0 ch0 f \<and> frame_ok c1 ch1 f"
    "frame_ok c0 ch0 g" "frame_ok c1 ch1 g" using assms(8) by simp_all
  note r0 = paced_ready [OF assms(2), folded assms(9)] and r1 = paced_ready [OF assms(3), folded assms(10)]
  from paced_packet [OF assms(2,4) ok(1) assms(9), of ?ty time] obtain m0 d0 e0 where
    f0: "feed ?ty time fs c0 b0 = Some (m0, d0, e0)" "paced d0 ch0 e0" "tk_map d0 = tk_map c0" "samples_per_packet_base d0 = samples_per_packet_base c0" by blast
  from paced_packet [OF assms(3,5) ok(2) assms(10), of ?ty time] obtain m1 d1 e1 where
    f1: "feed ?ty time fs c1 b1 = Some (m1, d1, e1)" "paced d1 ch1 e1" "tk_map d1 = tk_map c1" "samples_per_packet_base d1 = samples_per_packet_base c1" by blast
  from two_streams_complete [OF assms(1) r0(1) r1(1) assms(4,5) ok(3) refl f0(1) f1(1)] obtain t where
    t: "talker_run time fs s = Some ([take (unat m0) (drop 2 e0)], t)" "two_streams d0 e0 0 d1 e1 m1 t" "audioSampleType t = ?ty" by blast
  have g: "frame_ok d0 ch0 g" "frame_ok d1 ch1 g" using ok(4,5) f0(3) f1(3) by (simp_all add: frame_ok_def)
  have n: "1 < unat (samples_in_packet d0)" "1 < unat (samples_in_packet d1)"
    using paced_size(1) [OF f0(2)] paced_size(1) [OF f1(2)] assms(6,7) f0(4) f1(4) by auto
  have w: "frame_words ?ty d1 ch1 g = frame_words ?ty c1 ch1 g" using f1(3) by (simp add: frame_words_def)
  from feed_partial [OF paced_ready(1) [OF f0(2)], of "[g]" ?ty time] feed_partial [OF paced_ready(1) [OF f1(2)], of "[g]" ?ty time] g n
  obtain d0' e0' d1' where c: "avb1722_create_packet ?ty time g d0 e0 = Some (0, d0', e0')"
      "avb1722_create_packet ?ty time g d1 e1 = Some (0, d1', overlay SAMPLES (word_bytes (frame_words ?ty c1 ch1 g)) e1)"
    by (auto simp: feed_def w for_each_empty)
  let ?e1 = "overlay SAMPLES (word_bytes (frame_words ?ty c1 ch1 g)) e1"
  from two_streams_step [OF t(2) c [folded t(3)]] packet_fits(1) [OF r1(1) ok(2) refl assms(5) f1(1)] obtain t' where
    t': "two_streams d0' e0' 0 d1' ?e1 m1 t'"
    "avb_1722_talker_send_packets time [g, g] \<lparr>active_buffer = 0, data_ready = 1\<rparr> t = do {
       (sent, t) \<leftarrow> talker_transmit [0, 1] t'; Some (sent, \<lparr>active_buffer = 0, data_ready = 0\<rparr>, t) }"
    unfolding t(3) by auto
  then have "talker_transmit [0, 1] t' = Some ([take (unat m1) (drop 2 ?e1)], t'\<lparr>tx_buf_fill_size := [0, 0], sent_1722 := sent_1722 t' + 1\<rparr>)"
    using packet_fits [OF r1(1) ok(2) refl assms(5) f1(1)] by (simp add: two_streams_def read_block_def)
  then show ?thesis using f0(1) f1(1) t(1) t'(2) by (simp add: talker_run_append)
qed

definition sample_talker :: avb_1722_talker_state_t where
  "sample_talker = \<lparr>tx_buf = [snd sample_buffer, snd sample_buffer], tx_buf_fill_size = [0, 0], talker_streams = [sample_stream, sample_stream],
     cur_avb_stream = 0, max_active_avb_stream = 1, tk_mac_addr = [0, 0x22, 0x97, 0, 0, 1], tk_vlan = 2, sent_1722 = 0, audioSampleType = MBLA_24BIT\<rparr>"

theorem pending_packet_overwritten_witness:
  "\<exists>m d e t. feed MBLA_24BIT sample_time sample_frames sample_stream (snd sample_buffer) = Some (m, d, e)
     \<and> talker_run sample_time (sample_frames @ [\<lparr>af_timestamp = 0, af_samples = [0, 0x701]\<rparr>]) sample_talker = Some ([take (unat m) (drop 2 e),
         take (unat m) (drop 2 (overlay SAMPLES (word_bytes (frame_words MBLA_24BIT sample_stream 2 \<lparr>af_timestamp = 0, af_samples = [0, 0x701]\<rparr>)) e))], t)"
proof -
  let ?g = "\<lparr>af_timestamp = 0, af_samples = [0, 0x701]\<rparr> :: audio_frame_t"
  have p: "paced sample_stream 2 (snd sample_buffer)" using sample_buffer_header(2) by (simp add: paced_def sample_stream_def header_sizes)
  have s: "two_streams sample_stream (snd sample_buffer) 0 sample_stream (snd sample_buffer) 0 sample_talker" "audioSampleType sample_talker = MBLA_24BIT"
    by (simp_all add: two_streams_def sample_talker_def sample_stream_def)
  have f: "\<forall>f \<in> set (sample_frames @ [?g]). frame_ok sample_stream 2 f \<and> frame_ok sample_stream 2 f"
    by (auto simp: sample_frames_def frame_ok_def sample_stream_def less_Suc_eq numeral_2_eq_2)
  have l: "length sample_frames = unat (samples_in_packet sample_stream)" "2 \<le> unat (samples_per_packet_base sample_stream)"
    by (simp_all add: sample_frames_def sample_stream_def samples_in_packet_def)
  from pending_packet_overwritten [OF s(1) p p sample_buffer_header(3,3) l(2,2) f l(1,1), of sample_time] show ?thesis
    unfolding s(2) by auto
qed

end
