(* ===== verification/Pdu_Fields.thy ===== *)
theory Pdu_Fields
  imports Net_Bytes
begin

text \<open>
  Bit fields of packet headers. The macro \<^verbatim>\<open>SET_BITS\<close>, which \<^verbatim>\<open>src/1722/maap/avb_1722_maap_protocol.h\<close> and
  \<^verbatim>\<open>src/1722_1/avb_1722_1_protocol.h\<close> share, replaces bits \<open>lo\<close> to \<open>hi\<close> of a byte; the lemmas say what the masks and
  shifts of the receiver read back.
\<close>

definition with_bits :: "nat \<Rightarrow> nat \<Rightarrow> u32 \<Rightarrow> u8 \<Rightarrow> u8" where
  "with_bits lo hi val x = ucast ((ucast x AND NOT (push_bit lo (push_bit (hi - lo + 1) 1 - 1))) OR push_bit lo val)"

definition SET_BITS :: "nat \<Rightarrow> nat \<Rightarrow> nat \<Rightarrow> u32 \<Rightarrow> bytes \<Rightarrow> bytes option" where
  "SET_BITS p lo hi val b = do {
     x \<leftarrow> rd b p;
     wr b p (with_bits lo hi val x)
   }"

lemma SET_BITS_eq: "p < length b \<Longrightarrow> SET_BITS p lo hi v b = Some (b[p := with_bits lo hi v (b ! p)])"
  by (simp add: SET_BITS_def)

text \<open>The header fields, written by read-modify-write of single bytes.\<close>

lemma bit_with_bits:
  assumes "lo \<le> hi" and "n < 8"
  shows "bit (with_bits lo hi v x) n \<longleftrightarrow> bit x n \<and> \<not> (lo \<le> n \<and> n \<le> hi) \<or> lo \<le> n \<and> bit v (n - lo)"
proof -
  have "(push_bit (hi - lo + 1) 1 - 1 :: u32) = mask (hi - lo + 1)" by (simp add: mask_eq_exp_minus_1 push_bit_eq_mult)
  then show ?thesis using assms by (auto simp: with_bits_def bit_simps)
qed

text \<open>A field in the low bits of a byte is read back by the mask of its width.\<close>

lemma low_field_bits:
  assumes "take_bit (Suc hi) v = v"
  shows "with_bits 0 hi v x AND mask (Suc hi) = ucast v"
proof (rule bit_word_eqI)
  fix n assume n: "n < LENGTH(8)"
  have "bit v n \<Longrightarrow> n < Suc hi" using assms by (metis bit_take_bit_iff)
  then show "bit (with_bits 0 hi v x AND mask (Suc hi)) n = bit (ucast v :: u8) n"
    using n bit_with_bits [of 0 hi n v x] by (auto simp: bit_simps)
qed

lemma subtype_bits: "v < 128 \<Longrightarrow> with_bits 0 6 v x AND 0x7f = ucast v"
  using low_field_bits [of 6 v x] by (simp add: take_bit_eq_mod mod_word_less mask_eq_exp_minus_1)

lemma type_bits: "ty < 16 \<Longrightarrow> with_bits 0 3 ty x AND 0xf = ucast ty"
  using low_field_bits [of 3 ty x] by (simp add: take_bit_eq_mod mod_word_less mask_eq_exp_minus_1)

lemma ucast_small_type:
  assumes "ty < 16"
  shows "ucast (ucast ty :: u8) = (ty :: u32)"
proof -
  have "unat ty < 16" using assms by (simp add: word_less_nat_alt)
  then show ?thesis by (simp add: word_unat_eq_iff unsigned_ucast_eq take_bit_eq_mod unat_mod_distrib)
qed

lemma status_bits:
  assumes "v < 32"
  shows "drop_bit 3 (with_bits 3 7 v x AND 0xf8) = ucast v"
proof -
  have "take_bit 5 v = v" using assms by (simp add: take_bit_eq_mod mod_word_less)
  then have t: "bit v n \<Longrightarrow> n < 5" for n by (metis bit_take_bit_iff)
  have m: "bit (0xf8 :: u8) n \<longleftrightarrow> 3 \<le> n \<and> n < 8" for n
  proof -
    have eq: "(0xf8 :: u8) = push_bit 3 (mask 5)" by (simp add: mask_eq_exp_minus_1 push_bit_eq_mult)
    show ?thesis unfolding eq by (auto simp: bit_simps)
  qed
  show ?thesis
  proof (rule bit_word_eqI)
    fix n assume "n < LENGTH(8)"
    then show "bit (drop_bit 3 (with_bits 3 7 v x AND 0xf8)) n = bit (ucast v :: u8) n"
      using bit_with_bits [of 3 7 "n + 3" v x] m [of "n + 3"] t [of n]
      unfolding bit_drop_bit_eq bit_and_iff bit_unsigned_iff by (cases "n + 3 < 8") (auto simp: ac_simps)
  qed
qed

lemma length_bits_keep_status: "drop_bit 3 (with_bits 0 2 0 x AND 0xf8) = drop_bit 3 (x AND 0xf8)"
proof (rule bit_word_eqI)
  fix n assume "n < LENGTH(8)"
  then show "bit (drop_bit 3 (with_bits 0 2 0 x AND 0xf8)) n = bit (drop_bit 3 (x AND 0xf8)) n"
    using bit_with_bits [of 0 2 "n + 3" 0 x] by (cases "n + 3 < 8") (auto simp: bit_simps ac_simps)
qed

end
