(* ===== verification/Maap.thy ===== *)
theory Maap
  imports Avb_Timer Pdu_Fields
begin

text \<open>
  Multicast address allocation, \<^verbatim>\<open>src/1722/maap/avb_1722_maap.xc\<close> and \<^verbatim>\<open>avb_1722_maap_protocol.h\<close>.

  The static variables of the file are the record \<open>maap\<close>. The random generator belongs to another
  library: its \<open>n\<close>-th number is \<open>random_no s n\<close>. Transmitted frames are collected in \<open>maap_sent\<close>, and the
  calls of the application hook that tells a talker its address in \<open>maap_reserved\<close>. A reference parameter
  that may be null is an \<open>option\<close>. The model has \<^verbatim>\<open>AVB_DEBUG_MAAP\<close> off and \<^verbatim>\<open>AVB_ENABLE_1722_MAAP\<close> on.
\<close>

section \<open>Model\<close>

datatype maap_state_t = MAAP_DISABLED | MAAP_PROBING | MAAP_RESERVED

record maap_address_range =
  base :: bytes
  addr_range :: int
  probe_count :: int
  timeout :: int
  immediately :: bool
  alloc_state :: maap_state_t

record maap = clock_env +
  my_mac_addr :: bytes
  maap_addr :: maap_address_range
  maap_timer :: avb_timer
  timeout_val :: u32
  maap_buf :: bytes
  random_no :: "nat \<Rightarrow> u32"
  random_reads :: nat
  maap_sent :: "bytes list"
  maap_reserved :: "(nat \<times> bytes) list"

definition MAAP_ALLOCATION_POOL_BASE_ADDR :: bytes where
  "MAAP_ALLOCATION_POOL_BASE_ADDR = [0x91, 0xE0, 0xF0, 0x00, 0x00, 0x00]"

definition MAAP_ALLOCATION_POOL_SIZE :: int where "MAAP_ALLOCATION_POOL_SIZE = 0xFE00"

definition maap_dest_addr :: bytes where
  "maap_dest_addr = [0x91, 0xE0, 0xF0, 0x00, 0xFF, 0x00]"

definition MAAP_PROBE_RETRANSMITS :: int where "MAAP_PROBE_RETRANSMITS = 3"

definition MAAP_DATA_LENGTH :: u32 where "MAAP_DATA_LENGTH = 16"

definition MAAP_PROBE :: u32 where "MAAP_PROBE = 1"

definition MAAP_DEFEND :: u32 where "MAAP_DEFEND = 2"

definition MAAP_ANNOUNCE :: u32 where "MAAP_ANNOUNCE = 3"

text \<open>Field offsets: \<open>MAAP_PKT\<close> is the size of the Ethernet header, the others are relative to the packet.\<close>

definition MAAP_PKT :: nat where "MAAP_PKT = 14"

definition REQUEST_START :: nat where "REQUEST_START = 12"

definition REQUESTED_COUNT :: nat where "REQUESTED_COUNT = 18"

definition CONFLICT_START :: nat where "CONFLICT_START = 20"

definition CONFLICT_COUNT :: nat where "CONFLICT_COUNT = 26"

definition SET_MAAP_DATALENGTH :: "nat \<Rightarrow> u32 \<Rightarrow> bytes \<Rightarrow> bytes option" where
  "SET_MAAP_DATALENGTH pkt val b = do {
     b \<leftarrow> SET_BITS (pkt + 2) 0 2 (drop_bit 8 val) b;
     SET_BITS (pkt + 3) 0 7 (val AND 0xff) b
   }"

definition set_count :: "nat \<Rightarrow> int \<Rightarrow> bytes \<Rightarrow> bytes option" where
  "set_count p val b = do {
     b \<leftarrow> wr b p (word_of_int (drop_bit 8 val));
     wr b (p + 1) (word_of_int (val AND 0xff))
   }"

definition get_count :: "nat \<Rightarrow> bytes \<Rightarrow> int option" where
  "get_count p b = do {
     c1 \<leftarrow> rd b (p + 1);
     c0 \<leftarrow> rd b p;
     Some (uint c1 + push_bit 8 (uint c0))
   }"

definition set_addr :: "nat \<Rightarrow> bytes \<Rightarrow> bytes \<Rightarrow> bytes option" where
  "set_addr p addr b = do {
     a \<leftarrow> read_block addr 0 6;
     copy_in b p a
   }"

definition GET_MAAP_SUBTYPE :: "bytes \<Rightarrow> u8 option" where
  "GET_MAAP_SUBTYPE pkt = do { x \<leftarrow> rd pkt 0; Some (x AND 0x7f) }"

definition GET_MAAP_MSG_TYPE :: "bytes \<Rightarrow> u32 option" where
  "GET_MAAP_MSG_TYPE pkt = do { x \<leftarrow> rd pkt 1; Some (ucast (x AND 0x0f)) }"

definition maap_header :: "u32 \<Rightarrow> bytes \<Rightarrow> bytes \<Rightarrow> bytes option" where
  "maap_header message_type mac b = do {
     b \<leftarrow> wr b 12 0x22;
     b \<leftarrow> wr b 13 0xf0;
     b \<leftarrow> SET_BITS MAAP_PKT 7 7 1 b;
     b \<leftarrow> SET_BITS MAAP_PKT 0 6 0x7e b;
     b \<leftarrow> SET_BITS (MAAP_PKT + 1) 4 6 0 b;
     b \<leftarrow> SET_BITS (MAAP_PKT + 2) 3 7 1 b;
     b \<leftarrow> SET_MAAP_DATALENGTH MAAP_PKT MAAP_DATA_LENGTH b;
     b \<leftarrow> SET_BITS (MAAP_PKT + 1) 0 3 message_type b;
     set_addr 6 mac b
   }"

definition maap_body :: "bytes \<Rightarrow> bytes \<Rightarrow> bytes \<Rightarrow> int \<Rightarrow> int \<Rightarrow> bytes \<Rightarrow> bytes option" where
  "maap_body dest request conflict request_count conflict_count b = do {
     b \<leftarrow> set_addr 0 dest b;
     b \<leftarrow> set_addr (MAAP_PKT + REQUEST_START) request b;
     b \<leftarrow> set_addr (MAAP_PKT + CONFLICT_START) conflict b;
     b \<leftarrow> set_count (MAAP_PKT + REQUESTED_COUNT) request_count b;
     set_count (MAAP_PKT + CONFLICT_COUNT) conflict_count b
   }"

definition create_maap_packet ::
    "u32 \<Rightarrow> bytes option \<Rightarrow> bytes option \<Rightarrow> int \<Rightarrow> bytes option \<Rightarrow> int \<Rightarrow> maap \<Rightarrow> (nat \<times> maap) option" where
  "create_maap_packet message_type src_addr request_addr request_count conflict_addr conflict_count s = do {
     b \<leftarrow> maap_header message_type (my_mac_addr s) (maap_buf s);
     b \<leftarrow> (if message_type = MAAP_DEFEND then do {
            src \<leftarrow> src_addr;
            request \<leftarrow> request_addr;
            conflict \<leftarrow> conflict_addr;
            maap_body src request conflict request_count conflict_count b
          } else maap_body maap_dest_addr (base (maap_addr s)) (replicate 6 0) (addr_range (maap_addr s)) 0 b);
     Some (64, s\<lparr>maap_buf := b\<rparr>)
   }"

definition send_packet :: "nat \<Rightarrow> maap \<Rightarrow> maap option" where
  "send_packet nbytes s = do {
     frame \<leftarrow> read_block (maap_buf s) 0 nbytes;
     Some (s\<lparr>maap_sent := maap_sent s @ [frame]\<rparr>)
   }"

definition random_get_random_number :: "maap \<Rightarrow> u32 \<times> maap" where
  "random_get_random_number s = (random_no s (random_reads s), s\<lparr>random_reads := random_reads s + 1\<rparr>)"

definition start_maap_timer :: "maap \<Rightarrow> maap" where
  "start_maap_timer s = (let (t, s) = start_avb_timer (maap_timer s) (timeout_val s) s in s\<lparr>maap_timer := t\<rparr>)"

definition avb_1722_maap_init :: "bytes \<Rightarrow> maap \<Rightarrow> maap option" where
  "avb_1722_maap_init macaddr s = do {
     let s = s\<lparr>maap_addr := (maap_addr s)\<lparr>alloc_state := MAAP_DISABLED, base := MAAP_ALLOCATION_POOL_BASE_ADDR\<rparr>\<rparr>;
     mac \<leftarrow> read_block macaddr 0 6;
     Some (s\<lparr>my_mac_addr := mac, maap_timer := init_avb_timer (maap_timer s) 1\<rparr>)
   }"

text \<open>
  The remainder is that of unsigned 32-bit numbers; a zero divisor traps. The range subtracted is the
  one of the request before.
\<close>

definition avb_1722_maap_request_addresses :: "int \<Rightarrow> bytes option \<Rightarrow> maap \<Rightarrow> maap option" where
  "avb_1722_maap_request_addresses num_addr start_address s = do {
     s \<leftarrow> (case start_address of
            Some start \<Rightarrow> do {
              a \<leftarrow> read_block start 0 6;
              Some (s\<lparr>maap_addr := (maap_addr s)\<lparr>base := a\<rparr>\<rparr>)
            }
          | None \<Rightarrow> do {
              let (r, s) = random_get_random_number s;
              let pool = (word_of_int (MAAP_ALLOCATION_POOL_SIZE - addr_range (maap_addr s)) :: u32);
              if pool = 0 then None
              else do {
                let range_offset = r mod pool;
                b \<leftarrow> wr (base (maap_addr s)) 4 (ucast (drop_bit 8 range_offset AND 0xFF));
                b \<leftarrow> wr b 5 (ucast (range_offset AND 0xFF));
                Some (s\<lparr>maap_addr := (maap_addr s)\<lparr>base := b\<rparr>\<rparr>)
              }
            });
     let s = (if num_addr \<noteq> - 1 then s\<lparr>maap_addr := (maap_addr s)\<lparr>addr_range := num_addr\<rparr>\<rparr> else s);
     let s = s\<lparr>maap_addr := (maap_addr s)\<lparr>alloc_state := MAAP_PROBING, probe_count := MAAP_PROBE_RETRANSMITS, immediately := True\<rparr>\<rparr>;
     b5 \<leftarrow> rd (base (maap_addr s)) 5;
     Some (start_maap_timer (s\<lparr>timeout_val := 500 div 10 + (ucast b5 AND 7)\<rparr>))
   }"

definition avb_1722_maap_rerequest_addresses :: "maap \<Rightarrow> maap option" where
  "avb_1722_maap_rerequest_addresses s =
     (if alloc_state (maap_addr s) \<noteq> MAAP_DISABLED then avb_1722_maap_request_addresses (- 1) None s else Some s)"

definition avb_1722_maap_relinquish_addresses :: "maap \<Rightarrow> maap" where
  "avb_1722_maap_relinquish_addresses s = s\<lparr>maap_addr := (maap_addr s)\<lparr>alloc_state := MAAP_DISABLED\<rparr>\<rparr>"

definition avb_1722_maap_get_base_address :: "bytes \<Rightarrow> maap \<Rightarrow> (int \<times> bytes) option" where
  "avb_1722_maap_get_base_address addr s =
     (if alloc_state (maap_addr s) = MAAP_DISABLED then Some (- 1, addr)
      else do {
        addr \<leftarrow> set_addr 0 (base (maap_addr s)) addr;
        Some (0, addr)
      })"

text \<open>
  The addresses of a reserved range, as they are reported. The announce interval is
  \<^verbatim>\<open>3000/10 + (random % 200/10)\<close> after macro expansion.
\<close>

definition nth_address :: "maap_address_range \<Rightarrow> nat \<Rightarrow> bytes option" where
  "nth_address a i = do {
     hi \<leftarrow> read_block (base a) 0 4;
     b4 \<leftarrow> rd (base a) 4;
     b5 \<leftarrow> rd (base a) 5;
     let lower_two_bytes = push_bit 8 (uint b4) + uint b5 + int i;
     Some (hi @ [word_of_int (drop_bit 8 lower_two_bytes AND 0xFF), word_of_int (lower_two_bytes AND 0xFF)])
   }"

definition report_address :: "nat \<Rightarrow> maap \<Rightarrow> maap option" where
  "report_address i s = do {
     mac_addr \<leftarrow> nth_address (maap_addr s) i;
     Some (s\<lparr>maap_reserved := maap_reserved s @ [(i, mac_addr)]\<rparr>)
   }"

definition set_announce_interval :: "maap \<Rightarrow> maap" where
  "set_announce_interval s = (let (r, s) = random_get_random_number s in s\<lparr>timeout_val := 3000 div 10 + r mod 200 div 10\<rparr>)"

definition maap_timer_due :: "maap \<Rightarrow> bool \<times> maap" where
  "maap_timer_due s =
     (if immediately (maap_addr s) then (True, s)
      else let (b, t, s) = avb_timer_expired (maap_timer s) s in (b, s\<lparr>maap_timer := t\<rparr>))"

definition avb_1722_maap_periodic :: "maap \<Rightarrow> maap option" where
  "avb_1722_maap_periodic s =
     (case alloc_state (maap_addr s) of
        MAAP_DISABLED \<Rightarrow> Some s
      | MAAP_PROBING \<Rightarrow> do {
          let (due, s) = maap_timer_due s;
          if due then do {
            let s = s\<lparr>maap_addr := (maap_addr s)\<lparr>immediately := False\<rparr>\<rparr>;
            (nbytes, s) \<leftarrow> create_maap_packet MAAP_PROBE None None 0 None 0 s;
            s \<leftarrow> send_packet nbytes s;
            s \<leftarrow> (if probe_count (maap_addr s) = 0 then do {
                   let s = s\<lparr>maap_addr := (maap_addr s)\<lparr>alloc_state := MAAP_RESERVED, immediately := True\<rparr>\<rparr>;
                   let s = set_announce_interval s;
                   let s = start_maap_timer (s\<lparr>maap_timer := init_avb_timer (maap_timer s) 10\<rparr>);
                   for_each [0..<nat (addr_range (maap_addr s))] report_address s
                 } else Some (start_maap_timer (s\<lparr>maap_timer := init_avb_timer (maap_timer s) 1\<rparr>)));
            Some (s\<lparr>maap_addr := (maap_addr s)\<lparr>probe_count := probe_count (maap_addr s) - 1\<rparr>\<rparr>)
          } else Some s
        }
      | MAAP_RESERVED \<Rightarrow> do {
          let (due, s) = maap_timer_due s;
          if due then do {
            (nbytes, s) \<leftarrow> create_maap_packet MAAP_ANNOUNCE None None 0 None 0 s;
            s \<leftarrow> send_packet nbytes s;
            if \<not> immediately (maap_addr s) then Some (start_maap_timer (set_announce_interval s))
            else Some (s\<lparr>maap_addr := (maap_addr s)\<lparr>immediately := False\<rparr>\<rparr>)
          } else Some s
        })"

definition mac_addr_to_num_reverse :: "bytes \<Rightarrow> u64 option" where
  "mac_addr_to_num_reverse addr = for_each [0..<6] (\<lambda>i x. do { a \<leftarrow> rd addr i; Some (x + push_bit (i * 8) (ucast a)) }) 0"

definition maap_compare_mac :: "bytes \<Rightarrow> maap \<Rightarrow> bool option" where
  "maap_compare_mac src_addr s = do {
     mine \<leftarrow> mac_addr_to_num_reverse (my_mac_addr s);
     theirs \<leftarrow> mac_addr_to_num_reverse src_addr;
     Some (mine < theirs)
   }"

text \<open>
  \<open>want\<close> says that the two reference parameters for the conflict are not null. The result is whether
  there is a conflict, and for a wanted conflict the count and, in the reserved state, the first
  address. In the third case the variable \<^verbatim>\<open>first_conflict_addr\<close> has no value.
\<close>

definition low_bytes :: "bytes \<Rightarrow> int option" where
  "low_bytes a = do { a5 \<leftarrow> rd a 5; a4 \<leftarrow> rd a 4; Some (uint a5 + push_bit 8 (uint a4)) }"

definition maap_conflict :: "bytes \<Rightarrow> int \<Rightarrow> bool \<Rightarrow> maap \<Rightarrow> (bool \<times> int option \<times> bytes option) option" where
  "maap_conflict remote_addr remote_count want s = do {
     r4 \<leftarrow> read_block remote_addr 0 4;
     b4 \<leftarrow> read_block (base (maap_addr s)) 0 4;
     if r4 \<noteq> b4 then Some (False, None, None)
     else do {
       my_addr_lo \<leftarrow> low_bytes (base (maap_addr s));
       let my_addr_hi = my_addr_lo + addr_range (maap_addr s);
       conflict_lo \<leftarrow> low_bytes remote_addr;
       let conflict_hi = conflict_lo + remote_count;
       let found =
         (if my_addr_lo \<ge> conflict_lo \<and> my_addr_lo < conflict_hi then
            Some (Some my_addr_lo, if my_addr_hi < conflict_hi then my_addr_hi - my_addr_lo else conflict_hi - my_addr_lo)
          else if conflict_lo > my_addr_lo \<and> conflict_lo < my_addr_hi then
            let first = my_addr_lo + (conflict_lo - my_addr_lo) in
            Some (Some first, if conflict_hi \<le> my_addr_hi then remote_count else my_addr_hi - first)
          else if my_addr_lo = conflict_lo \<and> my_addr_hi = conflict_hi then Some (None, remote_count)
          else None);
       case found of
         None \<Rightarrow> Some (False, None, None)
       | Some (first, count) \<Rightarrow>
           if \<not> want then Some (True, None, None)
           else if alloc_state (maap_addr s) = MAAP_RESERVED then do {
             f \<leftarrow> first;
             Some (True, Some count, Some (b4 @ [word_of_int (drop_bit 8 f), word_of_int f]))
           } else Some (True, Some count, None)
     }
   }"

definition avb_1722_maap_process_packet :: "bytes \<Rightarrow> bytes \<Rightarrow> maap \<Rightarrow> maap option" where
  "avb_1722_maap_process_packet buf src_addr s = do {
     subtype \<leftarrow> GET_MAAP_SUBTYPE buf;
     if subtype \<noteq> 0x7e \<or> alloc_state (maap_addr s) = MAAP_DISABLED then Some s
     else do {
       msg_type \<leftarrow> GET_MAAP_MSG_TYPE buf;
       test_addr \<leftarrow> read_block buf REQUEST_START 6;
       test_count \<leftarrow> get_count REQUESTED_COUNT buf;
       if msg_type = MAAP_PROBE then do {
         (conflict, conflict_count, conflict_addr) \<leftarrow> maap_conflict test_addr test_count True s;
         if conflict then
           if alloc_state (maap_addr s) = MAAP_PROBING then do {
             less \<leftarrow> maap_compare_mac src_addr s;
             if less then Some s else avb_1722_maap_request_addresses (- 1) None s
           } else do {
             count \<leftarrow> conflict_count;
             (len, s) \<leftarrow> create_maap_packet MAAP_DEFEND (Some src_addr) (Some test_addr) test_count conflict_addr count s;
             send_packet len s
           }
         else Some s
       } else if msg_type = MAAP_DEFEND \<or> msg_type = MAAP_ANNOUNCE then do {
         test_addr \<leftarrow> (if msg_type = MAAP_DEFEND then read_block buf CONFLICT_START 6 else Some test_addr);
         test_count \<leftarrow> (if msg_type = MAAP_DEFEND then get_count CONFLICT_COUNT buf else Some test_count);
         (conflict, _, _) \<leftarrow> maap_conflict test_addr test_count False s;
         if conflict then do {
           less \<leftarrow> (if alloc_state (maap_addr s) = MAAP_RESERVED then maap_compare_mac src_addr s else Some False);
           if less then Some s else avb_1722_maap_request_addresses (- 1) None s
         } else Some s
       } else Some s
     }
   }"

section \<open>Conflicts\<close>

text \<open>The low two bytes of an address, and the numbers of the addresses of a range.\<close>

definition low16 :: "bytes \<Rightarrow> int" where
  "low16 a = uint (a ! 5) + 256 * uint (a ! 4)"

definition addresses :: "bytes \<Rightarrow> int \<Rightarrow> int set" where
  "addresses a n = {low16 a ..< low16 a + n}"

lemma low_bytes_eq [simp]: "length a = 6 \<Longrightarrow> low_bytes a = Some (low16 a)"
  by (simp add: low_bytes_def low16_def push_bit_eq_mult)

lemma low16_bounds: "0 \<le> low16 a" "low16 a < 65536"
  using uint_lt2p [of "a ! 5"] uint_lt2p [of "a ! 4"] uint_ge_0 [of "a ! 5"] uint_ge_0 [of "a ! 4"]
  by (simp_all add: low16_def)

lemma low16_address:
  assumes "0 \<le> f" and "f < 65536" and "length h = 4"
  shows "low16 (h @ [word_of_int (f div 256), word_of_int f]) = f"
proof -
  have "uint (word_of_int (f div 256) :: u8) = f div 256" "uint (word_of_int f :: u8) = f mod 256"
    using assms by (simp_all add: uint_word_of_int)
  then show ?thesis using assms(3) by (simp add: low16_def nth_append)
qed

definition maap_ok :: "maap \<Rightarrow> bool" where
  "maap_ok s \<longleftrightarrow> length (maap_buf s) = 64 \<and> length (my_mac_addr s) = 6 \<and> length (base (maap_addr s)) = 6
     \<and> 0 < addr_range (maap_addr s) \<and> addr_range (maap_addr s) < MAAP_ALLOCATION_POOL_SIZE"

text \<open>The first address two ranges share and the end of what they share.\<close>

definition shared_lo :: "bytes \<Rightarrow> maap \<Rightarrow> int" where
  "shared_lo a s = max (low16 a) (low16 (base (maap_addr s)))"

definition shared_hi :: "bytes \<Rightarrow> int \<Rightarrow> maap \<Rightarrow> int" where
  "shared_hi a n s = min (low16 a + n) (low16 (base (maap_addr s)) + addr_range (maap_addr s))"

definition clash :: "bytes \<Rightarrow> int \<Rightarrow> maap \<Rightarrow> bool" where
  "clash a n s \<longleftrightarrow> take 4 a = take 4 (base (maap_addr s)) \<and> shared_lo a s < shared_hi a n s"

definition shared_start :: "bytes \<Rightarrow> maap \<Rightarrow> bytes" where
  "shared_start a s = take 4 a @ [word_of_int (shared_lo a s div 256), word_of_int (shared_lo a s)]"

lemma maap_conflict_eq:
  assumes "maap_ok s" and "length a = 6" and "0 < n"
  shows "maap_conflict a n want s =
    (if \<not> clash a n s then Some (False, None, None) else if \<not> want then Some (True, None, None)
     else Some (True, Some (shared_hi a n s - shared_lo a s),
                if alloc_state (maap_addr s) = MAAP_RESERVED then Some (shared_start a s) else None))"
proof -
  let ?b = "base (maap_addr s)" and ?r = "addr_range (maap_addr s)"
  have l: "length ?b = 6" "0 < ?r" using assms(1) by (simp_all add: maap_ok_def)
  show ?thesis
  proof (cases "take 4 a = take 4 ?b")
    case False
    then show ?thesis using l assms by (simp add: maap_conflict_def read_block_def clash_def)
  next
    case True
    consider "low16 a \<le> low16 ?b" "low16 ?b < low16 a + n" | "low16 ?b < low16 a" "low16 a < low16 ?b + ?r"
      | "low16 ?b + ?r \<le> low16 a" | "low16 a + n \<le> low16 ?b" by linarith
    then show ?thesis using l assms True
      by cases (auto simp: maap_conflict_def read_block_def clash_def shared_start_def shared_lo_def shared_hi_def
        drop_bit_eq_div Let_def)
  qed
qed

lemma shared_start_addresses:
  assumes "length a = 6"
  shows "length (shared_start a s) = 6" and "take 4 (shared_start a s) = take 4 a"
    and "low16 (shared_start a s) = shared_lo a s"
  using assms low16_address [of "shared_lo a s" "take 4 a"] low16_bounds
  by (simp_all add: shared_start_def shared_lo_def max_def)


text \<open>A station with the given address, range and state.\<close>

definition station :: "u8 \<Rightarrow> bytes \<Rightarrow> int \<Rightarrow> maap_state_t \<Rightarrow> (nat \<Rightarrow> u32) \<Rightarrow> maap" where
  "station mac a n st time = \<lparr>clk = time, clk_reads = 0, my_mac_addr = [0, 0, 0, 0, 0, mac],
     maap_addr = \<lparr>base = a, addr_range = n, probe_count = MAAP_PROBE_RETRANSMITS, timeout = 0, immediately = True, alloc_state = st\<rparr>,
     maap_timer = \<lparr>tmr_timeout = 0, tmr_period = 0, tmr_active = 0, tmr_multiplier = 1\<rparr>, timeout_val = 0,
     maap_buf = replicate 64 0, random_no = (\<lambda>_. 7), random_reads = 0, maap_sent = [], maap_reserved = []\<rparr>"

lemma station_ok: "length a = 6 \<Longrightarrow> 0 < n \<Longrightarrow> n < MAAP_ALLOCATION_POOL_SIZE \<Longrightarrow> maap_ok (station mac a n st time)"
  by (simp add: station_def maap_ok_def)


section \<open>Packets\<close>

text \<open>What a receiver reads from a packet.\<close>

definition maap_pdu :: "bytes \<Rightarrow> u32 \<Rightarrow> bytes \<Rightarrow> int \<Rightarrow> bytes \<Rightarrow> int \<Rightarrow> bool" where
  "maap_pdu pkt ty req reqn con conn \<longleftrightarrow> GET_MAAP_SUBTYPE pkt = Some 0x7e \<and> GET_MAAP_MSG_TYPE pkt = Some ty
     \<and> read_block pkt REQUEST_START 6 = Some req \<and> get_count REQUESTED_COUNT pkt = Some reqn
     \<and> read_block pkt CONFLICT_START 6 = Some con \<and> get_count CONFLICT_COUNT pkt = Some conn"

lemma set_addr_eq: "length a = 6 \<Longrightarrow> p + 6 \<le> length b \<Longrightarrow> set_addr p a b = Some (overlay p a b)"
  by (simp add: set_addr_def read_block_def copy_in_overlay)

lemma low_byte: "(word_of_int (v AND 0xff) :: u8) = word_of_int v"
proof -
  have "v AND 0xff = take_bit 8 v" by (simp add: take_bit_eq_mask mask_eq_exp_minus_1)
  moreover have "(word_of_int (take_bit 8 v) :: u8) = word_of_int v" by transfer simp
  ultimately show ?thesis by simp
qed

lemma set_count_eq:
  "p + 1 < length b \<Longrightarrow> set_count p v b = Some (b[p := word_of_int (drop_bit 8 v), Suc p := word_of_int v])"
  by (simp add: set_count_def low_byte)

lemma count_bytes: "0 \<le> v \<Longrightarrow> v < 65536 \<Longrightarrow> uint (word_of_int v :: u8) + push_bit 8 (uint (word_of_int (drop_bit 8 v) :: u8)) = v"
  by (simp add: uint_word_of_int push_bit_eq_mult drop_bit_eq_div)

lemma packet_body:
  assumes "length b = 64" and "length d = 6" and "length req = 6" and "length con = 6"
    and "0 \<le> n" "n < 65536" and "0 \<le> m" "m < 65536" and "b ! 14 AND 0x7f = 0x7e" and "ucast (b ! 15 AND 0xf) = ty"
  shows "\<exists>c. maap_body d req con n m b = Some c \<and> length c = 64 \<and> maap_pdu (drop 14 c) ty req n con m"
proof -
  let ?b = "overlay 34 con (overlay 26 req (overlay 0 d b))"
  let ?c = "?b[32 := word_of_int (drop_bit 8 n), 33 := word_of_int n, 40 := word_of_int (drop_bit 8 m), 41 := word_of_int m]"
  have "maap_pdu (drop 14 ?c) ty req n con m"
    using assms
    by (simp add: maap_pdu_def GET_MAAP_SUBTYPE_def GET_MAAP_MSG_TYPE_def get_count_def read_block_def REQUEST_START_def
        REQUESTED_COUNT_def CONFLICT_START_def CONFLICT_COUNT_def wire_simps count_bytes)
  moreover have "length ?c = 64" using assms by simp
  ultimately show ?thesis using assms
    by (simp add: maap_body_def set_addr_eq set_count_eq MAAP_PKT_def REQUEST_START_def REQUESTED_COUNT_def CONFLICT_START_def CONFLICT_COUNT_def)
qed

lemma packet_header:
  assumes "length b = 64" and "length mac = 6" and "ty < 16"
  shows "\<exists>c. maap_header ty mac b = Some c \<and> length c = 64 \<and> c ! 14 AND 0x7f = 0x7e \<and> ucast (c ! 15 AND 0xf) = ty"
  using assms
  by (simp add: maap_header_def SET_BITS_eq SET_MAAP_DATALENGTH_def set_addr_eq MAAP_PKT_def wire_simps subtype_bits type_bits ucast_small_type)

lemma create_packet:
  assumes "maap_ok s" and "ty < 16" and "ty \<noteq> MAAP_DEFEND"
  shows "\<exists>b. create_maap_packet ty src req n con m s = Some (64, s\<lparr>maap_buf := b\<rparr>) \<and> length b = 64
       \<and> maap_pdu (drop 14 b) ty (base (maap_addr s)) (addr_range (maap_addr s)) (replicate 6 0) 0"
proof -
  note ok = assms(1) [unfolded maap_ok_def MAAP_ALLOCATION_POOL_SIZE_def]
  obtain h where h: "maap_header ty (my_mac_addr s) (maap_buf s) = Some h" "length h = 64" "h ! 14 AND 0x7f = 0x7e"
    "ucast (h ! 15 AND 0xf) = ty" using packet_header [of "maap_buf s" "my_mac_addr s" ty] ok assms(2) by blast
  obtain b where "maap_body maap_dest_addr (base (maap_addr s)) (replicate 6 0) (addr_range (maap_addr s)) 0 h = Some b"
    "length b = 64" "maap_pdu (drop 14 b) ty (base (maap_addr s)) (addr_range (maap_addr s)) (replicate 6 0) 0"
    using packet_body [OF h(2) _ _ _ _ _ _ _ h(3,4), of maap_dest_addr "base (maap_addr s)" "replicate 6 0" "addr_range (maap_addr s)" 0] ok
    by (auto simp: maap_dest_addr_def)
  then show ?thesis using h(1) assms(3) by (intro exI [of _ b]) (simp add: create_maap_packet_def)
qed

lemma create_defend:
  assumes "maap_ok s" and "length d = 6" and "length r = 6" and "length c = 6" and "0 \<le> n" "n < 65536" and "0 \<le> m" "m < 65536"
  shows "\<exists>b. create_maap_packet MAAP_DEFEND (Some d) (Some r) n (Some c) m s = Some (64, s\<lparr>maap_buf := b\<rparr>) \<and> length b = 64
       \<and> maap_pdu (drop 14 b) MAAP_DEFEND r n c m"
proof -
  have "MAAP_DEFEND < 16" by (simp add: MAAP_DEFEND_def)
  then obtain h where h: "maap_header MAAP_DEFEND (my_mac_addr s) (maap_buf s) = Some h" "length h = 64" "h ! 14 AND 0x7f = 0x7e"
    "ucast (h ! 15 AND 0xf) = MAAP_DEFEND" using packet_header [of "maap_buf s" "my_mac_addr s" MAAP_DEFEND] assms(1) by (auto simp: maap_ok_def)
  show ?thesis using packet_body [OF h(2) assms(2-8) h(3,4)] h(1) by (auto simp: create_maap_packet_def)
qed

section \<open>Choosing a range\<close>

text \<open>The number a request draws, and the address made of it.\<close>

definition drawn :: "maap \<Rightarrow> int" where
  "drawn s = uint (random_no s (random_reads s)) mod (MAAP_ALLOCATION_POOL_SIZE - addr_range (maap_addr s))"

lemma start_maap_timer_frame [simp]:
  "maap_addr (start_maap_timer s) = maap_addr s" "maap_sent (start_maap_timer s) = maap_sent s"
  "maap_reserved (start_maap_timer s) = maap_reserved s" "my_mac_addr (start_maap_timer s) = my_mac_addr s"
  "maap_buf (start_maap_timer s) = maap_buf s" "timeout_val (start_maap_timer s) = timeout_val s"
  "clk (start_maap_timer s) = clk s" "clk_reads (start_maap_timer s) = clk_reads s + 1"
  by (simp_all add: start_maap_timer_def start_avb_timer_def get_local_time_def)

lemma rerequest_spec:
  assumes "maap_ok s"
  shows "\<exists>u. avb_1722_maap_request_addresses (- 1) None s = Some u \<and> maap_ok u
     \<and> maap_addr u = (maap_addr s)\<lparr>base := base (maap_addr u), alloc_state := MAAP_PROBING,
          probe_count := MAAP_PROBE_RETRANSMITS, immediately := True\<rparr>
     \<and> take 4 (base (maap_addr u)) = take 4 (base (maap_addr s)) \<and> low16 (base (maap_addr u)) = drawn s
     \<and> maap_sent u = maap_sent s \<and> maap_reserved u = maap_reserved s"
proof -
  note ok = assms [unfolded maap_ok_def]
  define p where "p = MAAP_ALLOCATION_POOL_SIZE - addr_range (maap_addr s)"
  define r where "r = random_no s (random_reads s)"
  have p: "0 < p" "p < 65536" using ok by (simp_all add: p_def MAAP_ALLOCATION_POOL_SIZE_def)
  then have u: "uint (word_of_int p :: u32) = p" by (simp add: uint_word_of_int)
  define o1 where "o1 = r mod word_of_int p"
  have o: "uint o1 = drawn s" using u by (simp add: o1_def drawn_def uint_mod p_def [symmetric] r_def [symmetric])
  have ob: "0 \<le> uint o1" "uint o1 < 65536" using p u by (simp_all add: o1_def uint_mod) (smt (verit) pos_mod_bound)
  have ne: "(word_of_int p :: u32) \<noteq> 0" using p u by auto
  let ?b = "(base (maap_addr s))[4 := ucast (drop_bit 8 o1 AND 0xFF), 5 := ucast (o1 AND 0xFF)]"
  have "uint o1 div 256 mod 256 = uint o1 div 256" using ob by (intro mod_pos_pos_trivial) linarith+
  then have b: "low16 ?b = uint o1" using ok
    by (simp add: low16_def unsigned_ucast_eq unsigned_drop_bit_eq take_bit_eq_mod [where 'a = int] drop_bit_eq_div [where 'a = int])
  show ?thesis
    using ok ne b o
    by (simp add: avb_1722_maap_request_addresses_def random_get_random_number_def p_def [symmetric] r_def [symmetric] o1_def [symmetric] Let_def
        maap_ok_def del: of_int_diff)
qed

text \<open>C40: a new choice of addresses stays inside the pool. Drawing addresses again after a conflict keeps the number of
  addresses and the upper four bytes, restarts probing with a full number of probes to send, and the whole range
  lies below the upper end of the pool, whatever the random number.\<close>

theorem rerequest_stays_in_pool:
  assumes "maap_ok s" and "alloc_state (maap_addr s) \<noteq> MAAP_DISABLED"
  shows "\<exists>u. avb_1722_maap_rerequest_addresses s = Some u \<and> maap_ok u
     \<and> addr_range (maap_addr u) = addr_range (maap_addr s) \<and> take 4 (base (maap_addr u)) = take 4 (base (maap_addr s))
     \<and> addresses (base (maap_addr u)) (addr_range (maap_addr u)) \<subseteq> {0..<MAAP_ALLOCATION_POOL_SIZE}
     \<and> alloc_state (maap_addr u) = MAAP_PROBING \<and> probe_count (maap_addr u) = MAAP_PROBE_RETRANSMITS"
proof -
  obtain u where u: "avb_1722_maap_request_addresses (- 1) None s = Some u" "maap_ok u"
    "maap_addr u = (maap_addr s)\<lparr>base := base (maap_addr u), alloc_state := MAAP_PROBING,
       probe_count := MAAP_PROBE_RETRANSMITS, immediately := True\<rparr>"
    "take 4 (base (maap_addr u)) = take 4 (base (maap_addr s))" "low16 (base (maap_addr u)) = drawn s"
    using rerequest_spec [OF assms(1)] by blast
  have f: "addr_range (maap_addr u) = addr_range (maap_addr s)" "alloc_state (maap_addr u) = MAAP_PROBING"
    "probe_count (maap_addr u) = MAAP_PROBE_RETRANSMITS" by (subst u(3), simp)+
  have "0 < MAAP_ALLOCATION_POOL_SIZE - addr_range (maap_addr s)" using assms(1) by (simp add: maap_ok_def)
  then have "0 \<le> drawn s" "drawn s < MAAP_ALLOCATION_POOL_SIZE - addr_range (maap_addr s)"
    by (simp_all add: drawn_def)
  with u f assms(2) show ?thesis by (auto simp: avb_1722_maap_rerequest_addresses_def addresses_def)
qed

theorem rerequest_stays_in_pool_witness:
  "\<exists>u. avb_1722_maap_rerequest_addresses (station 1 MAAP_ALLOCATION_POOL_BASE_ADDR 8 MAAP_RESERVED (\<lambda>n. 0)) = Some u \<and> maap_ok u"
  using rerequest_stays_in_pool [OF station_ok, of MAAP_ALLOCATION_POOL_BASE_ADDR 8 1 MAAP_RESERVED "\<lambda>n. 0"]
  by (auto simp: MAAP_ALLOCATION_POOL_BASE_ADDR_def MAAP_ALLOCATION_POOL_SIZE_def station_def)

text \<open>The first request does not keep to the pool. It draws the address before it stores the number of addresses, so with
  the range still zero from start-up a request for eight addresses can end seven addresses above the pool.\<close>

theorem first_request_can_leave_pool:
  "\<exists>s u. avb_1722_maap_init [0, 0, 0, 0, 0, 1] (station 0 [] 0 MAAP_DISABLED (\<lambda>n. 0)) = Some s
     \<and> avb_1722_maap_request_addresses 8 None (s\<lparr>random_no := (\<lambda>n. 0xFDFF)\<rparr>) = Some u
     \<and> \<not> addresses (base (maap_addr u)) (addr_range (maap_addr u)) \<subseteq> {0..<MAAP_ALLOCATION_POOL_SIZE}"
proof -
  have "(case avb_1722_maap_init [0, 0, 0, 0, 0, 1] (station 0 [] 0 MAAP_DISABLED (\<lambda>n. 0)) of None \<Rightarrow> False
    | Some s \<Rightarrow> (case avb_1722_maap_request_addresses 8 None (s\<lparr>random_no := (\<lambda>n. 0xFDFF)\<rparr>) of None \<Rightarrow> False
       | Some u \<Rightarrow> low16 (base (maap_addr u)) = 0xFDFF \<and> addr_range (maap_addr u) = 8))"
    by code_simp
  then show ?thesis
    by (fastforce simp: addresses_def MAAP_ALLOCATION_POOL_SIZE_def split: option.splits)
qed

section \<open>Probing\<close>

lemma send_packet_eq: "length (maap_buf s) = 64 \<Longrightarrow> send_packet 64 s = Some (s\<lparr>maap_sent := maap_sent s @ [maap_buf s]\<rparr>)"
  by (simp add: send_packet_def read_block_def)

lemma maap_timer_due_frame:
  assumes "maap_timer_due s = (d, t)"
  shows "maap_addr t = maap_addr s" "maap_sent t = maap_sent s" "maap_reserved t = maap_reserved s" "my_mac_addr t = my_mac_addr s"
    "maap_buf t = maap_buf s" "timeout_val t = timeout_val s" "clk t = clk s"
  using assms
  by (auto simp: maap_timer_due_def avb_timer_expired_def get_local_time_def Let_def split: if_splits)

lemma periodic_probe:
  assumes "maap_ok s" and "alloc_state (maap_addr s) = MAAP_PROBING" and "maap_timer_due s = (True, t)" and "probe_count (maap_addr s) \<noteq> 0"
  shows "\<exists>p u. avb_1722_maap_periodic s = Some u \<and> maap_ok u \<and> maap_sent u = maap_sent s @ [p]
     \<and> maap_pdu (drop 14 p) MAAP_PROBE (base (maap_addr s)) (addr_range (maap_addr s)) (replicate 6 0) 0
     \<and> maap_addr u = (maap_addr s)\<lparr>immediately := False, probe_count := probe_count (maap_addr s) - 1\<rparr>
     \<and> maap_reserved u = maap_reserved s \<and> my_mac_addr u = my_mac_addr s \<and> timeout_val u = timeout_val s
     \<and> clk u = clk s \<and> clk_reads u = clk_reads t + 1
     \<and> maap_timer u = fst (start_avb_timer (init_avb_timer (maap_timer t) 1) (timeout_val s) t)"
proof -
  note f = maap_timer_due_frame [OF assms(3)]
  let ?t = "t\<lparr>maap_addr := (maap_addr s)\<lparr>immediately := False\<rparr>\<rparr>"
  have "maap_ok ?t" using assms(1) f by (simp add: maap_ok_def)
  moreover have "MAAP_PROBE < 16" "MAAP_PROBE \<noteq> MAAP_DEFEND" by (simp_all add: MAAP_PROBE_def MAAP_DEFEND_def)
  ultimately obtain b where "create_maap_packet MAAP_PROBE None None 0 None 0 ?t = Some (64, ?t\<lparr>maap_buf := b\<rparr>)" "length b = 64"
    "maap_pdu (drop 14 b) MAAP_PROBE (base (maap_addr s)) (addr_range (maap_addr s)) (replicate 6 0) 0"
    using create_packet [of ?t MAAP_PROBE None None 0 None 0] by auto
  then show ?thesis using assms f
    by (auto simp: avb_1722_maap_periodic_def send_packet_eq start_maap_timer_def start_avb_timer_def get_local_time_def maap_ok_def Let_def)
qed

lemma defend_probe:
  assumes "maap_ok a" and "alloc_state (maap_addr a) = MAAP_RESERVED" and "maap_pdu p MAAP_PROBE r n c m" and "length r = 6"
    and "0 < n" and "n < 65536" and "clash r n a" and "length mac = 6"
  shows "\<exists>u d. avb_1722_maap_process_packet p mac a = Some u \<and> maap_sent u = maap_sent a @ [d] \<and> maap_addr u = maap_addr a
     \<and> maap_pdu (drop 14 d) MAAP_DEFEND r n (shared_start r a) (shared_hi r n a - shared_lo r a)"
proof -
  have h: "0 \<le> shared_hi r n a - shared_lo r a" "shared_hi r n a - shared_lo r a < 65536"
    using assms(1,5-7) by (auto simp: clash_def shared_lo_def shared_hi_def min_def max_def)
  obtain b where "create_maap_packet MAAP_DEFEND (Some mac) (Some r) n (Some (shared_start r a)) (shared_hi r n a - shared_lo r a) a
      = Some (64, a\<lparr>maap_buf := b\<rparr>)" "length b = 64"
    "maap_pdu (drop 14 b) MAAP_DEFEND r n (shared_start r a) (shared_hi r n a - shared_lo r a)"
    using create_defend [OF assms(1,8,4) shared_start_addresses(1) [OF assms(4)] _ assms(6) h] assms(5) by auto
  then show ?thesis using assms
    by (auto simp: avb_1722_maap_process_packet_def maap_pdu_def maap_conflict_eq send_packet_eq)
qed

lemma yield_to_defend:
  assumes "maap_ok b" and "alloc_state (maap_addr b) = MAAP_PROBING" and "maap_pdu d MAAP_DEFEND r n c m" and "length c = 6" and "0 < m"
    and "clash c m b"
  shows "avb_1722_maap_process_packet d mac b = avb_1722_maap_request_addresses (- 1) None b"
  using assms by (simp add: avb_1722_maap_process_packet_def maap_pdu_def maap_conflict_eq MAAP_DEFEND_def MAAP_PROBE_def)

lemma shared_clash:
  assumes "clash (base (maap_addr b)) (addr_range (maap_addr b)) a" and "length (base (maap_addr b)) = 6"
    and "maap_addr b' = (maap_addr b)\<lparr>immediately := i, probe_count := k\<rparr>"
  shows "clash (shared_start (base (maap_addr b)) a)
     (shared_hi (base (maap_addr b)) (addr_range (maap_addr b)) a - shared_lo (base (maap_addr b)) a) b'"
  using assms shared_start_addresses [OF assms(2), of a]
  by (auto simp: clash_def shared_lo_def [of "shared_start _ _"] shared_hi_def [of "shared_start _ _"])
    (auto simp: shared_lo_def shared_hi_def min_def max_def split: if_splits)



section \<open>From a request to a reservation\<close>

text \<open>Calling \<open>avb_1722_maap_periodic\<close> \<open>k\<close> times.\<close>

fun maap_polls :: "nat \<Rightarrow> maap \<Rightarrow> maap option" where
  "maap_polls 0 s = Some s"
| "maap_polls (Suc k) s = do { s \<leftarrow> avb_1722_maap_periodic s; maap_polls k s }"

lemma maap_polls_add: "maap_polls (j + k) s = do { s \<leftarrow> maap_polls j s; maap_polls k s }"
  by (induction j arbitrary: s) (simp_all cong: Option.bind_cong)

text \<open>Real time: every read of the reference timer is the time \<open>tt\<close> modulo \<open>2 ^ 32\<close>, reads are at most \<open>2 ^ 30\<close> ticks
  apart and time passes every bound.\<close>

definition clock_runs :: "(nat \<Rightarrow> nat) \<Rightarrow> maap \<Rightarrow> bool" where
  "clock_runs tt s \<longleftrightarrow> (\<forall>n. clk s n = of_nat (tt n)) \<and> (\<forall>n. tt n \<le> tt (Suc n)) \<and> (\<forall>n. tt (Suc n) < tt n + 1073741824)
     \<and> (\<forall>t. \<exists>n. t < tt n)"

text \<open>A timer that was started with period \<open>p\<close> when the time was \<open>l\<close>, to expire once.\<close>

definition waiting :: "nat \<Rightarrow> nat \<Rightarrow> maap \<Rightarrow> bool" where
  "waiting l p s \<longleftrightarrow> \<not> immediately (maap_addr s) \<and> tmr_active (maap_timer s) = 1 \<and> tmr_timeout (maap_timer s) = of_nat (l + p)"

lemma due_after:
  assumes "clock_runs tt s" and "waiting l p s" and "l \<le> tt (clk_reads s)" and "tt (clk_reads s) < l + 2147483648" and "p < 1073741824"
  shows "if l + p < tt (clk_reads s) then fst (maap_timer_due s)
    else maap_timer_due s = (False, s\<lparr>clk_reads := clk_reads s + 1\<rparr>)"
proof -
  have "timeafter (of_nat (tt (clk_reads s))) (of_nat (l + p)) \<longleftrightarrow> l + p < tt (clk_reads s)"
    by (rule timeafter_of_nat) (use assms(3-5) in linarith)+
  then show ?thesis using assms(1,2)
    by (auto simp: waiting_def clock_runs_def maap_timer_due_def avb_timer_expired_def get_local_time_def Let_def)
qed

lemma wait_until_due:
  assumes "clock_runs tt s" and "waiting l p s" and "alloc_state (maap_addr s) = MAAP_PROBING" and "p < 1073741824"
    and "clk_reads s \<le> N" and "l + p < tt N" and "\<And>n. clk_reads s \<le> n \<Longrightarrow> n < N \<Longrightarrow> tt n \<le> l + p"
    and "l \<le> tt (clk_reads s)" and "tt (clk_reads s) < l + p + 1073741824"
  shows "\<exists>k. maap_polls k s = Some (s\<lparr>clk_reads := N\<rparr>) \<and> fst (maap_timer_due (s\<lparr>clk_reads := N\<rparr>))"
  using assms
proof (induction "N - clk_reads s" arbitrary: s)
  case 0
  then have N: "clk_reads s = N" by simp
  have "fst (maap_timer_due s)" using due_after [OF 0(2,3)] 0 N by simp
  moreover have "s\<lparr>clk_reads := N\<rparr> = s" using N by (cases s) simp
  ultimately have "maap_polls 0 s = Some (s\<lparr>clk_reads := N\<rparr>) \<and> fst (maap_timer_due (s\<lparr>clk_reads := N\<rparr>))" by simp
  then show ?case by blast
next
  case (Suc d)
  let ?s = "s\<lparr>clk_reads := clk_reads s + 1\<rparr>"
  have le: "tt (clk_reads s) \<le> l + p" using Suc.prems(7) [of "clk_reads s"] Suc.hyps(2) by simp
  then have "maap_timer_due s = (False, ?s)" using due_after [OF Suc.prems(1,2)] Suc.prems by simp
  then have "avb_1722_maap_periodic s = Some ?s" using Suc.prems(3) by (simp add: avb_1722_maap_periodic_def)
  moreover have "tt (clk_reads s) \<le> tt (Suc (clk_reads s))" "tt (Suc (clk_reads s)) < tt (clk_reads s) + 1073741824"
    using Suc.prems(1) by (simp_all add: clock_runs_def)
  then have n: "l \<le> tt (Suc (clk_reads s))" "tt (Suc (clk_reads s)) < l + p + 1073741824" using le Suc.prems(8) by linarith+
  have "\<exists>k. maap_polls k ?s = Some (?s\<lparr>clk_reads := N\<rparr>) \<and> fst (maap_timer_due (?s\<lparr>clk_reads := N\<rparr>))"
    by (intro Suc.hyps(1)) (use Suc.hyps(2) Suc.prems n in \<open>auto simp: clock_runs_def waiting_def\<close>)
  then obtain k where "maap_polls k ?s = Some (s\<lparr>clk_reads := N\<rparr>)" "fst (maap_timer_due (s\<lparr>clk_reads := N\<rparr>))" by auto
  ultimately have "maap_polls (Suc k) s = Some (s\<lparr>clk_reads := N\<rparr>) \<and> fst (maap_timer_due (s\<lparr>clk_reads := N\<rparr>))" by simp
  then show ?case by blast
qed

text \<open>One probe after another: from the moment a probe has been sent the next one is due after finitely many polls.\<close>

lemma probe_again:
  assumes "maap_ok s" and "clock_runs tt s" and "alloc_state (maap_addr s) = MAAP_PROBING" and "p < 1073741824"
    and "waiting (tt (clk_reads s - 1)) p s" and "0 < clk_reads s"
  shows "\<exists>k N. clk_reads s \<le> N \<and> maap_polls k s = Some (s\<lparr>clk_reads := N\<rparr>) \<and> fst (maap_timer_due (s\<lparr>clk_reads := N\<rparr>))"
proof -
  let ?l = "tt (clk_reads s - 1)"
  have mono: "m \<le> n \<Longrightarrow> tt m \<le> tt n" for m n using assms(2) lift_Suc_mono_le [of tt] by (simp add: clock_runs_def)
  have step: "?l \<le> tt (clk_reads s)" "tt (clk_reads s) < ?l + 1073741824"
    using assms(2,6) Suc_pred' [of "clk_reads s"] unfolding clock_runs_def by metis+
  have "\<exists>M. ?l + p < tt M" using assms(2) by (simp add: clock_runs_def)
  then obtain M where M: "?l + p < tt M" ..
  define N where "N = (LEAST n. ?l + p < tt n)"
  have N: "?l + p < tt N" "\<And>n. n < N \<Longrightarrow> tt n \<le> ?l + p"
    using LeastI [of "\<lambda>n. ?l + p < tt n", OF M] not_less_Least [of _ "\<lambda>n. ?l + p < tt n"] by (auto simp: N_def not_less)
  have "clk_reads s \<le> N" using N(1) mono [of N "clk_reads s - 1"] assms(6) by (cases "N \<le> clk_reads s - 1") auto
  then show ?thesis using wait_until_due [OF assms(2,5,3,4) _ N(1) _ step(1)] N(2) step(2) by fastforce
qed

text \<open>The \<open>i\<close>-th address of the own range.\<close>

definition own_address :: "maap_address_range \<Rightarrow> nat \<Rightarrow> bytes" where
  "own_address a i = take 4 (base a) @ [word_of_int ((low16 (base a) + int i) div 256), word_of_int (low16 (base a) + int i)]"

lemma nth_address_eq: "length (base a) = 6 \<Longrightarrow> nth_address a i = Some (own_address a i)"
  by (simp add: nth_address_def own_address_def read_block_def low_byte Let_def low16_def push_bit_eq_mult drop_bit_eq_div algebra_simps)

lemma report_addresses:
  assumes "length (base (maap_addr s)) = 6"
  shows "for_each is report_address s = Some (s\<lparr>maap_reserved := maap_reserved s @ map (\<lambda>i. (i, own_address (maap_addr s) i)) is\<rparr>)"
  using assms by (induction "is" arbitrary: s) (simp_all add: report_address_def nth_address_eq)

lemma periodic_reserve:
  assumes "maap_ok s" and "alloc_state (maap_addr s) = MAAP_PROBING" and "fst (maap_timer_due s)" and "probe_count (maap_addr s) = 0"
  shows "\<exists>p u. avb_1722_maap_periodic s = Some u \<and> maap_ok u \<and> maap_sent u = maap_sent s @ [p]
     \<and> maap_pdu (drop 14 p) MAAP_PROBE (base (maap_addr s)) (addr_range (maap_addr s)) (replicate 6 0) 0
     \<and> maap_addr u = (maap_addr s)\<lparr>immediately := True, probe_count := - 1, alloc_state := MAAP_RESERVED\<rparr>
     \<and> maap_reserved u = maap_reserved s @ map (\<lambda>i. (i, own_address (maap_addr s) i)) [0..<nat (addr_range (maap_addr s))]"
proof -
  obtain t where t: "maap_timer_due s = (True, t)" using assms(3) by (metis prod.collapse)
  note f = maap_timer_due_frame [OF t]
  let ?t = "t\<lparr>maap_addr := (maap_addr s)\<lparr>immediately := False\<rparr>\<rparr>"
  have "maap_ok ?t" using assms(1) f by (simp add: maap_ok_def)
  moreover have "MAAP_PROBE < 16" "MAAP_PROBE \<noteq> MAAP_DEFEND" by (simp_all add: MAAP_PROBE_def MAAP_DEFEND_def)
  ultimately obtain b where "create_maap_packet MAAP_PROBE None None 0 None 0 ?t = Some (64, ?t\<lparr>maap_buf := b\<rparr>)" "length b = 64"
    "maap_pdu (drop 14 b) MAAP_PROBE (base (maap_addr s)) (addr_range (maap_addr s)) (replicate 6 0) 0"
    using create_packet [of ?t MAAP_PROBE None None 0 None 0] by auto
  moreover have "own_address ((maap_addr s)\<lparr>alloc_state := MAAP_RESERVED, immediately := True\<rparr>) = own_address (maap_addr s)"
    by (simp add: own_address_def fun_eq_iff)
  ultimately show ?thesis using assms t f
    by (auto simp: avb_1722_maap_periodic_def send_packet_eq set_announce_interval_def random_get_random_number_def
        report_addresses maap_ok_def Let_def)
qed

text \<open>The state after a probe that was not the last one.\<close>

definition probing :: "(nat \<Rightarrow> nat) \<Rightarrow> nat \<Rightarrow> nat \<Rightarrow> maap \<Rightarrow> maap \<Rightarrow> bool" where
  "probing tt p c s u \<longleftrightarrow> maap_ok u \<and> clock_runs tt u \<and> 0 < clk_reads u \<and> waiting (tt (clk_reads u - 1)) p u
     \<and> timeout_val u = timeout_val s \<and> maap_reserved u = maap_reserved s
     \<and> maap_addr u = (maap_addr s)\<lparr>immediately := False, probe_count := int c\<rparr>"

lemma probe_sent:
  assumes "maap_ok s" and "clock_runs tt s" and "alloc_state (maap_addr s) = MAAP_PROBING" and "fst (maap_timer_due s)"
    and "probe_count (maap_addr s) = int (Suc c)" and "timeout_val s * TICKS_PER_CENTISECOND = of_nat p"
  shows "\<exists>q u. avb_1722_maap_periodic s = Some u \<and> probing tt p c s u \<and> maap_sent u = maap_sent s @ [q]
     \<and> maap_pdu (drop 14 q) MAAP_PROBE (base (maap_addr s)) (addr_range (maap_addr s)) (replicate 6 0) 0"
proof -
  obtain t where t: "maap_timer_due s = (True, t)" using assms(4) by (metis prod.collapse)
  have "clk t = clk s" by (rule maap_timer_due_frame [OF t])
  then show ?thesis using periodic_probe [OF assms(1,3) t] assms
    by (auto simp: probing_def waiting_def clock_runs_def start_avb_timer_def get_local_time_def init_avb_timer_def Let_def)
qed

lemma clk_reads_frame [simp]:
  "maap_ok (u\<lparr>clk_reads := n\<rparr>) = maap_ok u" "clock_runs tt (u\<lparr>clk_reads := n\<rparr>) = clock_runs tt u"
  by (simp_all add: maap_ok_def clock_runs_def)

lemma probing_reserves:
  assumes "probing tt p c s u" and "alloc_state (maap_addr s) = MAAP_PROBING" and "p < 1073741824"
    and "timeout_val s * TICKS_PER_CENTISECOND = of_nat p"
  shows "\<exists>k qs v. maap_polls k u = Some v \<and> maap_sent v = maap_sent u @ qs \<and> length qs = Suc c
     \<and> (\<forall>q \<in> set qs. maap_pdu (drop 14 q) MAAP_PROBE (base (maap_addr s)) (addr_range (maap_addr s)) (replicate 6 0) 0)
     \<and> maap_addr v = (maap_addr s)\<lparr>immediately := True, probe_count := - 1, alloc_state := MAAP_RESERVED\<rparr>
     \<and> maap_reserved v = maap_reserved s @ map (\<lambda>i. (i, own_address (maap_addr s) i)) [0..<nat (addr_range (maap_addr s))]"
  using assms(1)
proof (induction c arbitrary: u)
  case 0
  note pr = 0 [unfolded probing_def]
  obtain k N where k: "maap_polls k u = Some (u\<lparr>clk_reads := N\<rparr>)" "fst (maap_timer_due (u\<lparr>clk_reads := N\<rparr>))"
    using probe_again [of u tt p] pr assms by auto
  have "maap_ok (u\<lparr>clk_reads := N\<rparr>)" using pr by simp
  then obtain q v where "avb_1722_maap_periodic (u\<lparr>clk_reads := N\<rparr>) = Some v" "maap_sent v = maap_sent u @ [q]"
    "maap_pdu (drop 14 q) MAAP_PROBE (base (maap_addr s)) (addr_range (maap_addr s)) (replicate 6 0) 0"
    "maap_addr v = (maap_addr s)\<lparr>immediately := True, probe_count := - 1, alloc_state := MAAP_RESERVED\<rparr>"
    "maap_reserved v = maap_reserved s @ map (\<lambda>i. (i, own_address (maap_addr s) i)) [0..<nat (addr_range (maap_addr s))]"
    using periodic_reserve [OF _ _ k(2)] pr assms(2) by (auto simp: own_address_def)
  moreover from this(1) have "maap_polls (k + 1) u = Some v" unfolding maap_polls_add k(1) by simp
  ultimately show ?case by (intro exI [of _ "k + 1"] exI [of _ "[q]"] exI [of _ v]) simp
next
  case (Suc c)
  note pr = Suc.prems [unfolded probing_def]
  obtain k N where k: "maap_polls k u = Some (u\<lparr>clk_reads := N\<rparr>)" "fst (maap_timer_due (u\<lparr>clk_reads := N\<rparr>))"
    using probe_again [of u tt p] pr assms by auto
  have "maap_ok (u\<lparr>clk_reads := N\<rparr>)" "clock_runs tt (u\<lparr>clk_reads := N\<rparr>)" using pr by simp_all
  then obtain q w where w: "avb_1722_maap_periodic (u\<lparr>clk_reads := N\<rparr>) = Some w" "probing tt p c (u\<lparr>clk_reads := N\<rparr>) w"
    "maap_sent w = maap_sent u @ [q]" "maap_pdu (drop 14 q) MAAP_PROBE (base (maap_addr s)) (addr_range (maap_addr s)) (replicate 6 0) 0"
    using probe_sent [OF _ _ _ k(2), of tt c p] pr assms(2,4) by auto
  have "probing tt p c s w" using w(2) pr by (simp add: probing_def)
  from Suc.IH [OF this] obtain j qs v where v: "maap_polls j w = Some v" "maap_sent v = maap_sent w @ qs" "length qs = Suc c"
    "\<forall>q \<in> set qs. maap_pdu (drop 14 q) MAAP_PROBE (base (maap_addr s)) (addr_range (maap_addr s)) (replicate 6 0) 0"
    "maap_addr v = (maap_addr s)\<lparr>immediately := True, probe_count := - 1, alloc_state := MAAP_RESERVED\<rparr>"
    "maap_reserved v = maap_reserved s @ map (\<lambda>i. (i, own_address (maap_addr s) i)) [0..<nat (addr_range (maap_addr s))]" by blast
  have "maap_polls (k + Suc j) u = Some v" unfolding maap_polls_add k(1) using w(1) v(1) by simp
  then show ?case using v w(3,4) by (intro exI [of _ "k + Suc j"] exI [of _ "q # qs"] exI [of _ v]) simp
qed

text \<open>C37: a request leads to a reservation. After any successful request for addresses, provided no packet interferes and
  time passes, finitely many calls of the periodic function send exactly four probes for the requested range, reach
  the reserved state and report the addresses of the range to the talkers, in order and each once. The
  timer register may wrap in between.\<close>

theorem request_leads_to_reservation:
  assumes "avb_1722_maap_request_addresses n start s0 = Some s" and "maap_ok s" and "clock_runs tt s"
  shows "\<exists>k qs v. maap_polls k s = Some v \<and> maap_sent v = maap_sent s @ qs \<and> length qs = 4
     \<and> (\<forall>q \<in> set qs. maap_pdu (drop 14 q) MAAP_PROBE (base (maap_addr s)) (addr_range (maap_addr s)) (replicate 6 0) 0)
     \<and> alloc_state (maap_addr v) = MAAP_RESERVED \<and> base (maap_addr v) = base (maap_addr s) \<and> addr_range (maap_addr v) = addr_range (maap_addr s)
     \<and> maap_reserved v = maap_reserved s @ map (\<lambda>i. (i, own_address (maap_addr s) i)) [0..<nat (addr_range (maap_addr s))]"
proof -
  obtain b :: u32 where t: "timeout_val s = 50 + (b AND 7)" and st: "alloc_state (maap_addr s) = MAAP_PROBING"
    "probe_count (maap_addr s) = int (Suc 2)" "immediately (maap_addr s)"
    using assms(1)
    by (auto simp: avb_1722_maap_request_addresses_def bind_eq_Some_conv MAAP_PROBE_RETRANSMITS_def Let_def split: option.splits)
  have b: "unat (b AND 7) \<le> 7" using word_and_le1 [of b 7] by (simp add: word_le_nat_alt)
  define p where "p = (50 + unat (b AND 7)) * 1000000"
  have p: "p < 1073741824" using b by (simp add: p_def)
  have tp: "timeout_val s * TICKS_PER_CENTISECOND = of_nat p" by (simp add: t p_def TICKS_PER_CENTISECOND_def)
  have "fst (maap_timer_due s)" using st(3) by (simp add: maap_timer_due_def)
  then obtain q u where u: "avb_1722_maap_periodic s = Some u" "probing tt p 2 s u" "maap_sent u = maap_sent s @ [q]"
    "maap_pdu (drop 14 q) MAAP_PROBE (base (maap_addr s)) (addr_range (maap_addr s)) (replicate 6 0) 0"
    using probe_sent [OF assms(2,3) st(1) _ st(2) tp] by blast
  from probing_reserves [OF u(2) st(1) p tp] obtain k qs v where v: "maap_polls k u = Some v" "maap_sent v = maap_sent u @ qs" "length qs = Suc 2"
    "\<forall>q \<in> set qs. maap_pdu (drop 14 q) MAAP_PROBE (base (maap_addr s)) (addr_range (maap_addr s)) (replicate 6 0) 0"
    "maap_addr v = (maap_addr s)\<lparr>immediately := True, probe_count := - 1, alloc_state := MAAP_RESERVED\<rparr>"
    "maap_reserved v = maap_reserved s @ map (\<lambda>i. (i, own_address (maap_addr s) i)) [0..<nat (addr_range (maap_addr s))]" by blast
  show ?thesis
    by (intro exI [of _ "Suc k"] exI [of _ "q # qs"] exI [of _ v]) (use u v in simp)
qed

theorem request_leads_to_reservation_witness:
  "\<exists>s k v. avb_1722_maap_request_addresses 2 (Some MAAP_ALLOCATION_POOL_BASE_ADDR)
       (station 1 (replicate 6 0) 1 MAAP_DISABLED (\<lambda>n. of_nat (n * 1000000))) = Some s
     \<and> maap_polls k s = Some v \<and> alloc_state (maap_addr v) = MAAP_RESERVED"
proof -
  let ?s0 = "station 1 (replicate 6 0) 1 MAAP_DISABLED (\<lambda>n. of_nat (n * 1000000))"
  obtain s where s: "avb_1722_maap_request_addresses 2 (Some MAAP_ALLOCATION_POOL_BASE_ADDR) ?s0 = Some s"
    "maap_ok s" "clk s = (\<lambda>n. of_nat (n * 1000000))"
    by (simp add: avb_1722_maap_request_addresses_def read_block_def MAAP_ALLOCATION_POOL_BASE_ADDR_def maap_ok_def station_def
        MAAP_ALLOCATION_POOL_SIZE_def)
  have "\<exists>n. t < n * 1000000" for t :: nat by (rule exI [of _ "Suc t"]) simp
  then have "clock_runs (\<lambda>n. n * 1000000) s" using s(3) by (simp add: clock_runs_def)
  from request_leads_to_reservation [OF s(1,2) this] s(1) show ?thesis by blast
qed

end
