(* ===== verification/Avdecc.thy ===== *)
theory Avdecc
  imports Pdu_Fields Avb_Util
begin

text \<open>
  What the 1722.1 protocols share: \<^verbatim>\<open>src/1722_1/avb_1722_1_protocol.h\<close> and the header construction of
  \<^verbatim>\<open>avb_1722_1_common.c\<close>.

  A \<^verbatim>\<open>guid_t\<close> is a union of a 64-bit number and its eight bytes; the model keeps the number, and
  \<open>guid_c\<close> and \<open>guid_l\<close> are the two views. A packet is a list of bytes that starts with the Ethernet
  header of 14 bytes when it is sent, and with the 1722.1 header when it is received.
\<close>

definition guid_c :: "u64 \<Rightarrow> bytes" where
  "guid_c g = rev (bytes64 g)"

definition guid_l :: "bytes \<Rightarrow> u64" where
  "guid_l c = ntoh64 (rev c)"

definition ETH :: nat where "ETH = 14"

definition GET_1722_1_SUBTYPE :: "bytes \<Rightarrow> u8 option" where
  "GET_1722_1_SUBTYPE pkt = do { x \<leftarrow> rd pkt 0; Some (x AND 0x7f) }"

definition GET_1722_1_MSG_TYPE :: "bytes \<Rightarrow> u8 option" where
  "GET_1722_1_MSG_TYPE pkt = do { x \<leftarrow> rd pkt 1; Some (x AND 0x0f) }"

definition GET_1722_1_VALID_TIME :: "bytes \<Rightarrow> u8 option" where
  "GET_1722_1_VALID_TIME pkt = do { x \<leftarrow> rd pkt 2; Some (drop_bit 3 (x AND 0xf8)) }"

definition GET_1722_1_DATALENGTH :: "bytes \<Rightarrow> u32 option" where
  "GET_1722_1_DATALENGTH pkt = do { hi \<leftarrow> rd pkt 2; lo \<leftarrow> rd pkt 3; Some (push_bit 8 (ucast (hi AND 0x7)) + ucast lo) }"

definition SET_1722_1_DATALENGTH :: "nat \<Rightarrow> u32 \<Rightarrow> bytes \<Rightarrow> bytes option" where
  "SET_1722_1_DATALENGTH pkt val b = do {
     b \<leftarrow> SET_BITS (pkt + 2) 0 2 (drop_bit 8 val) b;
     SET_BITS (pkt + 3) 0 7 (val AND 0xff) b
   }"

definition avb_1722_1_create_1722_1_header ::
    "bytes \<Rightarrow> bytes \<Rightarrow> u32 \<Rightarrow> u32 \<Rightarrow> u8 \<Rightarrow> u32 \<Rightarrow> bytes \<Rightarrow> bytes option" where
  "avb_1722_1_create_1722_1_header dest mac subtype message_type valid_time_status data_len b = do {
     d \<leftarrow> read_block dest 0 6;
     m \<leftarrow> read_block mac 0 6;
     b \<leftarrow> copy_in b 0 d;
     b \<leftarrow> copy_in b 6 m;
     b \<leftarrow> wr b 12 0x22;
     b \<leftarrow> wr b 13 0xf0;
     b \<leftarrow> SET_BITS ETH 7 7 1 b;
     b \<leftarrow> SET_BITS ETH 0 6 subtype b;
     b \<leftarrow> SET_BITS (ETH + 1) 7 7 0 b;
     b \<leftarrow> SET_BITS (ETH + 1) 4 6 0 b;
     b \<leftarrow> SET_BITS (ETH + 1) 0 3 message_type b;
     b \<leftarrow> SET_BITS (ETH + 2) 3 7 (ucast valid_time_status) b;
     SET_1722_1_DATALENGTH ETH data_len b
   }"

text \<open>\<^verbatim>\<open>set_64\<close>, \<^verbatim>\<open>get_64\<close>, \<^verbatim>\<open>hton_16\<close> and \<^verbatim>\<open>ntoh_16\<close> applied to a field of the packet at offset \<open>p\<close>.\<close>

definition put64 :: "nat \<Rightarrow> u64 \<Rightarrow> bytes \<Rightarrow> bytes option" where
  "put64 p g b = do {
     old \<leftarrow> read_block b p 8;
     v \<leftarrow> set_64 old (guid_c g);
     copy_in b p v
   }"

definition get64 :: "nat \<Rightarrow> bytes \<Rightarrow> u64 option" where
  "get64 p b = do {
     v \<leftarrow> read_block b p 8;
     c \<leftarrow> get_64 (replicate 8 0) v;
     Some (guid_l c)
   }"

definition put16 :: "nat \<Rightarrow> u16 \<Rightarrow> bytes \<Rightarrow> bytes option" where
  "put16 p v b = (case hton_16 v of (x, y) \<Rightarrow> copy_in b p [x, y])"

definition get16 :: "nat \<Rightarrow> bytes \<Rightarrow> u16 option" where
  "get16 p b = do {
     x \<leftarrow> rd b p;
     y \<leftarrow> rd b (p + 1);
     Some (ntoh_16 (x, y))
   }"

section \<open>Reading back what was written\<close>

lemma guid_view [simp]: "guid_l (guid_c g) = g" "length (guid_c g) = 8"
  by (simp_all add: guid_l_def guid_c_def ntoh64_bytes64)

lemma put64_eq: "p + 8 \<le> length b \<Longrightarrow> put64 p g b = Some (overlay p (bytes64 g) b)"
  by (simp add: put64_def read_block_def set_64_rev guid_c_def copy_in_overlay)

lemma get64_eq: "p + 8 \<le> length b \<Longrightarrow> get64 p b = Some (ntoh64 (take 8 (drop p b)))"
  by (simp add: get64_def read_block_def get_64_rev guid_l_def)

lemma put16_eq: "p + 2 \<le> length b \<Longrightarrow> put16 p v b = Some (overlay p [fst (hton_16 v), snd (hton_16 v)] b)"
  by (simp add: put16_def copy_in_overlay split: prod.splits)

lemma get16_eq: "p + 2 \<le> length b \<Longrightarrow> get16 p b = Some (ntoh_16 (b ! p, b ! Suc p))"
  by (simp add: get16_def)

text \<open>Matching an identifier of a packet with a known one.\<close>

lemma compare_guid_eq:
  assumes "length a = 8"
  shows "compare_guid a (guid_c g) = Some (ntoh64 a = g)"
proof -
  have c: "compare_guid a (rev b) = Some (a = b)" if "length b = 8" for b
    using assms that by (auto simp: compare_guid_def upt_8 length_8_conv)
  have "a = bytes64 g \<longleftrightarrow> ntoh64 a = g" using bytes64_ntoh64 [OF assms] ntoh64_bytes64 by auto
  then show ?thesis using c [of "bytes64 g"] by (simp add: guid_c_def)
qed

text \<open>The header of a packet as a receiver reads it.\<close>

definition header_of :: "u32 \<Rightarrow> u32 \<Rightarrow> u8 \<Rightarrow> bytes \<Rightarrow> bool" where
  "header_of subtype ty status b \<longleftrightarrow> GET_1722_1_SUBTYPE (drop ETH b) = Some (ucast subtype)
     \<and> GET_1722_1_MSG_TYPE (drop ETH b) = Some (ucast ty) \<and> GET_1722_1_VALID_TIME (drop ETH b) = Some status"

lemma create_header:
  assumes "length dest = 6" and "length mac = 6" and "18 \<le> length b" and "subtype < 128" and "ty < 16" and "status < 32"
    and "len < 256"
  shows "\<exists>c. avb_1722_1_create_1722_1_header dest mac subtype ty status len b = Some c \<and> length c = length b
     \<and> header_of subtype ty status c"
proof -
  have "drop_bit 8 len = 0" using assms(7) by (simp add: drop_bit_eq_div word_unat_eq_iff unat_div_distrib word_less_nat_alt)
  moreover have "ucast status < (32 :: u32)" using assms(6) by (simp add: word_less_nat_alt unsigned_ucast_eq take_bit_eq_mod)
  moreover have "ucast (ucast status :: u32) = status" by (rule bit_word_eqI) (simp add: bit_simps)
  ultimately show ?thesis using assms
    by (simp add: avb_1722_1_create_1722_1_header_def read_block_def copy_in_overlay SET_BITS_eq SET_1722_1_DATALENGTH_def ETH_def
        header_of_def GET_1722_1_SUBTYPE_def GET_1722_1_MSG_TYPE_def GET_1722_1_VALID_TIME_def wire_simps
        subtype_bits type_bits status_bits length_bits_keep_status del: drop_bit_and)
qed

end
