(* ===== verification/Acmp.thy ===== *)
theory Acmp
  imports Avdecc Avb_Api
begin

text \<open>
  Connection management, \<^verbatim>\<open>src/1722_1/avb_1722_1_acmp.c\<close> and \<^verbatim>\<open>avb_1722_1_acmp_periodic.xc\<close>, with the default
  application hooks of \<^verbatim>\<open>avb_1722_1_app_hooks.xc\<close>.

  The static variables of the two files are the record \<open>acmp\<close>; an array indexed by
  \<^verbatim>\<open>CONTROLLER\<close> or \<^verbatim>\<open>LISTENER\<close> is a function of \<open>entity_type\<close>. The client interface \<^verbatim>\<open>avb\<close> is a state of the AVB
  manager, passed beside the ACMP state, and the manager's client functions of \<open>Avb_Api\<close>, which
  reach the reservation task through \<open>srp_if\<close>. Transmitted frames are collected in \<open>acmp_sent\<close>.
  The compile-time sizes are the lengths of the tables. Fast connect (\<^verbatim>\<open>AVB_1722_1_FAST_CONNECT_ENABLED\<close>) is off, as by
  default, so the flash memory is not accessed; assertions and debug output are off, \<^verbatim>\<open>AVB_ENABLE_1722_1\<close> is on.
\<close>

section \<open>Data\<close>

datatype acmp_controller_state_t =
    ACMP_CONTROLLER_IDLE | ACMP_CONTROLLER_WAITING | ACMP_CONTROLLER_TIMEOUT | ACMP_CONTROLLER_CONNECT_RX_RESPONSE
  | ACMP_CONTROLLER_DISCONNECT_RX_RESPONSE | ACMP_CONTROLLER_GET_TX_STATE_RESPONSE | ACMP_CONTROLLER_GET_RX_STATE_RESPONSE
  | ACMP_CONTROLLER_GET_TX_CONNECTION_RESPONSE

datatype acmp_talker_state_t =
    ACMP_TALKER_IDLE | ACMP_TALKER_WAITING | ACMP_TALKER_CONNECT | ACMP_TALKER_DISCONNECT | ACMP_TALKER_GET_STATE
  | ACMP_TALKER_GET_CONNECTION

datatype acmp_listener_state_t =
    ACMP_LISTENER_IDLE | ACMP_LISTENER_WAITING | ACMP_LISTENER_CONNECT_RX_COMMAND | ACMP_LISTENER_DISCONNECT_RX_COMMAND
  | ACMP_LISTENER_CONNECT_TX_RESPONSE | ACMP_LISTENER_DISCONNECT_TX_RESPONSE | ACMP_LISTENER_GET_STATE
  | ACMP_LISTENER_RX_TIMEOUT

datatype entity_type = CONTROLLER | LISTENER

record acmp_cmd_resp =
  message_type :: u8
  cr_status :: u8
  cr_stream_id :: u64
  controller_guid :: u64
  talker_guid :: u64
  listener_guid :: u64
  talker_unique_id :: u16
  listener_unique_id :: u16
  stream_dest_mac :: bytes
  connection_count :: u16
  sequence_id :: u16
  cr_flags :: u16
  cr_vlan_id :: u16

record listener_pair =
  lp_guid :: u64
  lp_unique_id :: u16

record talker_stream_info =
  ts_stream_id :: u64
  ts_connection_count :: int
  ts_destination_mac :: bytes
  connected_listeners :: "listener_pair list"

record listener_stream_info =
  ls_talker_guid :: u64
  ls_talker_unique_id :: u16
  ls_connected :: int
  ls_stream_id :: u64
  ls_destination_mac :: bytes

record inflight_command =
  if_in_use :: bool
  if_timeout :: u32
  if_retried :: bool
  if_command :: acmp_cmd_resp
  original_sequence_id :: u16

record acmp = clock_env +
  acmp_controller_state :: acmp_controller_state_t
  acmp_talker_state :: acmp_talker_state_t
  acmp_listener_state :: acmp_listener_state_t
  avb_1722_1_buf :: bytes
  entity_mac :: bytes
  my_guid :: u64
  acmp_listener_streams :: "listener_stream_info list"
  acmp_talker_streams :: "talker_stream_info list"
  inflight :: "entity_type \<Rightarrow> inflight_command list"
  centisecond_counter :: "entity_type \<Rightarrow> u32"
  inflight_timer :: "entity_type \<Rightarrow> avb_timer"
  timeout_idx :: "entity_type \<Rightarrow> nat option"
  controller_cmd_resp :: acmp_cmd_resp
  talker_rcvd :: acmp_cmd_resp
  listener_rcvd :: acmp_cmd_resp
  next_sequence_id :: "entity_type \<Rightarrow> u16"
  acmp_sent :: "bytes list"

definition ACMP_CMD_CONNECT_TX_COMMAND :: u8 where "ACMP_CMD_CONNECT_TX_COMMAND = 0"

definition ACMP_CMD_CONNECT_TX_RESPONSE :: u8 where "ACMP_CMD_CONNECT_TX_RESPONSE = 1"

definition ACMP_CMD_DISCONNECT_TX_COMMAND :: u8 where "ACMP_CMD_DISCONNECT_TX_COMMAND = 2"

definition ACMP_CMD_DISCONNECT_TX_RESPONSE :: u8 where "ACMP_CMD_DISCONNECT_TX_RESPONSE = 3"

definition ACMP_CMD_GET_TX_STATE_COMMAND :: u8 where "ACMP_CMD_GET_TX_STATE_COMMAND = 4"

definition ACMP_CMD_GET_TX_STATE_RESPONSE :: u8 where "ACMP_CMD_GET_TX_STATE_RESPONSE = 5"

definition ACMP_CMD_CONNECT_RX_COMMAND :: u8 where "ACMP_CMD_CONNECT_RX_COMMAND = 6"

definition ACMP_CMD_CONNECT_RX_RESPONSE :: u8 where "ACMP_CMD_CONNECT_RX_RESPONSE = 7"

definition ACMP_CMD_DISCONNECT_RX_COMMAND :: u8 where "ACMP_CMD_DISCONNECT_RX_COMMAND = 8"

definition ACMP_CMD_DISCONNECT_RX_RESPONSE :: u8 where "ACMP_CMD_DISCONNECT_RX_RESPONSE = 9"

definition ACMP_CMD_GET_RX_STATE_COMMAND :: u8 where "ACMP_CMD_GET_RX_STATE_COMMAND = 10"

definition ACMP_CMD_GET_RX_STATE_RESPONSE :: u8 where "ACMP_CMD_GET_RX_STATE_RESPONSE = 11"

definition ACMP_CMD_GET_TX_CONNECTION_COMMAND :: u8 where "ACMP_CMD_GET_TX_CONNECTION_COMMAND = 12"

definition ACMP_CMD_GET_TX_CONNECTION_RESPONSE :: u8 where "ACMP_CMD_GET_TX_CONNECTION_RESPONSE = 13"

lemmas acmp_messages = ACMP_CMD_CONNECT_TX_COMMAND_def ACMP_CMD_CONNECT_TX_RESPONSE_def ACMP_CMD_DISCONNECT_TX_COMMAND_def
  ACMP_CMD_DISCONNECT_TX_RESPONSE_def ACMP_CMD_GET_TX_STATE_COMMAND_def ACMP_CMD_GET_TX_STATE_RESPONSE_def
  ACMP_CMD_CONNECT_RX_COMMAND_def ACMP_CMD_CONNECT_RX_RESPONSE_def ACMP_CMD_DISCONNECT_RX_COMMAND_def
  ACMP_CMD_DISCONNECT_RX_RESPONSE_def ACMP_CMD_GET_RX_STATE_COMMAND_def ACMP_CMD_GET_RX_STATE_RESPONSE_def
  ACMP_CMD_GET_TX_CONNECTION_COMMAND_def ACMP_CMD_GET_TX_CONNECTION_RESPONSE_def

definition ACMP_STATUS_SUCCESS :: u8 where "ACMP_STATUS_SUCCESS = 0"

definition ACMP_STATUS_LISTENER_UNKNOWN_ID :: u8 where "ACMP_STATUS_LISTENER_UNKNOWN_ID = 1"

definition ACMP_STATUS_TALKER_UNKNOWN_ID :: u8 where "ACMP_STATUS_TALKER_UNKNOWN_ID = 2"

definition ACMP_STATUS_LISTENER_TALKER_TIMEOUT :: u8 where "ACMP_STATUS_LISTENER_TALKER_TIMEOUT = 7"

definition ACMP_STATUS_LISTENER_EXCLUSIVE :: u8 where "ACMP_STATUS_LISTENER_EXCLUSIVE = 8"

definition ACMP_STATUS_STATE_UNAVAILABLE :: u8 where "ACMP_STATUS_STATE_UNAVAILABLE = 9"

definition ACMP_STATUS_NOT_CONNECTED :: u8 where "ACMP_STATUS_NOT_CONNECTED = 10"

definition ACMP_STATUS_NO_SUCH_CONNECTION :: u8 where "ACMP_STATUS_NO_SUCH_CONNECTION = 11"

definition ACMP_STATUS_INCOMPATIBLE_REQUEST :: u8 where "ACMP_STATUS_INCOMPATIBLE_REQUEST = 17"

definition ACMP_FLAGS_CLASS_B :: u16 where "ACMP_FLAGS_CLASS_B = 1"

definition ACMP_FLAGS_FAST_CONNECT :: u16 where "ACMP_FLAGS_FAST_CONNECT = 2"

definition acmp_dest_addr :: bytes where "acmp_dest_addr = [0x91, 0xe0, 0xf0, 0x01, 0x00, 0x00]"

definition ACMP_CD_LENGTH :: u32 where "ACMP_CD_LENGTH = 44"

definition ACMP_PACKET_SIZE :: nat where "ACMP_PACKET_SIZE = 70"

definition ACMP_DEFAULT_VLAN :: u16 where "ACMP_DEFAULT_VLAN = 2"

definition acmp_inflight_timeouts :: "u32 list" where "acmp_inflight_timeouts = [20, 2, 2, 45, 5, 2, 2]"

text \<open>The values \<^verbatim>\<open>memset\<close> to zero leaves.\<close>

definition zero_cmd_resp :: acmp_cmd_resp where
  "zero_cmd_resp = \<lparr>message_type = 0, cr_status = 0, cr_stream_id = 0, controller_guid = 0, talker_guid = 0, listener_guid = 0,
     talker_unique_id = 0, listener_unique_id = 0, stream_dest_mac = replicate 6 0, connection_count = 0, sequence_id = 0,
     cr_flags = 0, cr_vlan_id = 0\<rparr>"

definition zero_inflight :: inflight_command where
  "zero_inflight = \<lparr>if_in_use = False, if_timeout = 0, if_retried = False, if_command = zero_cmd_resp, original_sequence_id = 0\<rparr>"

definition zero_listener_info :: listener_stream_info where
  "zero_listener_info = \<lparr>ls_talker_guid = 0, ls_talker_unique_id = 0, ls_connected = 0, ls_stream_id = 0,
     ls_destination_mac = replicate 6 0\<rparr>"

section \<open>Packets and commands in flight\<close>

definition start_inflight_timer :: "entity_type \<Rightarrow> acmp \<Rightarrow> acmp" where
  "start_inflight_timer e s =
     (let (t, s) = start_avb_timer (inflight_timer s e) 1 s in s\<lparr>inflight_timer := (inflight_timer s)(e := t)\<rparr>)"

definition reset_inflight :: "entity_type \<Rightarrow> acmp \<Rightarrow> acmp" where
  "reset_inflight e s =
     start_inflight_timer e (s\<lparr>next_sequence_id := (next_sequence_id s)(e := 0),
       inflight_timer := (inflight_timer s)(e := init_avb_timer (inflight_timer s e) 10),
       centisecond_counter := (centisecond_counter s)(e := 0)\<rparr>)"

definition clear_inflight :: "entity_type \<Rightarrow> acmp \<Rightarrow> acmp" where
  "clear_inflight e s = s\<lparr>inflight := (inflight s)(e := replicate (length (inflight s e)) zero_inflight)\<rparr>"

definition avb_1722_1_acmp_controller_init :: "acmp \<Rightarrow> acmp" where
  "avb_1722_1_acmp_controller_init s =
     reset_inflight CONTROLLER (clear_inflight CONTROLLER (s\<lparr>acmp_controller_state := ACMP_CONTROLLER_WAITING\<rparr>))"

definition avb_1722_1_acmp_controller_deinit :: "acmp \<Rightarrow> acmp" where
  "avb_1722_1_acmp_controller_deinit s = s\<lparr>acmp_controller_state := ACMP_CONTROLLER_IDLE\<rparr>"

definition avb_1722_1_acmp_talker_init :: "acmp \<Rightarrow> acmp" where
  "avb_1722_1_acmp_talker_init s = s\<lparr>acmp_talker_state := ACMP_TALKER_WAITING\<rparr>"

definition acmp_zero_listener_stream_info :: "nat \<Rightarrow> acmp \<Rightarrow> acmp option" where
  "acmp_zero_listener_stream_info unique_id s = do {
     l \<leftarrow> wr (acmp_listener_streams s) unique_id zero_listener_info;
     Some (s\<lparr>acmp_listener_streams := l\<rparr>)
   }"

definition avb_1722_1_acmp_listener_init :: "acmp \<Rightarrow> acmp option" where
  "avb_1722_1_acmp_listener_init s = do {
     let s = clear_inflight LISTENER (s\<lparr>acmp_listener_state := ACMP_LISTENER_WAITING\<rparr>);
     s \<leftarrow> for_each [0..<length (acmp_listener_streams s)] acmp_zero_listener_stream_info s;
     Some (reset_inflight LISTENER s)
   }"

text \<open>The fields of a packet, by their offset from the 1722.1 header.\<close>

definition acmp_fields :: "nat \<Rightarrow> acmp_cmd_resp \<Rightarrow> bytes \<Rightarrow> bytes option" where
  "acmp_fields pkt cr b = do {
     b \<leftarrow> put64 (pkt + 4) (cr_stream_id cr) b;
     b \<leftarrow> put64 (pkt + 12) (controller_guid cr) b;
     b \<leftarrow> put64 (pkt + 28) (listener_guid cr) b;
     b \<leftarrow> put64 (pkt + 20) (talker_guid cr) b;
     b \<leftarrow> put16 (pkt + 36) (talker_unique_id cr) b;
     b \<leftarrow> put16 (pkt + 38) (listener_unique_id cr) b;
     b \<leftarrow> put16 (pkt + 46) (connection_count cr) b;
     b \<leftarrow> put16 (pkt + 48) (sequence_id cr) b;
     b \<leftarrow> put16 (pkt + 50) (cr_flags cr) b;
     b \<leftarrow> put16 (pkt + 52) (cr_vlan_id cr) b;
     mac \<leftarrow> read_block (stream_dest_mac cr) 0 6;
     copy_in b (pkt + 40) mac
   }"

definition avb_1722_1_create_acmp_packet :: "acmp_cmd_resp \<Rightarrow> u8 \<Rightarrow> u8 \<Rightarrow> acmp \<Rightarrow> acmp option" where
  "avb_1722_1_create_acmp_packet cr ty status s = do {
     b \<leftarrow> avb_1722_1_create_1722_1_header acmp_dest_addr (entity_mac s) 0x7c (ucast ty) status ACMP_CD_LENGTH (avb_1722_1_buf s);
     b \<leftarrow> acmp_fields ETH cr b;
     Some (s\<lparr>avb_1722_1_buf := b\<rparr>)
   }"

definition store_rcvd_cmd_resp :: "bytes \<Rightarrow> acmp_cmd_resp option" where
  "store_rcvd_cmd_resp pkt = do {
     sid \<leftarrow> get64 4 pkt;
     controller \<leftarrow> get64 12 pkt;
     listener \<leftarrow> get64 28 pkt;
     talker \<leftarrow> get64 20 pkt;
     talker_id \<leftarrow> get16 36 pkt;
     listener_id \<leftarrow> get16 38 pkt;
     count \<leftarrow> get16 46 pkt;
     seq \<leftarrow> get16 48 pkt;
     flags \<leftarrow> get16 50 pkt;
     vlan \<leftarrow> get16 52 pkt;
     mac \<leftarrow> read_block pkt 40 6;
     ty \<leftarrow> GET_1722_1_MSG_TYPE pkt;
     status \<leftarrow> GET_1722_1_VALID_TIME pkt;
     Some \<lparr>message_type = ty, cr_status = status, cr_stream_id = sid, controller_guid = controller, talker_guid = talker,
       listener_guid = listener, talker_unique_id = talker_id, listener_unique_id = listener_id, stream_dest_mac = mac,
       connection_count = count, sequence_id = seq, cr_flags = flags, cr_vlan_id = vlan\<rparr>
   }"

definition acmp_transmit :: "acmp \<Rightarrow> acmp option" where
  "acmp_transmit s = do {
     frame \<leftarrow> read_block (avb_1722_1_buf s) 0 ACMP_PACKET_SIZE;
     Some (s\<lparr>acmp_sent := acmp_sent s @ [frame]\<rparr>)
   }"

definition acmp_progress_inflight_timer :: "entity_type \<Rightarrow> acmp \<Rightarrow> acmp" where
  "acmp_progress_inflight_timer e s =
     (let (expired, t, s) = avb_timer_expired (inflight_timer s e) s;
          s = s\<lparr>inflight_timer := (inflight_timer s)(e := t)\<rparr>
      in if expired
         then start_inflight_timer e (s\<lparr>centisecond_counter := (centisecond_counter s)(e := centisecond_counter s e + 1)\<rparr>)
         else s)"

definition acmp_get_inflight_from_sequence_id :: "entity_type \<Rightarrow> u16 \<Rightarrow> acmp \<Rightarrow> nat option" where
  "acmp_get_inflight_from_sequence_id e seq s =
     find_index (\<lambda>c. if_in_use c \<and> sequence_id (if_command c) = seq) (inflight s e)"

definition acmp_update_inflight_timeout :: "entity_type \<Rightarrow> inflight_command \<Rightarrow> u8 \<Rightarrow> acmp \<Rightarrow> inflight_command" where
  "acmp_update_inflight_timeout e c ty s =
     c\<lparr>if_timeout := (if unat ty mod 2 = 0 \<and> unat ty \<le> 12
        then centisecond_counter s e + acmp_inflight_timeouts ! (unat ty div 2) else 0)\<rparr>"

definition acmp_set_inflight_retry :: "entity_type \<Rightarrow> u8 \<Rightarrow> nat \<Rightarrow> acmp \<Rightarrow> acmp option" where
  "acmp_set_inflight_retry e ty i s = do {
     c \<leftarrow> rd (inflight s e) i;
     l \<leftarrow> wr (inflight s e) i ((acmp_update_inflight_timeout e c ty s)\<lparr>if_retried := True\<rparr>);
     Some (s\<lparr>inflight := (inflight s)(e := l)\<rparr>)
   }"

definition current_command :: "entity_type \<Rightarrow> acmp \<Rightarrow> acmp_cmd_resp" where
  "current_command e s = (case e of CONTROLLER \<Rightarrow> controller_cmd_resp s | LISTENER \<Rightarrow> listener_rcvd s)"

definition acmp_add_inflight :: "entity_type \<Rightarrow> u8 \<Rightarrow> u16 \<Rightarrow> acmp \<Rightarrow> acmp" where
  "acmp_add_inflight e ty original s =
     (case find_index (\<lambda>c. \<not> if_in_use c) (inflight s e) of
        None \<Rightarrow> s
      | Some i \<Rightarrow>
          let c = (inflight s e ! i)\<lparr>if_in_use := True, if_retried := False,
                if_command := (current_command e s)\<lparr>message_type := ty\<rparr>, original_sequence_id := original\<rparr>
          in s\<lparr>inflight := (inflight s)(e := (inflight s e)[i := acmp_update_inflight_timeout e c ty s])\<rparr>)"

definition acmp_remove_inflight :: "entity_type \<Rightarrow> acmp \<Rightarrow> nat option \<times> acmp" where
  "acmp_remove_inflight e s =
     (case acmp_get_inflight_from_sequence_id e (sequence_id (current_command e s)) s of
        None \<Rightarrow> (None, s)
      | Some i \<Rightarrow> (Some i, s\<lparr>inflight := (inflight s)(e := (inflight s e)[i := (inflight s e ! i)\<lparr>if_in_use := False\<rparr>])\<rparr>))"

definition acmp_check_inflight_command_timeouts :: "entity_type \<Rightarrow> acmp \<Rightarrow> nat option" where
  "acmp_check_inflight_command_timeouts e s =
     find_index (\<lambda>c. if_in_use c \<and> centisecond_counter s e \<ge> if_timeout c) (inflight s e)"

section \<open>Stream information\<close>

definition acmp_set_talker_response :: "acmp \<Rightarrow> acmp option" where
  "acmp_set_talker_response s = do {
     let cr = talker_rcvd s;
     t \<leftarrow> rd (acmp_talker_streams s) (unat (talker_unique_id cr));
     Some (s\<lparr>talker_rcvd := cr\<lparr>cr_stream_id := ts_stream_id t, stream_dest_mac := ts_destination_mac t,
       connection_count := word_of_int (ts_connection_count t)\<rparr>\<rparr>)
   }"

definition acmp_listener_valid_listener_unique :: "acmp \<Rightarrow> bool" where
  "acmp_listener_valid_listener_unique s \<longleftrightarrow> unat (listener_unique_id (listener_rcvd s)) < length (acmp_listener_streams s)"

definition acmp_add_listener_stream_info :: "acmp \<Rightarrow> acmp option" where
  "acmp_add_listener_stream_info s = do {
     let cr = listener_rcvd s;
     l \<leftarrow> wr (acmp_listener_streams s) (unat (listener_unique_id cr))
       \<lparr>ls_talker_guid = talker_guid cr, ls_talker_unique_id = talker_unique_id cr, ls_connected = 1,
        ls_stream_id = cr_stream_id cr, ls_destination_mac = stream_dest_mac cr\<rparr>;
     Some (s\<lparr>acmp_listener_streams := l\<rparr>)
   }"

definition acmp_listener_get_state :: "acmp \<Rightarrow> (u8 \<times> acmp) option" where
  "acmp_listener_get_state s = do {
     let cr = listener_rcvd s;
     l \<leftarrow> rd (acmp_listener_streams s) (unat (listener_unique_id cr));
     Some (ACMP_STATUS_SUCCESS, s\<lparr>listener_rcvd := cr\<lparr>cr_stream_id := ls_stream_id l, stream_dest_mac := ls_destination_mac l,
       talker_guid := ls_talker_guid l, talker_unique_id := ls_talker_unique_id l,
       connection_count := word_of_int (ls_connected l),
       cr_vlan_id := (if ls_stream_id l \<noteq> 0 then ACMP_DEFAULT_VLAN else 0)\<rparr>\<rparr>)
   }"

definition acmp_talker_get_state :: "acmp \<Rightarrow> (u8 \<times> acmp) option" where
  "acmp_talker_get_state s = do {
     let cr = talker_rcvd s;
     t \<leftarrow> rd (acmp_talker_streams s) (unat (talker_unique_id cr));
     Some (ACMP_STATUS_SUCCESS, s\<lparr>talker_rcvd := cr\<lparr>cr_stream_id := ts_stream_id t, stream_dest_mac := ts_destination_mac t,
       connection_count := word_of_int (ts_connection_count t),
       cr_vlan_id := (if ts_stream_id t \<noteq> 0 then ACMP_DEFAULT_VLAN else 0)\<rparr>\<rparr>)
   }"

definition acmp_talker_get_connection :: "acmp \<Rightarrow> (u8 \<times> acmp) option" where
  "acmp_talker_get_connection s = do {
     let cr = talker_rcvd s;
     let connection = unat (connection_count cr);
     t \<leftarrow> rd (acmp_talker_streams s) (unat (talker_unique_id cr));
     if connection \<ge> length (connected_listeners t) then Some (ACMP_STATUS_STATE_UNAVAILABLE, s)
     else if lp_guid (connected_listeners t ! connection) = 0 then Some (ACMP_STATUS_NO_SUCH_CONNECTION, s)
     else Some (ACMP_STATUS_SUCCESS, s\<lparr>talker_rcvd := cr\<lparr>cr_stream_id := ts_stream_id t, stream_dest_mac := ts_destination_mac t,
       listener_guid := lp_guid (connected_listeners t ! connection),
       listener_unique_id := lp_unique_id (connected_listeners t ! connection), cr_vlan_id := ACMP_DEFAULT_VLAN\<rparr>\<rparr>)
   }"

definition add_connection :: "u64 \<Rightarrow> u16 \<Rightarrow> talker_stream_info \<Rightarrow> talker_stream_info" where
  "add_connection g u t =
     (if \<exists>p \<in> set (connected_listeners t). lp_guid p = g \<and> lp_unique_id p = u then t
      else case find_index (\<lambda>p. lp_guid p = 0) (connected_listeners t) of
        None \<Rightarrow> t
      | Some i \<Rightarrow> t\<lparr>connected_listeners := (connected_listeners t)[i := \<lparr>lp_guid = g, lp_unique_id = u\<rparr>],
                    ts_connection_count := ts_connection_count t + 1\<rparr>)"

definition remove_connection :: "u64 \<Rightarrow> u16 \<Rightarrow> talker_stream_info \<Rightarrow> talker_stream_info" where
  "remove_connection g u t =
     (case find_index (\<lambda>p. lp_guid p = g \<and> lp_unique_id p = u) (connected_listeners t) of
        None \<Rightarrow> t
      | Some i \<Rightarrow> t\<lparr>connected_listeners := (connected_listeners t)[i := \<lparr>lp_guid = 0, lp_unique_id = 0\<rparr>],
                    ts_connection_count := ts_connection_count t - 1\<rparr>)"

definition acmp_add_talker_stream_info :: "acmp \<Rightarrow> acmp option" where
  "acmp_add_talker_stream_info s = do {
     let cr = talker_rcvd s;
     t \<leftarrow> rd (acmp_talker_streams s) (unat (talker_unique_id cr));
     Some (s\<lparr>acmp_talker_streams := (acmp_talker_streams s)[unat (talker_unique_id cr) :=
       add_connection (listener_guid cr) (listener_unique_id cr) t]\<rparr>)
   }"

definition acmp_remove_talker_stream_info :: "acmp \<Rightarrow> acmp option" where
  "acmp_remove_talker_stream_info s = do {
     let cr = talker_rcvd s;
     t \<leftarrow> rd (acmp_talker_streams s) (unat (talker_unique_id cr));
     Some (s\<lparr>acmp_talker_streams := (acmp_talker_streams s)[unat (talker_unique_id cr) :=
       remove_connection (listener_guid cr) (listener_unique_id cr) t]\<rparr>)
   }"

definition acmp_talker_valid_talker_unique :: "acmp \<Rightarrow> bool" where
  "acmp_talker_valid_talker_unique s \<longleftrightarrow> unat (talker_unique_id (talker_rcvd s)) < length (acmp_talker_streams s)"

definition avb_1722_1_talker_set_mac_address :: "nat \<Rightarrow> bytes \<Rightarrow> acmp \<Rightarrow> acmp option" where
  "avb_1722_1_talker_set_mac_address i macaddr s =
     (if i < length (acmp_talker_streams s) then do {
        mac \<leftarrow> read_block macaddr 0 6;
        Some (s\<lparr>acmp_talker_streams := (acmp_talker_streams s)[i := (acmp_talker_streams s ! i)\<lparr>ts_destination_mac := mac\<rparr>]\<rparr>)
      } else Some s)"

definition avb_1722_1_talker_set_stream_id :: "nat \<Rightarrow> Avb_Manager.stream_id \<Rightarrow> acmp \<Rightarrow> acmp" where
  "avb_1722_1_talker_set_stream_id i sid s =
     (if i < length (acmp_talker_streams s) then
        s\<lparr>acmp_talker_streams := (acmp_talker_streams s)[i := (acmp_talker_streams s ! i)
          \<lparr>ts_stream_id := ucast (snd sid) + push_bit 32 (ucast (fst sid))\<rparr>]\<rparr>
      else s)"

section \<open>Reception\<close>

definition process_avb_1722_1_acmp_controller_packet :: "u8 \<Rightarrow> bytes \<Rightarrow> acmp \<Rightarrow> acmp option" where
  "process_avb_1722_1_acmp_controller_packet ty pkt s =
     (if acmp_controller_state s \<noteq> ACMP_CONTROLLER_WAITING then Some s
      else do {
        g \<leftarrow> read_block pkt 12 8;
        mine \<leftarrow> compare_guid g (guid_c (my_guid s));
        if \<not> mine then Some s
        else do {
          seq \<leftarrow> get16 48 pkt;
          case acmp_get_inflight_from_sequence_id CONTROLLER seq s of
            None \<Rightarrow> Some s
          | Some i \<Rightarrow>
              if unat ty \<noteq> unat (message_type (if_command (inflight s CONTROLLER ! i))) + 1 then Some s
              else do {
                cr \<leftarrow> store_rcvd_cmd_resp pkt;
                let s = s\<lparr>controller_cmd_resp := cr\<rparr>;
                Some (s\<lparr>acmp_controller_state :=
                  (if ty = ACMP_CMD_CONNECT_RX_RESPONSE then ACMP_CONTROLLER_CONNECT_RX_RESPONSE
                   else if ty = ACMP_CMD_DISCONNECT_RX_RESPONSE then ACMP_CONTROLLER_DISCONNECT_RX_RESPONSE
                   else if ty = ACMP_CMD_GET_TX_STATE_RESPONSE then ACMP_CONTROLLER_GET_RX_STATE_RESPONSE
                   else if ty = ACMP_CMD_GET_RX_STATE_RESPONSE then ACMP_CONTROLLER_GET_RX_STATE_RESPONSE
                   else if ty = ACMP_CMD_GET_TX_CONNECTION_RESPONSE then ACMP_CONTROLLER_GET_TX_CONNECTION_RESPONSE
                   else ACMP_CONTROLLER_WAITING)\<rparr>)
              }
        }
      })"

definition process_avb_1722_1_acmp_talker_packet :: "u8 \<Rightarrow> bytes \<Rightarrow> acmp \<Rightarrow> acmp option" where
  "process_avb_1722_1_acmp_talker_packet ty pkt s = do {
     g \<leftarrow> read_block pkt 20 8;
     mine \<leftarrow> compare_guid g (guid_c (my_guid s));
     if \<not> mine then Some s
     else if acmp_talker_state s \<noteq> ACMP_TALKER_WAITING then Some s
     else do {
       cr \<leftarrow> store_rcvd_cmd_resp pkt;
       let s = s\<lparr>talker_rcvd := cr\<rparr>;
       Some (s\<lparr>acmp_talker_state :=
         (if ty = ACMP_CMD_CONNECT_TX_COMMAND then ACMP_TALKER_CONNECT
          else if ty = ACMP_CMD_DISCONNECT_TX_COMMAND then ACMP_TALKER_DISCONNECT
          else if ty = ACMP_CMD_GET_TX_STATE_COMMAND then ACMP_TALKER_GET_STATE
          else if ty = ACMP_CMD_GET_TX_CONNECTION_COMMAND then ACMP_TALKER_GET_CONNECTION
          else acmp_talker_state s)\<rparr>)
     }
   }"

definition process_avb_1722_1_acmp_listener_packet :: "u8 \<Rightarrow> bytes \<Rightarrow> acmp \<Rightarrow> acmp option" where
  "process_avb_1722_1_acmp_listener_packet ty pkt s = do {
     g \<leftarrow> read_block pkt 28 8;
     mine \<leftarrow> compare_guid g (guid_c (my_guid s));
     if \<not> mine then Some s
     else if acmp_listener_state s \<noteq> ACMP_LISTENER_WAITING then Some s
     else do {
       cr \<leftarrow> store_rcvd_cmd_resp pkt;
       let s = s\<lparr>listener_rcvd := cr\<rparr>;
       Some (s\<lparr>acmp_listener_state :=
         (if ty = ACMP_CMD_CONNECT_TX_RESPONSE then ACMP_LISTENER_CONNECT_TX_RESPONSE
          else if ty = ACMP_CMD_DISCONNECT_TX_RESPONSE then ACMP_LISTENER_DISCONNECT_TX_RESPONSE
          else if ty = ACMP_CMD_CONNECT_RX_COMMAND then ACMP_LISTENER_CONNECT_RX_COMMAND
          else if ty = ACMP_CMD_DISCONNECT_RX_COMMAND then ACMP_LISTENER_DISCONNECT_RX_COMMAND
          else if ty = ACMP_CMD_GET_RX_STATE_COMMAND then ACMP_LISTENER_GET_STATE
          else acmp_listener_state s)\<rparr>)
     }
   }"

definition process_avb_1722_1_acmp_packet :: "bytes \<Rightarrow> acmp \<Rightarrow> acmp option" where
  "process_avb_1722_1_acmp_packet pkt s = do {
     ty \<leftarrow> GET_1722_1_MSG_TYPE pkt;
     if ty \<in> {ACMP_CMD_CONNECT_TX_COMMAND, ACMP_CMD_DISCONNECT_TX_COMMAND, ACMP_CMD_GET_TX_STATE_COMMAND,
              ACMP_CMD_GET_TX_CONNECTION_COMMAND} then process_avb_1722_1_acmp_talker_packet ty pkt s
     else if ty \<in> {ACMP_CMD_CONNECT_TX_RESPONSE, ACMP_CMD_DISCONNECT_TX_RESPONSE, ACMP_CMD_CONNECT_RX_COMMAND,
              ACMP_CMD_DISCONNECT_RX_COMMAND, ACMP_CMD_GET_RX_STATE_COMMAND} then process_avb_1722_1_acmp_listener_packet ty pkt s
     else if ty \<in> {ACMP_CMD_CONNECT_RX_RESPONSE, ACMP_CMD_DISCONNECT_RX_RESPONSE, ACMP_CMD_GET_RX_STATE_RESPONSE,
              ACMP_CMD_GET_TX_STATE_RESPONSE, ACMP_CMD_GET_TX_CONNECTION_RESPONSE}
     then process_avb_1722_1_acmp_controller_packet ty pkt s
     else Some s
   }"

section \<open>Commands and responses\<close>

text \<open>
  \<open>acmp_send_command\<close> gets a pointer to the command: that of the entity for a new command, and that of the entry
  \<open>i\<close> in flight for a retry, which is \<open>retry = Some i\<close>. The packet is also handed to the own entity.
\<close>

definition put_current_command :: "entity_type \<Rightarrow> acmp_cmd_resp \<Rightarrow> acmp \<Rightarrow> acmp" where
  "put_current_command e c s =
     (case e of CONTROLLER \<Rightarrow> s\<lparr>controller_cmd_resp := c\<rparr> | LISTENER \<Rightarrow> s\<lparr>listener_rcvd := c\<rparr>)"

definition put_inflight_command :: "entity_type \<Rightarrow> nat \<Rightarrow> acmp_cmd_resp \<Rightarrow> acmp \<Rightarrow> acmp" where
  "put_inflight_command e i c s =
     s\<lparr>inflight := (inflight s)(e := (inflight s e)[i := (inflight s e ! i)\<lparr>if_command := c\<rparr>])\<rparr>"

definition acmp_send_command :: "entity_type \<Rightarrow> u8 \<Rightarrow> nat option \<Rightarrow> acmp \<Rightarrow> acmp option" where
  "acmp_send_command e ty retry s = do {
     command \<leftarrow> (case retry of None \<Rightarrow> Some (current_command e s)
                  | Some i \<Rightarrow> do { c \<leftarrow> rd (inflight s e) i; Some (if_command c) });
     let original = sequence_id command;
     let command = command\<lparr>sequence_id := next_sequence_id s e\<rparr>;
     let s = (case retry of None \<Rightarrow> put_current_command e command s | Some i \<Rightarrow> put_inflight_command e i command s);
     let s = s\<lparr>next_sequence_id := (next_sequence_id s)(e := next_sequence_id s e + 1)\<rparr>;
     s \<leftarrow> avb_1722_1_create_acmp_packet command ty ACMP_STATUS_SUCCESS s;
     s \<leftarrow> acmp_transmit s;
     s \<leftarrow> process_avb_1722_1_acmp_packet (drop ETH (avb_1722_1_buf s)) s;
     case retry of None \<Rightarrow> Some (acmp_add_inflight e ty original s) | Some i \<Rightarrow> acmp_set_inflight_retry e ty i s
   }"

definition acmp_send_response :: "u8 \<Rightarrow> acmp_cmd_resp \<Rightarrow> u8 \<Rightarrow> acmp \<Rightarrow> acmp option" where
  "acmp_send_response ty response status s = do {
     s \<leftarrow> avb_1722_1_create_acmp_packet response ty status s;
     acmp_transmit s
   }"

definition acmp_controller_connect_disconnect :: "u8 \<Rightarrow> u64 \<Rightarrow> u64 \<Rightarrow> u16 \<Rightarrow> u16 \<Rightarrow> acmp \<Rightarrow> acmp option" where
  "acmp_controller_connect_disconnect ty talker listener talker_id listener_id s =
     acmp_send_command CONTROLLER ty None (s\<lparr>controller_cmd_resp := (controller_cmd_resp s)\<lparr>controller_guid := my_guid s,
       talker_guid := talker, listener_guid := listener, talker_unique_id := talker_id, listener_unique_id := listener_id\<rparr>\<rparr>)"

definition avb_1722_1_controller_connect :: "u64 \<Rightarrow> u64 \<Rightarrow> u16 \<Rightarrow> u16 \<Rightarrow> acmp \<Rightarrow> acmp option" where
  "avb_1722_1_controller_connect = acmp_controller_connect_disconnect ACMP_CMD_CONNECT_RX_COMMAND"

definition avb_1722_1_controller_disconnect :: "u64 \<Rightarrow> u64 \<Rightarrow> u16 \<Rightarrow> u16 \<Rightarrow> acmp \<Rightarrow> acmp option" where
  "avb_1722_1_controller_disconnect = acmp_controller_connect_disconnect ACMP_CMD_DISCONNECT_RX_COMMAND"

definition avb_1722_1_controller_disconnect_all_listeners :: "nat \<Rightarrow> acmp \<Rightarrow> acmp option" where
  "avb_1722_1_controller_disconnect_all_listeners talker_id s = do {
     t \<leftarrow> rd (acmp_talker_streams s) talker_id;
     if ts_stream_id t \<noteq> 0 \<and> ts_connection_count t > 0 then
       for_each [0..<length (connected_listeners t)] (\<lambda>i s. do {
         t \<leftarrow> rd (acmp_talker_streams s) talker_id;
         p \<leftarrow> rd (connected_listeners t) i;
         if lp_guid p \<noteq> 0 then avb_1722_1_controller_disconnect (my_guid s) (lp_guid p) (of_nat talker_id) (of_nat i) s else Some s
       }) s
     else Some s
   }"

definition avb_1722_1_controller_disconnect_talker :: "nat \<Rightarrow> acmp \<Rightarrow> acmp option" where
  "avb_1722_1_controller_disconnect_talker listener_id s = do {
     l \<leftarrow> rd (acmp_listener_streams s) listener_id;
     if ls_stream_id l \<noteq> 0 \<and> ls_connected l \<noteq> 0 then
       avb_1722_1_controller_disconnect (ls_talker_guid l) (my_guid s) (ls_talker_unique_id l) (of_nat listener_id) s
     else Some s
   }"

section \<open>Application hooks\<close>

text \<open>
  The hooks read a variable that the getter leaves unset when the stream does not exist; that is
  \<open>None\<close> here. Setters report whether they did anything, which the hooks ignore.
\<close>

definition ignore_result :: "(bool \<times> 'e mgr) option \<Rightarrow> 'e mgr option" where
  "ignore_result r = do { (ok, m) \<leftarrow> r; Some m }"

definition avb_talker_on_listener_connect :: "'e mgr srp_if \<Rightarrow> nat \<Rightarrow> acmp \<times> 'e mgr \<Rightarrow> (acmp \<times> 'e mgr) option" where
  "avb_talker_on_listener_connect srp n am = (case am of (a, m) \<Rightarrow> do {
     state \<leftarrow> get_source_state n m;
     sid \<leftarrow> get_source_id n m;
     if state = STATE_DISABLED then do {
       let a = avb_1722_1_talker_set_stream_id n sid a;
       m \<leftarrow> ignore_result (set_source_state srp n STATE_POTENTIAL m);
       Some (a, m)
     } else Some (a, m)
   })"

definition avb_listener_on_talker_connect ::
    "'e mgr srp_if \<Rightarrow> nat \<Rightarrow> bytes \<Rightarrow> Avb_Manager.stream_id \<Rightarrow> u16 \<Rightarrow> 'e mgr \<Rightarrow> (u8 \<times> 'e mgr) option" where
  "avb_listener_on_talker_connect srp n dest_addr sid vlan m = do {
     current \<leftarrow> get_sink_id n m;
     m \<leftarrow> (if current \<noteq> sid then ignore_result (set_sink_state srp n STATE_DISABLED m) else Some m);
     m \<leftarrow> ignore_result (set_sink_id srp n sid m);
     m \<leftarrow> ignore_result (set_sink_addr srp n dest_addr m);
     m \<leftarrow> ignore_result (set_sink_vlan srp n (uint vlan) m);
     m \<leftarrow> ignore_result (set_sink_state srp n STATE_POTENTIAL m);
     Some (ACMP_STATUS_SUCCESS, m)
   }"

definition avb_listener_on_talker_disconnect :: "'e mgr srp_if \<Rightarrow> nat \<Rightarrow> 'e mgr \<Rightarrow> 'e mgr option" where
  "avb_listener_on_talker_disconnect srp n m = ignore_result (set_sink_state srp n STATE_DISABLED m)"

definition avb_talker_on_listener_disconnect :: "'e mgr srp_if \<Rightarrow> nat \<Rightarrow> int \<Rightarrow> 'e mgr \<Rightarrow> 'e mgr option" where
  "avb_talker_on_listener_disconnect srp n count m = do {
     state \<leftarrow> get_source_state n m;
     if state \<noteq> STATE_DISABLED \<and> count = 0 then do {
       m \<leftarrow> ignore_result (set_source_state srp n STATE_DISABLED m);
       ignore_result (set_source_vlan srp n 0 m)
     } else Some m
   }"

section \<open>Periodic functions\<close>

definition acmp_listener_is_connected :: "bool \<Rightarrow> acmp \<Rightarrow> 'e mgr \<Rightarrow> bool option" where
  "acmp_listener_is_connected connected_to a m = do {
     let cr = listener_rcvd a;
     state \<leftarrow> get_sink_state (unat (listener_unique_id cr)) m;
     l \<leftarrow> rd (acmp_listener_streams a) (unat (listener_unique_id cr));
     Some (state \<noteq> STATE_DISABLED
       \<and> (if ls_talker_guid l = talker_guid cr \<and> ls_talker_unique_id l = talker_unique_id cr then connected_to else \<not> connected_to))
   }"

definition avb_1722_1_acmp_controller_periodic :: "acmp \<Rightarrow> acmp option" where
  "avb_1722_1_acmp_controller_periodic s =
     (case acmp_controller_state s of
        ACMP_CONTROLLER_IDLE \<Rightarrow> Some s
      | ACMP_CONTROLLER_WAITING \<Rightarrow>
          (let s = acmp_progress_inflight_timer CONTROLLER s;
               i = acmp_check_inflight_command_timeouts CONTROLLER s;
               s = s\<lparr>timeout_idx := (timeout_idx s)(CONTROLLER := i)\<rparr>
           in Some (if i \<noteq> None then s\<lparr>acmp_controller_state := ACMP_CONTROLLER_TIMEOUT\<rparr> else s))
      | ACMP_CONTROLLER_TIMEOUT \<Rightarrow> do {
          i \<leftarrow> timeout_idx s CONTROLLER;
          c \<leftarrow> rd (inflight s CONTROLLER) i;
          s \<leftarrow> (if if_retried c
               then Some (s\<lparr>inflight := (inflight s)(CONTROLLER := (inflight s CONTROLLER)[i := c\<lparr>if_in_use := False\<rparr>])\<rparr>)
               else acmp_send_command CONTROLLER (message_type (if_command c)) (Some i) s);
          Some (s\<lparr>acmp_controller_state := ACMP_CONTROLLER_WAITING\<rparr>)
        }
      | _ \<Rightarrow> Some ((snd (acmp_remove_inflight CONTROLLER s))\<lparr>acmp_controller_state := ACMP_CONTROLLER_WAITING\<rparr>))"

definition avb_1722_1_acmp_talker_periodic :: "'e mgr srp_if \<Rightarrow> acmp \<times> 'e mgr \<Rightarrow> (acmp \<times> 'e mgr) option" where
  "avb_1722_1_acmp_talker_periodic srp am = (case am of (a, m) \<Rightarrow>
     (case acmp_talker_state a of
        ACMP_TALKER_IDLE \<Rightarrow> Some (a, m)
      | ACMP_TALKER_WAITING \<Rightarrow> Some (a, m)
      | ACMP_TALKER_CONNECT \<Rightarrow> do {
          (a, m) \<leftarrow> (if \<not> acmp_talker_valid_talker_unique a then do {
                 a \<leftarrow> acmp_send_response ACMP_CMD_CONNECT_TX_RESPONSE (talker_rcvd a) ACMP_STATUS_TALKER_UNKNOWN_ID a;
                 Some (a, m)
               } else do {
                 a \<leftarrow> acmp_add_talker_stream_info a;
                 (a, m) \<leftarrow> avb_talker_on_listener_connect srp (unat (talker_unique_id (talker_rcvd a))) (a, m);
                 a \<leftarrow> acmp_set_talker_response a;
                 a \<leftarrow> acmp_send_response ACMP_CMD_CONNECT_TX_RESPONSE (talker_rcvd a) ACMP_STATUS_SUCCESS a;
                 Some (a, m)
               });
          Some (a\<lparr>acmp_talker_state := ACMP_TALKER_WAITING\<rparr>, m)
        }
      | ACMP_TALKER_DISCONNECT \<Rightarrow> do {
          (a, m) \<leftarrow> (if \<not> acmp_talker_valid_talker_unique a then do {
                 a \<leftarrow> acmp_send_response ACMP_CMD_DISCONNECT_TX_RESPONSE (talker_rcvd a) ACMP_STATUS_TALKER_UNKNOWN_ID a;
                 Some (a, m)
               } else do {
                 let n = unat (talker_unique_id (talker_rcvd a));
                 a \<leftarrow> acmp_remove_talker_stream_info a;
                 t \<leftarrow> rd (acmp_talker_streams a) n;
                 m \<leftarrow> avb_talker_on_listener_disconnect srp n (ts_connection_count t) m;
                 a \<leftarrow> acmp_set_talker_response a;
                 a \<leftarrow> acmp_send_response ACMP_CMD_DISCONNECT_TX_RESPONSE (talker_rcvd a) ACMP_STATUS_SUCCESS a;
                 Some (a, m)
               });
          Some (a\<lparr>acmp_talker_state := ACMP_TALKER_WAITING\<rparr>, m)
        }
      | ACMP_TALKER_GET_STATE \<Rightarrow> do {
          (status, a) \<leftarrow> (if \<not> acmp_talker_valid_talker_unique a then Some (ACMP_STATUS_TALKER_UNKNOWN_ID, a) else acmp_talker_get_state a);
          a \<leftarrow> acmp_send_response ACMP_CMD_GET_TX_STATE_RESPONSE (talker_rcvd a) status a;
          Some (a\<lparr>acmp_talker_state := ACMP_TALKER_WAITING\<rparr>, m)
        }
      | ACMP_TALKER_GET_CONNECTION \<Rightarrow> do {
          (status, a) \<leftarrow> (if \<not> acmp_talker_valid_talker_unique a then Some (ACMP_STATUS_TALKER_UNKNOWN_ID, a) else acmp_talker_get_connection a);
          a \<leftarrow> acmp_send_response ACMP_CMD_GET_TX_CONNECTION_RESPONSE (talker_rcvd a) status a;
          Some (a\<lparr>acmp_talker_state := ACMP_TALKER_WAITING\<rparr>, m)
        }))"

definition split_stream_id :: "u64 \<Rightarrow> Avb_Manager.stream_id" where
  "split_stream_id l = (ucast (drop_bit 32 l), ucast l)"

definition listener_connect_rx_command :: "acmp \<Rightarrow> 'e mgr \<Rightarrow> acmp option" where
  "listener_connect_rx_command a m =
     (if \<not> acmp_listener_valid_listener_unique a
      then acmp_send_response ACMP_CMD_CONNECT_RX_RESPONSE (listener_rcvd a) ACMP_STATUS_LISTENER_UNKNOWN_ID a
      else do {
        exclusive \<leftarrow> acmp_listener_is_connected False a m;
        if exclusive then acmp_send_response ACMP_CMD_CONNECT_RX_RESPONSE (listener_rcvd a) ACMP_STATUS_LISTENER_EXCLUSIVE a
        else acmp_send_command LISTENER ACMP_CMD_CONNECT_TX_COMMAND None a
      })"

definition listener_disconnect_rx_command :: "'e mgr srp_if \<Rightarrow> acmp \<times> 'e mgr \<Rightarrow> (acmp \<times> 'e mgr) option" where
  "listener_disconnect_rx_command srp am = (case am of (a, m) \<Rightarrow>
     (if \<not> acmp_listener_valid_listener_unique a then do {
        a \<leftarrow> acmp_send_response ACMP_CMD_DISCONNECT_RX_RESPONSE (listener_rcvd a) ACMP_STATUS_LISTENER_UNKNOWN_ID a;
        Some (a, m)
      } else do {
        connected \<leftarrow> acmp_listener_is_connected True a m;
        if connected then do {
          a \<leftarrow> acmp_send_command LISTENER ACMP_CMD_DISCONNECT_TX_COMMAND None a;
          m \<leftarrow> avb_listener_on_talker_disconnect srp (unat (listener_unique_id (listener_rcvd a))) m;
          a \<leftarrow> acmp_zero_listener_stream_info (unat (listener_unique_id (listener_rcvd a))) a;
          Some (a, m)
        } else do {
          a \<leftarrow> acmp_send_response ACMP_CMD_DISCONNECT_RX_RESPONSE (listener_rcvd a) ACMP_STATUS_NOT_CONNECTED a;
          Some (a, m)
        }
      }))"

text \<open>The two responses of a talker; \<open>None\<close> as the index means that no command is in flight for the sequence number.\<close>

definition listener_connected :: "'e mgr srp_if \<Rightarrow> nat \<Rightarrow> acmp \<times> 'e mgr \<Rightarrow> (acmp \<times> 'e mgr) option" where
  "listener_connected srp i am = (case am of (a, m) \<Rightarrow> do {
     c \<leftarrow> rd (inflight a LISTENER) i;
     let a = a\<lparr>listener_rcvd := (listener_rcvd a)\<lparr>sequence_id := original_sequence_id c\<rparr>\<rparr>;
     let cr = listener_rcvd a;
     if cr_flags cr AND ACMP_FLAGS_CLASS_B \<noteq> 0 then do {
       a \<leftarrow> acmp_send_response ACMP_CMD_CONNECT_RX_RESPONSE cr ACMP_STATUS_INCOMPATIBLE_REQUEST a;
       Some (a, m)
     } else do {
       (status, m) \<leftarrow> avb_listener_on_talker_connect srp (unat (listener_unique_id cr)) (stream_dest_mac cr)
         (split_stream_id (cr_stream_id cr)) (cr_vlan_id cr) m;
       let a = a\<lparr>listener_rcvd := cr\<lparr>cr_status := status\<rparr>\<rparr>;
       a \<leftarrow> acmp_send_response ACMP_CMD_CONNECT_RX_RESPONSE (listener_rcvd a) status a;
       a \<leftarrow> acmp_add_listener_stream_info a;
       Some (a, m)
     }
   })"

definition listener_connect_tx_response :: "'e mgr srp_if \<Rightarrow> acmp \<times> 'e mgr \<Rightarrow> (acmp \<times> 'e mgr) option" where
  "listener_connect_tx_response srp am = (case am of (a, m) \<Rightarrow>
     (if acmp_listener_valid_listener_unique a then do {
        let (found, a) = acmp_remove_inflight LISTENER a;
        (a, m) \<leftarrow> (case found of None \<Rightarrow> Some (a, m) | Some i \<Rightarrow> listener_connected srp i (a, m));
        if cr_flags (listener_rcvd a) AND ACMP_FLAGS_FAST_CONNECT \<noteq> 0
        then Some (a\<lparr>listener_rcvd := (listener_rcvd a)\<lparr>controller_guid := my_guid a\<rparr>, acmp_listener_state := ACMP_LISTENER_GET_STATE\<rparr>, m)
        else Some (a\<lparr>acmp_listener_state := ACMP_LISTENER_WAITING\<rparr>, m)
      } else Some (a, m)))"

definition listener_disconnect_tx_response :: "acmp \<Rightarrow> acmp option" where
  "listener_disconnect_tx_response a =
     (if acmp_listener_valid_listener_unique a then do {
        let (found, a) = acmp_remove_inflight LISTENER a;
        a \<leftarrow> (case found of None \<Rightarrow> Some a
             | Some i \<Rightarrow> do {
                 c \<leftarrow> rd (inflight a LISTENER) i;
                 let a = a\<lparr>listener_rcvd := (listener_rcvd a)\<lparr>sequence_id := original_sequence_id c\<rparr>\<rparr>;
                 a \<leftarrow> acmp_send_response ACMP_CMD_DISCONNECT_RX_RESPONSE (listener_rcvd a) (cr_status (listener_rcvd a)) a;
                 acmp_zero_listener_stream_info (unat (listener_unique_id (listener_rcvd a))) a
               });
        Some (a\<lparr>listener_rcvd := (listener_rcvd a)\<lparr>cr_status := ACMP_STATUS_SUCCESS\<rparr>, acmp_listener_state := ACMP_LISTENER_WAITING\<rparr>)
      } else Some a)"

definition listener_rx_timeout :: "acmp \<Rightarrow> acmp option" where
  "listener_rx_timeout a = do {
     i \<leftarrow> timeout_idx a LISTENER;
     c \<leftarrow> rd (inflight a LISTENER) i;
     if if_retried c then do {
       let c = c\<lparr>if_command := (if_command c)\<lparr>sequence_id := original_sequence_id c\<rparr>\<rparr>;
       a \<leftarrow> (if cr_flags (if_command c) AND ACMP_FLAGS_FAST_CONNECT \<noteq> 0 then Some a
            else acmp_send_response (message_type (if_command c) + 7) (if_command c) ACMP_STATUS_LISTENER_TALKER_TIMEOUT a);
       Some (a\<lparr>inflight := (inflight a)(LISTENER := (inflight a LISTENER)[i := c\<lparr>if_in_use := False\<rparr>])\<rparr>)
     } else acmp_send_command LISTENER (message_type (if_command c)) (Some i) a
   }"

definition avb_1722_1_acmp_listener_periodic :: "'e mgr srp_if \<Rightarrow> acmp \<times> 'e mgr \<Rightarrow> (acmp \<times> 'e mgr) option" where
  "avb_1722_1_acmp_listener_periodic srp am = (case am of (a, m) \<Rightarrow>
     (case acmp_listener_state a of
        ACMP_LISTENER_IDLE \<Rightarrow> Some (a, m)
      | ACMP_LISTENER_WAITING \<Rightarrow>
          (let a = acmp_progress_inflight_timer LISTENER a;
               i = acmp_check_inflight_command_timeouts LISTENER a;
               a = a\<lparr>timeout_idx := (timeout_idx a)(LISTENER := i)\<rparr>
           in Some (if i \<noteq> None then a\<lparr>acmp_listener_state := ACMP_LISTENER_RX_TIMEOUT\<rparr> else a, m))
      | ACMP_LISTENER_CONNECT_RX_COMMAND \<Rightarrow> do {
          a \<leftarrow> listener_connect_rx_command a m;
          Some (a\<lparr>acmp_listener_state := ACMP_LISTENER_WAITING\<rparr>, m)
        }
      | ACMP_LISTENER_DISCONNECT_RX_COMMAND \<Rightarrow> do {
          (a, m) \<leftarrow> listener_disconnect_rx_command srp (a, m);
          Some (a\<lparr>acmp_listener_state := ACMP_LISTENER_WAITING\<rparr>, m)
        }
      | ACMP_LISTENER_CONNECT_TX_RESPONSE \<Rightarrow> listener_connect_tx_response srp (a, m)
      | ACMP_LISTENER_DISCONNECT_TX_RESPONSE \<Rightarrow> do {
          a \<leftarrow> listener_disconnect_tx_response a;
          Some (a, m)
        }
      | ACMP_LISTENER_GET_STATE \<Rightarrow> do {
          (status, a) \<leftarrow> (if \<not> acmp_listener_valid_listener_unique a then Some (ACMP_STATUS_LISTENER_UNKNOWN_ID, a)
                          else acmp_listener_get_state a);
          a \<leftarrow> acmp_send_response ACMP_CMD_GET_RX_STATE_RESPONSE (listener_rcvd a) status a;
          Some (a\<lparr>acmp_listener_state := ACMP_LISTENER_WAITING\<rparr>, m)
        }
      | ACMP_LISTENER_RX_TIMEOUT \<Rightarrow> do {
          a \<leftarrow> listener_rx_timeout a;
          Some (a\<lparr>acmp_listener_state := ACMP_LISTENER_WAITING\<rparr>, m)
        }))"

end
