(* ===== verification/Acmp_Talker.thy ===== *)
theory Acmp_Talker
  imports Acmp "HOL-Library.Multiset"
begin

text \<open>
  Facts on connection management that concern one frame or the talker: what a frame carries and how the three recipients
  read it, the round trip of a response, and the table of connected listeners as an implementation of a set.
\<close>

section \<open>Packets\<close>

lemma pair_hton_16 [simp]: "ntoh_16 (fst (hton_16 v), snd (hton_16 v)) = v"
  by simp

lemma fields_round_trip:
  assumes "70 \<le> length b" and "length (stream_dest_mac cr) = 6" and "header_of 0x7c (ucast ty) status b"
  shows "\<exists>c. acmp_fields ETH cr b = Some c \<and> length c = length b \<and> GET_1722_1_MSG_TYPE (drop ETH c) = Some (ucast (ucast ty :: u32))
     \<and> store_rcvd_cmd_resp (drop ETH c) = Some (cr\<lparr>message_type := ucast (ucast ty :: u32), cr_status := status\<rparr>)"
proof -
  let ?h = "\<lambda>v. [fst (hton_16 v), snd (hton_16 v)]"
  let ?c = "overlay 54 (stream_dest_mac cr) (overlay 66 (?h (cr_vlan_id cr)) (overlay 64 (?h (cr_flags cr)) (overlay 62 (?h (sequence_id cr))
    (overlay 60 (?h (connection_count cr)) (overlay 52 (?h (listener_unique_id cr)) (overlay 50 (?h (talker_unique_id cr))
    (overlay 34 (bytes64 (talker_guid cr)) (overlay 42 (bytes64 (listener_guid cr)) (overlay 26 (bytes64 (controller_guid cr))
    (overlay 18 (bytes64 (cr_stream_id cr)) b))))))))))"
  have f: "acmp_fields ETH cr b = Some ?c" "length ?c = length b" using assms(1,2)
    by (simp_all add: acmp_fields_def ETH_def put64_eq put16_eq read_block_def copy_in_overlay)
  have "?c ! 15 = b ! 15" "?c ! 16 = b ! 16" using assms(1,2) by (simp_all add: wire_simps)
  then have h: "GET_1722_1_MSG_TYPE (drop ETH ?c) = Some (ucast (ucast ty :: u32))" "GET_1722_1_VALID_TIME (drop ETH ?c) = Some status"
    using assms f(2) by (simp_all add: header_of_def GET_1722_1_MSG_TYPE_def GET_1722_1_VALID_TIME_def ETH_def del: drop_bit_and)
  have "store_rcvd_cmd_resp (drop ETH ?c) = Some (cr\<lparr>message_type := ucast (ucast ty :: u32), cr_status := status\<rparr>)"
    using assms(1,2) h unfolding store_rcvd_cmd_resp_def
    by (simp add: ETH_def get64_eq get16_eq read_block_def wire_simps ntoh64_bytes64)
  with f h show ?thesis by blast
qed

text \<open>The state has room for a packet and the addresses have their length.\<close>

definition acmp_ok :: "acmp \<Rightarrow> bool" where
  "acmp_ok a \<longleftrightarrow> 70 \<le> length (avb_1722_1_buf a) \<and> length (entity_mac a) = 6"

lemma create_acmp_packet_spec:
  assumes "acmp_ok a" and "length (stream_dest_mac cr) = 6" and "ty < 16" and "status < 32"
  shows "\<exists>b. avb_1722_1_create_acmp_packet cr ty status a = Some (a\<lparr>avb_1722_1_buf := b\<rparr>) \<and> 70 \<le> length b
     \<and> GET_1722_1_MSG_TYPE (drop ETH b) = Some ty
     \<and> store_rcvd_cmd_resp (drop ETH b) = Some (cr\<lparr>message_type := ty, cr_status := status\<rparr>)"
proof -
  have t: "(ucast ty :: u32) < 16" using assms(3) by (simp add: word_less_nat_alt unsigned_ucast_eq take_bit_eq_mod)
  have u: "ucast (ucast ty :: u32) = ty" by (rule bit_word_eqI) (simp add: bit_simps)
  obtain h where h: "avb_1722_1_create_1722_1_header acmp_dest_addr (entity_mac a) 0x7c (ucast ty) status ACMP_CD_LENGTH (avb_1722_1_buf a) = Some h"
    "length h = length (avb_1722_1_buf a)" "header_of 0x7c (ucast ty) status h"
    using create_header [of acmp_dest_addr "entity_mac a" "avb_1722_1_buf a" "0x7c" "ucast ty" status ACMP_CD_LENGTH] assms t
    by (auto simp: acmp_ok_def acmp_dest_addr_def ACMP_CD_LENGTH_def)
  obtain c where "acmp_fields ETH cr h = Some c" "length c = length h" "GET_1722_1_MSG_TYPE (drop ETH c) = Some ty"
     "store_rcvd_cmd_resp (drop ETH c) = Some (cr\<lparr>message_type := ty, cr_status := status\<rparr>)"
    using fields_round_trip [OF _ assms(2) h(3)] assms(1) h(2) by (auto simp: acmp_ok_def u)
  with h assms(1) show ?thesis by (auto simp: avb_1722_1_create_acmp_packet_def acmp_ok_def)
qed

lemma packet_prefix:
  assumes "70 \<le> length b"
  shows "store_rcvd_cmd_resp (drop ETH (take 70 b)) = store_rcvd_cmd_resp (drop ETH b)"
    and "GET_1722_1_MSG_TYPE (drop ETH (take 70 b)) = GET_1722_1_MSG_TYPE (drop ETH b)"
    and "p + n \<le> 56 \<Longrightarrow> read_block (drop ETH (take 70 b)) p n = read_block (drop ETH b) p n"
    and "p + 2 \<le> 56 \<Longrightarrow> get16 p (drop ETH (take 70 b)) = get16 p (drop ETH b)"
proof -
  have r: "read_block (drop ETH (take 70 b)) p n = read_block (drop ETH b) p n" if "p + n \<le> 56" for p n
    using assms that by (auto simp: read_block_def ETH_def take_drop min_def)
  have d: "rd (drop ETH (take 70 b)) i = rd (drop ETH b) i" if "i < 56" for i
    using assms that by (simp add: rd_def ETH_def)
  show "store_rcvd_cmd_resp (drop ETH (take 70 b)) = store_rcvd_cmd_resp (drop ETH b)"
    by (simp add: store_rcvd_cmd_resp_def get64_def get16_def GET_1722_1_MSG_TYPE_def GET_1722_1_VALID_TIME_def r d)
  show "GET_1722_1_MSG_TYPE (drop ETH (take 70 b)) = GET_1722_1_MSG_TYPE (drop ETH b)"
    by (simp add: GET_1722_1_MSG_TYPE_def d)
  show "p + n \<le> 56 \<Longrightarrow> read_block (drop ETH (take 70 b)) p n = read_block (drop ETH b) p n" by (rule r)
  show "p + 2 \<le> 56 \<Longrightarrow> get16 p (drop ETH (take 70 b)) = get16 p (drop ETH b)" by (simp add: get16_def d)
qed

text \<open>A frame that carries a command or response.\<close>

definition carries :: "bytes \<Rightarrow> u8 \<Rightarrow> u8 \<Rightarrow> acmp_cmd_resp \<Rightarrow> bool" where
  "carries f ty status cr \<longleftrightarrow> GET_1722_1_MSG_TYPE (drop ETH f) = Some ty
     \<and> store_rcvd_cmd_resp (drop ETH f) = Some (cr\<lparr>message_type := ty, cr_status := status\<rparr>)"

lemma transmit_eq:
  "70 \<le> length (avb_1722_1_buf a) \<Longrightarrow> acmp_transmit a = Some (a\<lparr>acmp_sent := acmp_sent a @ [take 70 (avb_1722_1_buf a)]\<rparr>)"
  by (simp add: acmp_transmit_def ACMP_PACKET_SIZE_def read_block_def)

lemma send_response_spec:
  assumes "acmp_ok a" and "length (stream_dest_mac cr) = 6" and "ty < 16" and "status < 32"
  shows "\<exists>b f. acmp_send_response ty cr status a = Some (a\<lparr>avb_1722_1_buf := b, acmp_sent := acmp_sent a @ [f]\<rparr>) \<and> 70 \<le> length b
     \<and> carries f ty status cr"
proof -
  obtain b where b: "avb_1722_1_create_acmp_packet cr ty status a = Some (a\<lparr>avb_1722_1_buf := b\<rparr>)" "70 \<le> length b"
     "GET_1722_1_MSG_TYPE (drop ETH b) = Some ty"
     "store_rcvd_cmd_resp (drop ETH b) = Some (cr\<lparr>message_type := ty, cr_status := status\<rparr>)"
    using create_acmp_packet_spec [OF assms] by blast
  then show ?thesis
    by (intro exI [of _ b] exI [of _ "take 70 b"]) (simp add: acmp_send_response_def transmit_eq carries_def packet_prefix)
qed

text \<open>The identifiers of a packet as the three recipients compare them.\<close>

lemma carried_guids:
  assumes "store_rcvd_cmd_resp pkt = Some cr"
  shows "\<exists>g. read_block pkt 12 8 = Some g \<and> compare_guid g (guid_c i) = Some (controller_guid cr = i)"
    and "\<exists>g. read_block pkt 20 8 = Some g \<and> compare_guid g (guid_c i) = Some (talker_guid cr = i)"
    and "\<exists>g. read_block pkt 28 8 = Some g \<and> compare_guid g (guid_c i) = Some (listener_guid cr = i)"
  using assms
  by (auto simp: store_rcvd_cmd_resp_def bind_eq_Some_conv get64_def read_block_Some_iff get_64_rev guid_l_def compare_guid_eq)

text \<open>Reception, for each of the recipients.\<close>

lemma listener_receives:
  assumes "store_rcvd_cmd_resp pkt = Some cr"
  shows "process_avb_1722_1_acmp_listener_packet ty pkt a =
    (if listener_guid cr = my_guid a \<and> acmp_listener_state a = ACMP_LISTENER_WAITING then
       Some (a\<lparr>listener_rcvd := cr, acmp_listener_state :=
         (if ty = ACMP_CMD_CONNECT_TX_RESPONSE then ACMP_LISTENER_CONNECT_TX_RESPONSE
          else if ty = ACMP_CMD_DISCONNECT_TX_RESPONSE then ACMP_LISTENER_DISCONNECT_TX_RESPONSE
          else if ty = ACMP_CMD_CONNECT_RX_COMMAND then ACMP_LISTENER_CONNECT_RX_COMMAND
          else if ty = ACMP_CMD_DISCONNECT_RX_COMMAND then ACMP_LISTENER_DISCONNECT_RX_COMMAND
          else if ty = ACMP_CMD_GET_RX_STATE_COMMAND then ACMP_LISTENER_GET_STATE
          else ACMP_LISTENER_WAITING)\<rparr>)
     else Some a)"
  using carried_guids(3) [OF assms, of "my_guid a"] assms by (auto simp: process_avb_1722_1_acmp_listener_packet_def)

lemma talker_receives:
  assumes "store_rcvd_cmd_resp pkt = Some cr"
  shows "process_avb_1722_1_acmp_talker_packet ty pkt a =
    (if talker_guid cr = my_guid a \<and> acmp_talker_state a = ACMP_TALKER_WAITING then
       Some (a\<lparr>talker_rcvd := cr, acmp_talker_state :=
         (if ty = ACMP_CMD_CONNECT_TX_COMMAND then ACMP_TALKER_CONNECT
          else if ty = ACMP_CMD_DISCONNECT_TX_COMMAND then ACMP_TALKER_DISCONNECT
          else if ty = ACMP_CMD_GET_TX_STATE_COMMAND then ACMP_TALKER_GET_STATE
          else if ty = ACMP_CMD_GET_TX_CONNECTION_COMMAND then ACMP_TALKER_GET_CONNECTION
          else ACMP_TALKER_WAITING)\<rparr>)
     else Some a)"
  using carried_guids(2) [OF assms, of "my_guid a"] assms by (auto simp: process_avb_1722_1_acmp_talker_packet_def)

text \<open>C13: a response reads back as it was sent. For every command structure, message type and status that fit their fields,
  the frame \<open>acmp_send_response\<close> transmits has the size of an ACMP frame, and a receiver that decodes it with
  \<open>store_rcvd_cmd_resp\<close> gets the same structure with that type and status, whatever the buffer held before.\<close>

theorem acmp_response_round_trip:
  assumes "70 \<le> length (avb_1722_1_buf a)" and "length (entity_mac a) = 6" and "length (stream_dest_mac cr) = 6"
    and "ty < 16" and "status < 32"
  shows "\<exists>a' f. acmp_send_response ty cr status a = Some a' \<and> acmp_sent a' = acmp_sent a @ [f]
     \<and> GET_1722_1_MSG_TYPE (drop 14 f) = Some ty
     \<and> store_rcvd_cmd_resp (drop 14 f) = Some (cr\<lparr>message_type := ty, cr_status := status\<rparr>)"
proof -
  have "acmp_ok a" using assms by (simp add: acmp_ok_def)
  from send_response_spec [OF this assms(3-5)] show ?thesis by (fastforce simp: carries_def ETH_def)
qed

text \<open>An entity with the given identifier, tables of the given sizes and every state machine waiting.\<close>

definition entity :: "u64 \<Rightarrow> nat \<Rightarrow> talker_stream_info list \<Rightarrow> acmp" where
  "entity g listeners talkers = \<lparr>clk = (\<lambda>_. 0), clk_reads = 0, acmp_controller_state = ACMP_CONTROLLER_WAITING,
     acmp_talker_state = ACMP_TALKER_WAITING, acmp_listener_state = ACMP_LISTENER_WAITING, avb_1722_1_buf = replicate 72 0,
     entity_mac = replicate 6 0, my_guid = g, acmp_listener_streams = replicate listeners zero_listener_info,
     acmp_talker_streams = talkers, inflight = (\<lambda>_. replicate (2 * listeners) zero_inflight), centisecond_counter = (\<lambda>_. 0),
     inflight_timer = (\<lambda>_. \<lparr>tmr_timeout = 0, tmr_period = 0, tmr_active = 0, tmr_multiplier = 10\<rparr>), timeout_idx = (\<lambda>_. None),
     controller_cmd_resp = zero_cmd_resp, talker_rcvd = zero_cmd_resp, listener_rcvd = zero_cmd_resp,
     next_sequence_id = (\<lambda>_. 0), acmp_sent = []\<rparr>"

lemma entity_ok: "acmp_ok (entity g n ts)"
  by (simp add: acmp_ok_def entity_def)

theorem acmp_response_round_trip_witness:
  "\<exists>a' f. acmp_send_response 7 (zero_cmd_resp\<lparr>sequence_id := 300\<rparr>) 8 (entity 5 1 []) = Some a' \<and> acmp_sent a' = [f]"
  using acmp_response_round_trip [of "entity 5 1 []" "zero_cmd_resp\<lparr>sequence_id := 300\<rparr>" 7 8]
  by (auto simp: entity_def zero_cmd_resp_def)

section \<open>The listeners of a talker\<close>

text \<open>
  The table of connected listeners represents a set of pairs; entries with identifier zero are free. The table is well formed when
  no pair is listed twice and the counter is the number of pairs.
\<close>

definition live :: "talker_stream_info \<Rightarrow> (u64 \<times> u16) list" where
  "live t = map (\<lambda>p. (lp_guid p, lp_unique_id p)) (filter (\<lambda>p. lp_guid p \<noteq> 0) (connected_listeners t))"

definition connections :: "talker_stream_info \<Rightarrow> (u64 \<times> u16) set" where
  "connections t = set (live t)"

definition connections_ok :: "talker_stream_info \<Rightarrow> bool" where
  "connections_ok t \<longleftrightarrow> distinct (live t) \<and> ts_connection_count t = int (length (live t))"

lemma connections_count: "connections_ok t \<Longrightarrow> ts_connection_count t = int (card (connections t))"
  by (simp add: connections_ok_def connections_def distinct_card)

lemma mset_filter_update:
  assumes "i < length xs"
  shows "mset (filter P (xs[i := x])) + (if P (xs ! i) then {#xs ! i#} else {#}) = mset (filter P xs) + (if P x then {#x#} else {#})"
proof -
  have "mset (xs[i := x]) + {#xs ! i#} = mset xs + {#x#}"
    using assms by (simp add: mset_update add_mset_remove_trivial_eq nth_mem_mset)
  then have "filter_mset P (mset (xs[i := x]) + {#xs ! i#}) = filter_mset P (mset xs + {#x#})" by simp
  then show ?thesis by (simp add: mset_filter split: if_splits)
qed

lemma live_update:
  fixes t :: talker_stream_info and p :: listener_pair and c :: int
  assumes "i < length (connected_listeners t)"
  defines "t' \<equiv> t\<lparr>connected_listeners := (connected_listeners t)[i := p], ts_connection_count := c\<rparr>"
  shows "lp_guid (connected_listeners t ! i) = 0 \<Longrightarrow> lp_guid p \<noteq> 0 \<Longrightarrow> mset (live t') = mset ((lp_guid p, lp_unique_id p) # live t)"
    and "lp_guid (connected_listeners t ! i) \<noteq> 0 \<Longrightarrow> lp_guid p = 0 \<Longrightarrow>
      mset ((lp_guid (connected_listeners t ! i), lp_unique_id (connected_listeners t ! i)) # live t') = mset (live t)"
  using arg_cong [OF mset_filter_update [OF assms(1), of "\<lambda>p. lp_guid p \<noteq> 0" p],
    of "image_mset (\<lambda>p. (lp_guid p, lp_unique_id p))"]
  by (auto simp: live_def t'_def)

lemma connections_ok_perm:
  assumes "mset (live t') = mset (x # live t)" and "ts_connection_count t' = ts_connection_count t + 1"
  shows "connections t' = insert x (connections t)" and "connections_ok t' \<longleftrightarrow> connections_ok t \<and> x \<notin> connections t"
  using mset_eq_setD [OF assms(1)] mset_eq_imp_distinct_iff [OF assms(1)] mset_eq_length [OF assms(1)] assms(2)
  by (auto simp: connections_def connections_ok_def)

lemma in_connections: "g \<noteq> 0 \<Longrightarrow> (g, u) \<in> connections t \<longleftrightarrow> (\<exists>p \<in> set (connected_listeners t). lp_guid p = g \<and> lp_unique_id p = u)"
  by (auto simp: connections_def live_def)

lemma free_entry_iff:
  assumes "connections_ok t"
  shows "find_index (\<lambda>p. lp_guid p = 0) (connected_listeners t) \<noteq> None \<longleftrightarrow> card (connections t) < length (connected_listeners t)"
proof -
  have "card (connections t) = length (filter (\<lambda>p. lp_guid p \<noteq> 0) (connected_listeners t))"
    using assms by (simp add: connections_def connections_ok_def distinct_card) (simp add: live_def)
  also have "\<dots> < length (connected_listeners t) \<longleftrightarrow> (\<exists>p \<in> set (connected_listeners t). lp_guid p = 0)"
    using length_filter_less [of _ "connected_listeners t" "\<lambda>p. lp_guid p \<noteq> 0"] by (auto simp: not_less intro: ccontr)
  finally show ?thesis by (simp add: find_index_None) (metis in_set_conv_nth)
qed

lemma add_connection_refines:
  assumes "connections_ok t" and "g \<noteq> 0"
  shows "connections_ok (add_connection g u t) \<and> connections (add_connection g u t) =
      (if card (connections t) < length (connected_listeners t) then insert (g, u) (connections t) else connections t)"
proof (cases "(g, u) \<in> connections t")
  case True
  then have "add_connection g u t = t" using in_connections [OF assms(2)] by (simp add: add_connection_def)
  then show ?thesis using assms(1) True by (simp add: insert_absorb)
next
  case False
  then have n: "\<not> (\<exists>p \<in> set (connected_listeners t). lp_guid p = g \<and> lp_unique_id p = u)" using in_connections [OF assms(2)] by simp
  show ?thesis
  proof (cases "find_index (\<lambda>p. lp_guid p = 0) (connected_listeners t)")
    case None
    then show ?thesis using assms(1) n free_entry_iff [OF assms(1)] by (simp add: add_connection_def)
  next
    case (Some i)
    let ?p = "\<lparr>lp_guid = g, lp_unique_id = u\<rparr>"
    let ?t = "t\<lparr>connected_listeners := (connected_listeners t)[i := ?p], ts_connection_count := ts_connection_count t + 1\<rparr>"
    have t: "add_connection g u t = ?t" using n Some by (auto simp: add_connection_def)
    have i: "i < length (connected_listeners t)" "lp_guid (connected_listeners t ! i) = 0" using find_index_Some [OF Some] by simp_all
    have m: "mset (live ?t) = mset ((g, u) # live t)"
      using live_update(1) [OF i, of ?p "ts_connection_count t + 1"] assms(2) by simp
    show ?thesis unfolding t using connections_ok_perm [OF m] assms(1) False free_entry_iff [OF assms(1)] Some by simp
  qed
qed

lemma remove_connection_refines:
  assumes "connections_ok t" and "g \<noteq> 0"
  shows "connections_ok (remove_connection g u t) \<and> connections (remove_connection g u t) = connections t - {(g, u)}"
proof (cases "find_index (\<lambda>p. lp_guid p = g \<and> lp_unique_id p = u) (connected_listeners t)")
  case None
  then have "(g, u) \<notin> connections t" using in_connections [OF assms(2)] by (auto simp: find_index_None in_set_conv_nth)
  then show ?thesis using None assms(1) by (simp add: remove_connection_def)
next
  case (Some i)
  let ?p = "\<lparr>lp_guid = 0, lp_unique_id = 0\<rparr>"
  let ?t = "t\<lparr>connected_listeners := (connected_listeners t)[i := ?p], ts_connection_count := ts_connection_count t - 1\<rparr>"
  have t: "remove_connection g u t = ?t" using Some by (simp add: remove_connection_def)
  have i: "i < length (connected_listeners t)" "lp_guid (connected_listeners t ! i) = g" "lp_unique_id (connected_listeners t ! i) = u"
    using find_index_Some [OF Some] by simp_all
  have m: "mset (live t) = mset ((g, u) # live ?t)"
    using live_update(2) [OF i(1), of ?p "ts_connection_count t - 1"] i assms(2) by simp
  show ?thesis unfolding t using connections_ok_perm [OF m] assms(1) by auto
qed

text \<open>C12: the table of connected listeners implements a set. For a listener with a valid (non-zero) identifier, connecting inserts
  the listener into the set unless the table is full, disconnecting deletes exactly that listener, the counter of connections
  stays the size of the set, and the other talker streams are not affected.\<close>

theorem talker_connections_refine_set:
  assumes "n = unat (talker_unique_id (talker_rcvd a))" and "n < length (acmp_talker_streams a)"
    and "connections_ok (acmp_talker_streams a ! n)" and "g = listener_guid (talker_rcvd a)" and "g \<noteq> 0"
  shows "(\<exists>b. acmp_add_talker_stream_info a = Some b \<and> connections_ok (acmp_talker_streams b ! n)
       \<and> connections (acmp_talker_streams b ! n) =
           (if card (connections (acmp_talker_streams a ! n)) < length (connected_listeners (acmp_talker_streams a ! n))
            then insert (g, listener_unique_id (talker_rcvd a)) (connections (acmp_talker_streams a ! n))
            else connections (acmp_talker_streams a ! n))
       \<and> (\<forall>j. j \<noteq> n \<longrightarrow> acmp_talker_streams b ! j = acmp_talker_streams a ! j))
     \<and> (\<exists>b. acmp_remove_talker_stream_info a = Some b \<and> connections_ok (acmp_talker_streams b ! n)
       \<and> connections (acmp_talker_streams b ! n) = connections (acmp_talker_streams a ! n) - {(g, listener_unique_id (talker_rcvd a))}
       \<and> ts_connection_count (acmp_talker_streams b ! n) = int (card (connections (acmp_talker_streams b ! n)))
       \<and> (\<forall>j. j \<noteq> n \<longrightarrow> acmp_talker_streams b ! j = acmp_talker_streams a ! j))"
  using assms add_connection_refines [OF assms(3,5)] remove_connection_refines [OF assms(3,5)] connections_count
  by (simp add: acmp_add_talker_stream_info_def acmp_remove_talker_stream_info_def Let_def)

definition one_listener :: talker_stream_info where
  "one_listener = \<lparr>ts_stream_id = 9, ts_connection_count = 1, ts_destination_mac = replicate 6 0,
     connected_listeners = [\<lparr>lp_guid = 0, lp_unique_id = 0\<rparr>, \<lparr>lp_guid = 7, lp_unique_id = 3\<rparr>]\<rparr>"

lemma one_listener_ok: "connections_ok one_listener" "connections one_listener = {(7, 3)}"
  by (simp_all add: connections_ok_def connections_def live_def one_listener_def)

theorem talker_connections_refine_set_witness:
  "\<exists>b. acmp_remove_talker_stream_info ((entity 5 1 [one_listener])\<lparr>talker_rcvd := zero_cmd_resp\<lparr>listener_guid := 7, listener_unique_id := 3\<rparr>\<rparr>) = Some b
     \<and> connections (acmp_talker_streams b ! 0) = {}"
  using talker_connections_refine_set [THEN conjunct2, of 0 "(entity 5 1 [one_listener])\<lparr>talker_rcvd := zero_cmd_resp\<lparr>listener_guid := 7, listener_unique_id := 3\<rparr>\<rparr>" 7]
  by (auto simp: entity_def one_listener_ok zero_cmd_resp_def)

text \<open>C33: a disconnect from nobody stops a stream that has a listener. A Disconnect command whose listener identifier and
  number are zero matches a free entry of the table of connected listeners, so the counter goes down although no listener left. With
  one connected listener it becomes zero, and the talker disables its source while the listener is still recorded.\<close>

theorem zero_guid_disconnect_stops_stream:
  assumes "acmp_ok a" and "acmp_talker_state a = ACMP_TALKER_DISCONNECT"
    and "listener_guid (talker_rcvd a) = 0" and "listener_unique_id (talker_rcvd a) = 0"
    and "n = unat (talker_unique_id (talker_rcvd a))" and "n < length (acmp_talker_streams a)"
    and "connections (acmp_talker_streams a ! n) = {(g, u)}" and "connections_ok (acmp_talker_streams a ! n)"
    and "\<lparr>lp_guid = 0, lp_unique_id = 0\<rparr> \<in> set (connected_listeners (acmp_talker_streams a ! n))"
    and "length (ts_destination_mac (acmp_talker_streams a ! n)) = 6"
    and "get_source_state n m \<in> {Some STATE_POTENTIAL, Some STATE_ENABLED}"
    and "set_source_state srp n STATE_DISABLED m = Some (ok, m1)" and "set_source_vlan srp n 0 m1 = Some (ok', m2)"
  shows "\<exists>b. avb_1722_1_acmp_talker_periodic srp (a, m) = Some (b, m2)
     \<and> connections (acmp_talker_streams b ! n) = {(g, u)} \<and> ts_connection_count (acmp_talker_streams b ! n) = 0"
proof -
  let ?t = "acmp_talker_streams a ! n"
  have c: "ts_connection_count ?t = 1" using connections_count [OF assms(8)] assms(7) by simp
  obtain i where i: "find_index (\<lambda>p. lp_guid p = 0 \<and> lp_unique_id p = 0) (connected_listeners ?t) = Some i"
    using assms(9) find_index_None [of "\<lambda>p. lp_guid p = 0 \<and> lp_unique_id p = 0" "connected_listeners ?t"]
    by (cases "find_index (\<lambda>p. lp_guid p = 0 \<and> lp_unique_id p = 0) (connected_listeners ?t)") (auto simp: in_set_conv_nth)
  have e: "i < length (connected_listeners ?t)" "connected_listeners ?t ! i = \<lparr>lp_guid = 0, lp_unique_id = 0\<rparr>"
    using find_index_Some [OF i] by (simp_all add: listener_pair.equality)
  have t: "remove_connection 0 0 ?t = ?t\<lparr>ts_connection_count := 0\<rparr>"
    using i e c list_update_id [of "connected_listeners ?t" i] by (simp add: remove_connection_def)
  let ?a = "a\<lparr>acmp_talker_streams := (acmp_talker_streams a)[n := ?t\<lparr>ts_connection_count := 0\<rparr>]\<rparr>"
  let ?r = "(talker_rcvd a)\<lparr>cr_stream_id := ts_stream_id ?t, stream_dest_mac := ts_destination_mac ?t, connection_count := 0\<rparr>"
  have rm: "acmp_remove_talker_stream_info a = Some ?a" using assms(3-6) t by (simp add: acmp_remove_talker_stream_info_def Let_def)
  have hk: "avb_talker_on_listener_disconnect srp n 0 m = Some m2"
    using assms(11-13) by (auto simp: avb_talker_on_listener_disconnect_def ignore_result_def)
  have rs: "acmp_set_talker_response ?a = Some (?a\<lparr>talker_rcvd := ?r\<rparr>)"
    using assms(5,6) by (simp add: acmp_set_talker_response_def Let_def)
  have "acmp_ok (?a\<lparr>talker_rcvd := ?r\<rparr>)" using assms(1) by (simp add: acmp_ok_def)
  then obtain b f where "acmp_send_response ACMP_CMD_DISCONNECT_TX_RESPONSE ?r ACMP_STATUS_SUCCESS (?a\<lparr>talker_rcvd := ?r\<rparr>)
      = Some (?a\<lparr>talker_rcvd := ?r, avb_1722_1_buf := b, acmp_sent := acmp_sent a @ [f]\<rparr>)"
    using send_response_spec [of "?a\<lparr>talker_rcvd := ?r\<rparr>" ?r ACMP_CMD_DISCONNECT_TX_RESPONSE ACMP_STATUS_SUCCESS] assms(10)
    by (auto simp: acmp_messages ACMP_STATUS_SUCCESS_def)
  moreover have "connections (?t\<lparr>ts_connection_count := 0\<rparr>) = {(g, u)}" using assms(7) by (simp add: connections_def live_def)
  ultimately show ?thesis using assms(2,5,6) rm hk rs
    by (simp add: avb_1722_1_acmp_talker_periodic_def acmp_talker_valid_talker_unique_def Let_def)
qed

theorem zero_guid_disconnect_stops_stream_witness:
  "\<exists>b m2. avb_1722_1_acmp_talker_periodic idle_srp
       ((entity 5 1 [one_listener])\<lparr>acmp_talker_state := ACMP_TALKER_DISCONNECT\<rparr>, example_mgr STATE_POTENTIAL) = Some (b, m2)
     \<and> connections (acmp_talker_streams b ! 0) = {(7, 3)}"
proof -
  have "\<exists>ok m1 ok' m2. set_source_state idle_srp 0 STATE_DISABLED (example_mgr STATE_POTENTIAL) = Some (ok, m1)
     \<and> set_source_vlan idle_srp 0 0 m1 = Some (ok', m2)"
  proof -
    have "(case set_source_state idle_srp 0 STATE_DISABLED (example_mgr STATE_POTENTIAL) of None \<Rightarrow> False
       | Some (ok, m1) \<Rightarrow> set_source_vlan idle_srp 0 0 m1 \<noteq> None)" by code_simp
    then show ?thesis by (auto split: option.splits)
  qed
  then obtain ok m1 ok' m2 where "set_source_state idle_srp 0 STATE_DISABLED (example_mgr STATE_POTENTIAL) = Some (ok, m1)"
    "set_source_vlan idle_srp 0 0 m1 = Some (ok', m2)" by blast
  moreover have "get_source_state 0 (example_mgr STATE_POTENTIAL) = Some STATE_POTENTIAL"
    by (simp add: get_source_state_def get_source_info_def example_mgr_def example_source_def)
  moreover have "acmp_ok ((entity 5 1 [one_listener])\<lparr>acmp_talker_state := ACMP_TALKER_DISCONNECT\<rparr>)"
    by (simp add: acmp_ok_def entity_def)
  moreover have "length (ts_destination_mac one_listener) = 6"
     "\<lparr>lp_guid = 0, lp_unique_id = 0\<rparr> \<in> set (connected_listeners one_listener)" by (simp_all add: one_listener_def)
  ultimately show ?thesis
    using zero_guid_disconnect_stops_stream [of "(entity 5 1 [one_listener])\<lparr>acmp_talker_state := ACMP_TALKER_DISCONNECT\<rparr>" 0 7 3
      "example_mgr STATE_POTENTIAL" idle_srp ok m1 ok' m2]
    by (auto simp: entity_def zero_cmd_resp_def one_listener_ok)
qed

end
