(* ===== verification/Acmp_Connect.thy ===== *)
theory Acmp_Connect
  imports Acmp_Talker
begin

text \<open>
  The listener state machine under any sequence of received packets and polls, and the composition of a listener entity
  with a talker entity: the exchange of frames that connects them.
\<close>

section \<open>The listener state machine\<close>

text \<open>What an entity does: it receives packets and calls the three periodic functions, in any order.\<close>

datatype acmp_event = Packet bytes | Controller_Poll | Talker_Poll | Listener_Poll

definition acmp_step :: "'e mgr srp_if \<Rightarrow> acmp_event \<Rightarrow> acmp \<times> 'e mgr \<Rightarrow> (acmp \<times> 'e mgr) option" where
  "acmp_step srp ev am = (case ev of
     Packet pkt \<Rightarrow> do { a \<leftarrow> process_avb_1722_1_acmp_packet pkt (fst am); Some (a, snd am) }
   | Controller_Poll \<Rightarrow> do { a \<leftarrow> avb_1722_1_acmp_controller_periodic (fst am); Some (a, snd am) }
   | Talker_Poll \<Rightarrow> avb_1722_1_acmp_talker_periodic srp am
   | Listener_Poll \<Rightarrow> avb_1722_1_acmp_listener_periodic srp am)"

definition acmp_run :: "'e mgr srp_if \<Rightarrow> acmp_event list \<Rightarrow> acmp \<times> 'e mgr \<Rightarrow> (acmp \<times> 'e mgr) option" where
  "acmp_run srp evs = for_each evs (acmp_step srp)"

text \<open>The part of the state that only the listener changes.\<close>

definition listener_part :: "acmp \<Rightarrow> acmp_listener_state_t \<times> acmp_cmd_resp \<times> listener_stream_info list" where
  "listener_part a = (acmp_listener_state a, listener_rcvd a, acmp_listener_streams a)"

definition keeps_listener :: "acmp \<Rightarrow> acmp \<Rightarrow> bool" where
  "keeps_listener a b \<longleftrightarrow> listener_part b = listener_part a"

lemma keeps_listener_simps [simp]:
  "keeps_listener a (b\<lparr>avb_1722_1_buf := x1\<rparr>) = keeps_listener a b"
  "keeps_listener a (b\<lparr>acmp_sent := x2\<rparr>) = keeps_listener a b"
  "keeps_listener a (b\<lparr>inflight := x3\<rparr>) = keeps_listener a b"
  "keeps_listener a (b\<lparr>next_sequence_id := x4\<rparr>) = keeps_listener a b"
  "keeps_listener a (b\<lparr>talker_rcvd := x5\<rparr>) = keeps_listener a b"
  "keeps_listener a (b\<lparr>acmp_talker_state := x6\<rparr>) = keeps_listener a b"
  "keeps_listener a (b\<lparr>acmp_talker_streams := x7\<rparr>) = keeps_listener a b"
  "keeps_listener a (b\<lparr>controller_cmd_resp := x8\<rparr>) = keeps_listener a b"
  "keeps_listener a (b\<lparr>acmp_controller_state := x9\<rparr>) = keeps_listener a b"
  "keeps_listener a (b\<lparr>timeout_idx := x10\<rparr>) = keeps_listener a b"
  "keeps_listener a (b\<lparr>inflight_timer := x11\<rparr>) = keeps_listener a b"
  "keeps_listener a (b\<lparr>centisecond_counter := x12\<rparr>) = keeps_listener a b"
  "keeps_listener a (b\<lparr>clk_reads := x13\<rparr>) = keeps_listener a b"
  "keeps_listener a a"
  by (simp_all add: keeps_listener_def listener_part_def)

lemma keeps_listener_trans: "keeps_listener a b \<Longrightarrow> keeps_listener b c \<Longrightarrow> keeps_listener a c"
  by (simp add: keeps_listener_def)

text \<open>A listener stuck with a command for a stream it does not have.\<close>

definition wedged :: "acmp \<Rightarrow> bool" where
  "wedged a \<longleftrightarrow> acmp_listener_state a = ACMP_LISTENER_CONNECT_TX_RESPONSE \<and> \<not> acmp_listener_valid_listener_unique a"

lemma wedged_keeps: "wedged a \<Longrightarrow> keeps_listener a b \<Longrightarrow> wedged b"
  by (simp add: wedged_def keeps_listener_def listener_part_def acmp_listener_valid_listener_unique_def)

lemma packet_keeps_listener:
  assumes "acmp_listener_state a \<noteq> ACMP_LISTENER_WAITING"
  shows "post (process_avb_1722_1_acmp_packet pkt a) (keeps_listener a)"
  using assms
  by (auto simp: process_avb_1722_1_acmp_packet_def process_avb_1722_1_acmp_controller_packet_def Let_def
      process_avb_1722_1_acmp_talker_packet_def process_avb_1722_1_acmp_listener_packet_def post_simps intro!: post_any)

lemma send_keeps_listener:
  "post (avb_1722_1_create_acmp_packet cr ty status a) (keeps_listener a)"
  "post (acmp_transmit a) (keeps_listener a)"
  "post (acmp_send_response ty cr status a) (keeps_listener a)"
proof -
  show c: "post (avb_1722_1_create_acmp_packet cr ty status a) (keeps_listener a)" for a
    by (auto simp: avb_1722_1_create_acmp_packet_def post_simps intro!: post_any)
  show t: "post (acmp_transmit a) (keeps_listener a)" for a
    by (auto simp: acmp_transmit_def post_simps intro!: post_any)
  show "post (acmp_send_response ty cr status a) (keeps_listener a)"
    unfolding acmp_send_response_def post_simps
    by (rule post_call [OF c], rule post_call [OF t]) (erule (1) keeps_listener_trans)
qed

lemma retry_keeps_listener:
  assumes "acmp_listener_state a \<noteq> ACMP_LISTENER_WAITING"
  shows "post (acmp_send_command CONTROLLER ty (Some i) a) (keeps_listener a)"
proof -
  have st: "acmp_listener_state b \<noteq> ACMP_LISTENER_WAITING" if "keeps_listener a b" for b
    using assms that by (simp add: keeps_listener_def listener_part_def)
  have p: "post (process_avb_1722_1_acmp_packet pkt b) (keeps_listener a)" if "keeps_listener a b" for b pkt
    by (rule post_call [OF packet_keeps_listener [OF st [OF that]]]) (rule keeps_listener_trans [OF that])
  have c: "post (avb_1722_1_create_acmp_packet cr ty status b) (keeps_listener a)" if "keeps_listener a b" for b cr ty status
    by (rule post_call [OF send_keeps_listener(1)]) (rule keeps_listener_trans [OF that])
  have t: "post (acmp_transmit b) (keeps_listener a)" if "keeps_listener a b" for b
    by (rule post_call [OF send_keeps_listener(2)]) (rule keeps_listener_trans [OF that])
  have r: "post (acmp_set_inflight_retry e ty j b) (keeps_listener a)" if "keeps_listener a b" for b e ty j
    using that by (simp add: acmp_set_inflight_retry_def post_simps)
  show ?thesis
    by (simp add: acmp_send_command_def post_simps Let_def put_inflight_command_def)
      (auto intro!: post_call [OF c] post_call [OF t] post_call [OF p] r)
qed

lemma progress_keeps_listener: "keeps_listener a (acmp_progress_inflight_timer e a)"
  by (auto simp: acmp_progress_inflight_timer_def start_inflight_timer_def start_avb_timer_def
      avb_timer_expired_def get_local_time_def Let_def split: prod.splits if_splits)

lemma remove_inflight_keeps_listener: "keeps_listener a (snd (acmp_remove_inflight CONTROLLER a))"
  by (auto simp: acmp_remove_inflight_def Let_def split: option.splits)

lemma controller_keeps_listener:
  assumes "acmp_listener_state a \<noteq> ACMP_LISTENER_WAITING"
  shows "post (avb_1722_1_acmp_controller_periodic a) (keeps_listener a)"
proof -
  have "post (if if_retried c
      then Some (a\<lparr>inflight := (inflight a)(CONTROLLER := (inflight a CONTROLLER)[i := c\<lparr>if_in_use := False\<rparr>])\<rparr>)
      else acmp_send_command CONTROLLER (message_type (if_command c)) (Some i) a) (keeps_listener a)" for c i
    using retry_keeps_listener [OF assms] by (simp add: post_simps)
  then show ?thesis
    by (simp add: avb_1722_1_acmp_controller_periodic_def post_simps Let_def progress_keeps_listener
        remove_inflight_keeps_listener post_any split: acmp_controller_state_t.splits)
qed

lemma talker_operations_keep_listener:
  "post (acmp_add_talker_stream_info a) (keeps_listener a)"
  "post (acmp_remove_talker_stream_info a) (keeps_listener a)"
  "post (acmp_set_talker_response a) (keeps_listener a)"
  "post (acmp_talker_get_state a) (\<lambda>(_, b). keeps_listener a b)"
  "post (acmp_talker_get_connection a) (\<lambda>(_, b). keeps_listener a b)"
  "post (avb_talker_on_listener_connect srp n (a, m)) (\<lambda>(b, _). keeps_listener a b)"
proof -
  have "keeps_listener a (avb_1722_1_talker_set_stream_id n sid a)" for sid
    by (simp add: avb_1722_1_talker_set_stream_id_def)
  then show "post (avb_talker_on_listener_connect srp n (a, m)) (\<lambda>(b, _). keeps_listener a b)"
    by (simp add: avb_talker_on_listener_connect_def post_simps post_any)
qed (simp_all add: acmp_add_talker_stream_info_def acmp_remove_talker_stream_info_def acmp_set_talker_response_def
  acmp_talker_get_state_def acmp_talker_get_connection_def post_simps Let_def)

lemma talker_keeps_listener:
  "post (avb_1722_1_acmp_talker_periodic srp (a, m)) (\<lambda>(b, _). keeps_listener a b)"
proof -
  have tr: "post x Q" if "post x (keeps_listener b)" "keeps_listener a b" "\<And>c. keeps_listener a c \<Longrightarrow> Q c" for x b Q
    by (rule post_call [OF that(1)]) (rule that(3) [OF keeps_listener_trans [OF that(2)]])
  have tr1: "post x Q" if "post x (\<lambda>(c, _). keeps_listener b c)" "keeps_listener a b" "\<And>c r. keeps_listener a c \<Longrightarrow> Q (c, r)"
    for x :: "(acmp \<times> 'a mgr) option" and b Q
    by (rule post_call [OF that(1)]) (use that(2,3) keeps_listener_trans in auto)
  have tr2: "post x Q" if "post x (\<lambda>(_, c). keeps_listener b c)" "keeps_listener a b" "\<And>c r. keeps_listener a c \<Longrightarrow> Q (r, c)"
    for x :: "(u8 \<times> acmp) option" and b Q
    by (rule post_call [OF that(1)]) (use that(2,3) keeps_listener_trans in auto)
  note op = send_keeps_listener(3) [THEN tr] talker_operations_keep_listener(1-3) [THEN tr]
    talker_operations_keep_listener(6) [THEN tr1] talker_operations_keep_listener(4,5) [THEN tr2]
  show ?thesis
  proof (cases "acmp_talker_state a")
    case ACMP_TALKER_CONNECT
    then show ?thesis
      by (auto simp: avb_1722_1_acmp_talker_periodic_def post_simps intro!: op)
  next
    case ACMP_TALKER_DISCONNECT
    then show ?thesis
      apply (simp add: avb_1722_1_acmp_talker_periodic_def post_simps Let_def)
      apply (auto simp: post_simps intro!: op post_any [of "\<lambda>m. post (acmp_set_talker_response b) (f m)" for b f])
      done
  qed (auto simp: avb_1722_1_acmp_talker_periodic_def post_simps intro!: op)
qed

lemma wedged_step_keeps:
  assumes "wedged a"
  shows "post (acmp_step srp ev (a, m)) (\<lambda>(b, _). keeps_listener a b)"
proof -
  have st: "acmp_listener_state a \<noteq> ACMP_LISTENER_WAITING"
    using assms by (simp add: wedged_def)
  note keeps = packet_keeps_listener [OF st] controller_keeps_listener [OF st] talker_keeps_listener
  show ?thesis
  proof (cases ev)
    case Listener_Poll
    then show ?thesis
      using assms by (simp add: acmp_step_def wedged_def avb_1722_1_acmp_listener_periodic_def listener_connect_tx_response_def post_simps)
  qed (simp_all add: acmp_step_def post_simps keeps)
qed

lemma wedged_run_keeps:
  assumes "wedged a"
  shows "post (acmp_run srp evs (a, m)) (\<lambda>(b, _). keeps_listener a b)"
  unfolding acmp_run_def
proof (rule post_for_each)
  fix ev and s :: "acmp \<times> 'a mgr" assume "case s of (b, _) \<Rightarrow> keeps_listener a b"
  then obtain b k where s: "s = (b, k)" "keeps_listener a b" by (cases s) auto
  show "post (acmp_step srp ev s) (\<lambda>(b, _). keeps_listener a b)"
    unfolding s(1)
    by (rule post_call [OF wedged_step_keeps [OF wedged_keeps [OF assms s(2)]]]) (auto intro: keeps_listener_trans [OF s(2)])
qed simp

lemma polling_wedged: "wedged a \<Longrightarrow> acmp_run srp (replicate n Listener_Poll) (a, m) = Some (a, m)"
  by (induction n) (simp_all add: acmp_run_def acmp_step_def wedged_def avb_1722_1_acmp_listener_periodic_def listener_connect_tx_response_def)

text \<open>C32: one response for a stream that does not exist stops the listener for good. A Connect TX response with this entity's
  identifier and a listener number out of range is stored, the state machine enters the state that handles it, and that state
  leaves without a transition when the number is not valid: polling changes nothing, and after any sequence of received
  packets and polls, the listener is still in that state, with the same stream table.\<close>

theorem bad_response_stops_listener:
  assumes "acmp_listener_state a = ACMP_LISTENER_WAITING"
    and "GET_1722_1_MSG_TYPE pkt = Some ACMP_CMD_CONNECT_TX_RESPONSE" and "store_rcvd_cmd_resp pkt = Some cr"
    and "listener_guid cr = my_guid a" and "length (acmp_listener_streams a) \<le> unat (listener_unique_id cr)"
  shows "\<exists>b. process_avb_1722_1_acmp_packet pkt a = Some b
     \<and> acmp_run srp (replicate n Listener_Poll) (b, m) = Some (b, m)
     \<and> (case acmp_run srp evs (b, m) of None \<Rightarrow> True
        | Some (c, _) \<Rightarrow> acmp_listener_state c = ACMP_LISTENER_CONNECT_TX_RESPONSE
            \<and> acmp_listener_streams c = acmp_listener_streams a)"
proof -
  let ?b = "a\<lparr>listener_rcvd := cr, acmp_listener_state := ACMP_LISTENER_CONNECT_TX_RESPONSE\<rparr>"
  have "process_avb_1722_1_acmp_packet pkt a = Some ?b"
    using assms by (simp add: process_avb_1722_1_acmp_packet_def listener_receives acmp_messages)
  moreover have w: "wedged ?b"
    using assms(5) by (simp add: wedged_def acmp_listener_valid_listener_unique_def)
  ultimately show ?thesis
    using polling_wedged [OF w, of srp n m] wedged_run_keeps [OF w, of srp evs m]
    by (auto simp: post_def keeps_listener_def listener_part_def split: option.splits)
qed

theorem bad_response_stops_listener_witness:
  "\<exists>f b. acmp_send_response ACMP_CMD_CONNECT_TX_RESPONSE (zero_cmd_resp\<lparr>listener_guid := 5, listener_unique_id := 1\<rparr>)
       ACMP_STATUS_SUCCESS (entity 7 1 []) = Some ((entity 7 1 [])\<lparr>avb_1722_1_buf := b, acmp_sent := [f]\<rparr>)
     \<and> (\<exists>c. process_avb_1722_1_acmp_packet (drop ETH f) (entity 5 1 []) = Some c
          \<and> acmp_run idle_srp (replicate 9 Listener_Poll) (c, example_mgr STATE_DISABLED) = Some (c, example_mgr STATE_DISABLED))"
proof -
  let ?cr = "zero_cmd_resp\<lparr>listener_guid := 5, listener_unique_id := 1\<rparr>"
  obtain b f where f: "acmp_send_response ACMP_CMD_CONNECT_TX_RESPONSE ?cr ACMP_STATUS_SUCCESS (entity 7 1 [])
      = Some ((entity 7 1 [])\<lparr>avb_1722_1_buf := b, acmp_sent := [f]\<rparr>)" "carries f ACMP_CMD_CONNECT_TX_RESPONSE ACMP_STATUS_SUCCESS ?cr"
    using send_response_spec [OF entity_ok, of ?cr ACMP_CMD_CONNECT_TX_RESPONSE ACMP_STATUS_SUCCESS 7 1 "[]"]
    by (auto simp: zero_cmd_resp_def acmp_messages ACMP_STATUS_SUCCESS_def entity_def)
  then have "\<exists>c. process_avb_1722_1_acmp_packet (drop ETH f) (entity 5 1 []) = Some c
      \<and> acmp_run idle_srp (replicate 9 Listener_Poll) (c, example_mgr STATE_DISABLED) = Some (c, example_mgr STATE_DISABLED)"
    using bad_response_stops_listener [of "entity 5 1 []" "drop ETH f" "?cr\<lparr>message_type := ACMP_CMD_CONNECT_TX_RESPONSE,
      cr_status := ACMP_STATUS_SUCCESS\<rparr>" idle_srp 9 "example_mgr STATE_DISABLED" "[]"]
    unfolding carries_def by (auto simp: entity_def)
  then show ?thesis using f(1) by blast
qed

section \<open>Connecting a listener to a talker\<close>

lemma find_index_update:
  assumes "\<forall>x \<in> set xs. \<not> p x" and "i < length xs" and "p y"
  shows "find_index p (xs[i := y]) = Some i"
proof (cases "find_index p (xs[i := y])")
  case None
  then show ?thesis using assms by (auto simp: find_index_None)
next
  case (Some j)
  then show ?thesis using find_index_Some [OF Some] assms by (auto simp: nth_list_update split: if_splits)
qed

lemma filter_update_unused:
  assumes "i < length xs" and "\<not> p (xs ! i)" and "\<not> p y"
  shows "filter p (xs[i := y]) = filter p xs"
  using assms by (subst (2) id_take_nth_drop [OF assms(1)]) (simp add: upd_conv_take_nth_drop)

lemma split_stream_id_join [simp]:
  "split_stream_id (ucast (snd sid) + push_bit 32 (ucast (fst sid))) = sid" for sid :: Avb_Manager.stream_id
proof -
  obtain h l where sid: "sid = (h, l)" by (cases sid)
  have l: "\<not> bit l (32 + n)" "32 \<le> n \<Longrightarrow> \<not> bit l n" for n using bit_imp_le_length [of l] by fastforce+
  then have "(ucast l :: u64) + push_bit 32 (ucast h) = or (ucast l) (push_bit 32 (ucast h))"
    by (intro disjunctive_add) (auto simp: bit_simps)
  then show ?thesis using sid by (auto simp: split_stream_id_def bit_simps l intro!: bit_word_eqI)
qed

text \<open>The listener forwards a Connect command to the talker, under a sequence number of its own, and keeps the command in flight.\<close>

lemma listener_forwards_connect:
  assumes "acmp_ok a" and "acmp_listener_state a = ACMP_LISTENER_CONNECT_RX_COMMAND" and "listener_rcvd a = cr"
    and "unat (listener_unique_id cr) < length (acmp_listener_streams a)"
    and "get_sink_state (unat (listener_unique_id cr)) m = Some STATE_DISABLED"
    and "talker_guid cr \<noteq> my_guid a" and "length (stream_dest_mac cr) = 6"
    and "find_index (\<lambda>c. \<not> if_in_use c) (inflight a LISTENER) = Some i"
    and "s = next_sequence_id a LISTENER"
  shows "\<exists>b f e q. avb_1722_1_acmp_listener_periodic srp (a, m) = Some (a\<lparr>listener_rcvd := cr\<lparr>sequence_id := s\<rparr>,
       next_sequence_id := q, avb_1722_1_buf := b, acmp_sent := acmp_sent a @ [f],
       inflight := (inflight a)(LISTENER := (inflight a LISTENER)[i := e]), acmp_listener_state := ACMP_LISTENER_WAITING\<rparr>, m)
     \<and> 70 \<le> length b \<and> carries f ACMP_CMD_CONNECT_TX_COMMAND ACMP_STATUS_SUCCESS (cr\<lparr>sequence_id := s\<rparr>)
     \<and> if_in_use e \<and> sequence_id (if_command e) = s \<and> original_sequence_id e = sequence_id cr"
proof -
  let ?cr = "cr\<lparr>sequence_id := s\<rparr>"
  let ?a = "a\<lparr>listener_rcvd := ?cr, next_sequence_id := (next_sequence_id a)(LISTENER := s + 1)\<rparr>"
  have "acmp_ok ?a" using assms(1) by (simp add: acmp_ok_def)
  then obtain b where b: "avb_1722_1_create_acmp_packet ?cr ACMP_CMD_CONNECT_TX_COMMAND ACMP_STATUS_SUCCESS ?a = Some (?a\<lparr>avb_1722_1_buf := b\<rparr>)"
     "70 \<le> length b" "GET_1722_1_MSG_TYPE (drop ETH b) = Some ACMP_CMD_CONNECT_TX_COMMAND"
     "store_rcvd_cmd_resp (drop ETH b) = Some (?cr\<lparr>message_type := ACMP_CMD_CONNECT_TX_COMMAND, cr_status := ACMP_STATUS_SUCCESS\<rparr>)"
    using create_acmp_packet_spec [of ?a ?cr ACMP_CMD_CONNECT_TX_COMMAND ACMP_STATUS_SUCCESS] assms(7)
    by (auto simp: acmp_messages ACMP_STATUS_SUCCESS_def)
  have ex: "acmp_listener_is_connected False a m = Some False"
    using assms(3-5) by (simp add: acmp_listener_is_connected_def Let_def)
  have p: "process_avb_1722_1_acmp_packet (drop ETH b) (?a\<lparr>avb_1722_1_buf := b, acmp_sent := fs\<rparr>) = Some (?a\<lparr>avb_1722_1_buf := b, acmp_sent := fs\<rparr>)" for fs
    using b(3,4) assms(6) by (simp add: process_avb_1722_1_acmp_packet_def talker_receives acmp_messages)
  define \<tau> where "\<tau> = if_timeout (acmp_update_inflight_timeout LISTENER zero_inflight ACMP_CMD_CONNECT_TX_COMMAND a)"
  have u: "acmp_update_inflight_timeout LISTENER c ACMP_CMD_CONNECT_TX_COMMAND a' = c\<lparr>if_timeout := \<tau>\<rparr>"
    if "centisecond_counter a' = centisecond_counter a" for c a'
    using that by (simp add: acmp_update_inflight_timeout_def \<tau>_def)
  let ?e = "(inflight a LISTENER ! i)\<lparr>if_in_use := True, if_retried := False, if_command := ?cr\<lparr>message_type := ACMP_CMD_CONNECT_TX_COMMAND\<rparr>,
    original_sequence_id := sequence_id cr, if_timeout := \<tau>\<rparr>"
  have "acmp_send_command LISTENER ACMP_CMD_CONNECT_TX_COMMAND None a = Some (?a\<lparr>avb_1722_1_buf := b,
       acmp_sent := acmp_sent a @ [take 70 b], inflight := (inflight a)(LISTENER := (inflight a LISTENER)[i := ?e])\<rparr>)"
    using assms(3,8,9) b(1,2) p by (simp add: acmp_send_command_def current_command_def put_current_command_def Let_def
      transmit_eq acmp_add_inflight_def u)
  then show ?thesis using assms(2-4) ex b(2-4)
    by (intro exI [of _ b] exI [of _ "take 70 b"] exI [of _ ?e] exI [of _ "(next_sequence_id a)(LISTENER := s + 1)"])
      (simp add: avb_1722_1_acmp_listener_periodic_def listener_connect_rx_command_def acmp_listener_valid_listener_unique_def
      carries_def packet_prefix)
qed

text \<open>The talker records the listener, starts its source and answers with the identifier of the stream.\<close>

lemma talker_answers_connect:
  assumes "acmp_ok a" and "acmp_talker_state a = ACMP_TALKER_CONNECT" and "talker_rcvd a = cr"
    and "n = unat (talker_unique_id cr)" and "n < length (acmp_talker_streams a)"
    and "get_source_state n m = Some STATE_DISABLED" and "get_source_id n m = Some sid"
    and "set_source_state srp n STATE_POTENTIAL m = Some (ok, m')"
    and "t = (add_connection (listener_guid cr) (listener_unique_id cr) (acmp_talker_streams a ! n))
      \<lparr>ts_stream_id := ucast (snd sid) + push_bit 32 (ucast (fst sid))\<rparr>" and "length (ts_destination_mac t) = 6"
  shows "\<exists>b f. avb_1722_1_acmp_talker_periodic srp (a, m) = Some (b, m') \<and> acmp_sent b = acmp_sent a @ [f]
     \<and> carries f ACMP_CMD_CONNECT_TX_RESPONSE ACMP_STATUS_SUCCESS (cr\<lparr>cr_stream_id := ts_stream_id t,
         stream_dest_mac := ts_destination_mac t, connection_count := word_of_int (ts_connection_count t)\<rparr>)
     \<and> acmp_talker_state b = ACMP_TALKER_WAITING \<and> acmp_talker_streams b = (acmp_talker_streams a)[n := t]"
proof -
  let ?t = "add_connection (listener_guid cr) (listener_unique_id cr) (acmp_talker_streams a ! n)"
  let ?r = "cr\<lparr>cr_stream_id := ts_stream_id t, stream_dest_mac := ts_destination_mac t, connection_count := word_of_int (ts_connection_count t)\<rparr>"
  let ?a = "a\<lparr>acmp_talker_streams := (acmp_talker_streams a)[n := t]\<rparr>"
  have ad: "acmp_add_talker_stream_info a = Some (a\<lparr>acmp_talker_streams := (acmp_talker_streams a)[n := ?t]\<rparr>)"
    using assms(3-5) by (simp add: acmp_add_talker_stream_info_def Let_def)
  have hk: "avb_talker_on_listener_connect srp n (a\<lparr>acmp_talker_streams := (acmp_talker_streams a)[n := ?t]\<rparr>, m) = Some (?a, m')"
    using assms(5-9) by (simp add: avb_talker_on_listener_connect_def ignore_result_def avb_1722_1_talker_set_stream_id_def)
  have rs: "acmp_set_talker_response ?a = Some (?a\<lparr>talker_rcvd := ?r\<rparr>)"
    using assms(3-5) by (simp add: acmp_set_talker_response_def Let_def)
  have "acmp_ok (?a\<lparr>talker_rcvd := ?r\<rparr>)" using assms(1) by (simp add: acmp_ok_def)
  then obtain b f where "acmp_send_response ACMP_CMD_CONNECT_TX_RESPONSE ?r ACMP_STATUS_SUCCESS (?a\<lparr>talker_rcvd := ?r\<rparr>)
      = Some (?a\<lparr>talker_rcvd := ?r, avb_1722_1_buf := b, acmp_sent := acmp_sent a @ [f]\<rparr>)"
      "carries f ACMP_CMD_CONNECT_TX_RESPONSE ACMP_STATUS_SUCCESS ?r"
    using send_response_spec [of "?a\<lparr>talker_rcvd := ?r\<rparr>" ?r ACMP_CMD_CONNECT_TX_RESPONSE ACMP_STATUS_SUCCESS] assms(10)
    by (auto simp: acmp_messages ACMP_STATUS_SUCCESS_def)
  then show ?thesis using assms(2-5) ad hk rs
    by (simp add: avb_1722_1_acmp_talker_periodic_def acmp_talker_valid_talker_unique_def Let_def)
qed

text \<open>The listener finds the command in flight, connects its sink and answers the controller under the controller's sequence number.\<close>

lemma listener_completes_connect:
  assumes "acmp_ok a" and "acmp_listener_state a = ACMP_LISTENER_CONNECT_TX_RESPONSE" and "listener_rcvd a = r"
    and "k = unat (listener_unique_id r)" and "k < length (acmp_listener_streams a)"
    and "acmp_get_inflight_from_sequence_id LISTENER (sequence_id r) a = Some i"
    and "cr_flags r AND ACMP_FLAGS_CLASS_B = 0" and "cr_flags r AND ACMP_FLAGS_FAST_CONNECT = 0" and "length (stream_dest_mac r) = 6"
    and "avb_listener_on_talker_connect srp k (stream_dest_mac r) (split_stream_id (cr_stream_id r)) (cr_vlan_id r) m
      = Some (ACMP_STATUS_SUCCESS, m')"
  shows "\<exists>b f. avb_1722_1_acmp_listener_periodic srp (a, m) = Some (b, m') \<and> acmp_sent b = acmp_sent a @ [f]
     \<and> carries f ACMP_CMD_CONNECT_RX_RESPONSE ACMP_STATUS_SUCCESS (r\<lparr>sequence_id := original_sequence_id (inflight a LISTENER ! i)\<rparr>)
     \<and> acmp_listener_state b = ACMP_LISTENER_WAITING
     \<and> acmp_listener_streams b = (acmp_listener_streams a)[k := \<lparr>ls_talker_guid = talker_guid r, ls_talker_unique_id = talker_unique_id r,
         ls_connected = 1, ls_stream_id = cr_stream_id r, ls_destination_mac = stream_dest_mac r\<rparr>]
     \<and> inflight b LISTENER = (inflight a LISTENER)[i := (inflight a LISTENER ! i)\<lparr>if_in_use := False\<rparr>]"
proof -
  let ?l = "(inflight a LISTENER)[i := (inflight a LISTENER ! i)\<lparr>if_in_use := False\<rparr>]"
  let ?r = "r\<lparr>sequence_id := original_sequence_id (inflight a LISTENER ! i), cr_status := ACMP_STATUS_SUCCESS\<rparr>"
  let ?a = "a\<lparr>inflight := (inflight a)(LISTENER := ?l), listener_rcvd := ?r\<rparr>"
  have i: "i < length (inflight a LISTENER)"
    using assms(6) find_index_Some by (fastforce simp: acmp_get_inflight_from_sequence_id_def)
  have rm: "acmp_remove_inflight LISTENER a = (Some i, a\<lparr>inflight := (inflight a)(LISTENER := ?l)\<rparr>)"
    using assms(3,6) by (simp add: acmp_remove_inflight_def current_command_def)
  have "acmp_ok ?a" using assms(1) by (simp add: acmp_ok_def)
  then obtain b f where f: "acmp_send_response ACMP_CMD_CONNECT_RX_RESPONSE ?r ACMP_STATUS_SUCCESS ?a
      = Some (?a\<lparr>avb_1722_1_buf := b, acmp_sent := acmp_sent a @ [f]\<rparr>)"
      "carries f ACMP_CMD_CONNECT_RX_RESPONSE ACMP_STATUS_SUCCESS ?r"
    using send_response_spec [of ?a ?r ACMP_CMD_CONNECT_RX_RESPONSE ACMP_STATUS_SUCCESS] assms(9)
    by (auto simp: acmp_messages ACMP_STATUS_SUCCESS_def)
  then show ?thesis using assms(2-5,7,8,10) rm i
    by (simp add: avb_1722_1_acmp_listener_periodic_def listener_connect_tx_response_def acmp_listener_valid_listener_unique_def
      listener_connected_def Let_def acmp_add_listener_stream_info_def carries_def)
qed

text \<open>The same with the reception of the frame that causes it.\<close>

lemma talker_handles_connect:
  assumes "acmp_ok T" and "acmp_talker_state T = ACMP_TALKER_WAITING" and "carries f1 ACMP_CMD_CONNECT_TX_COMMAND status cr"
    and "talker_guid cr = my_guid T" and "n = unat (talker_unique_id cr)" and "n < length (acmp_talker_streams T)"
    and "get_source_state n m = Some STATE_DISABLED" and "get_source_id n m = Some sid"
    and "set_source_state srp n STATE_POTENTIAL m = Some (ok, m')"
    and "connections_ok (acmp_talker_streams T ! n)" and "listener_guid cr \<noteq> 0"
    and "card (connections (acmp_talker_streams T ! n)) < length (connected_listeners (acmp_talker_streams T ! n))"
    and "mac = ts_destination_mac (acmp_talker_streams T ! n)" and "length mac = 6"
  shows "\<exists>T1 T2 f2 u c. process_avb_1722_1_acmp_packet (drop ETH f1) T = Some T1
     \<and> avb_1722_1_acmp_talker_periodic srp (T1, m) = Some (T2, m') \<and> acmp_sent T2 = acmp_sent T @ [f2]
     \<and> carries f2 ACMP_CMD_CONNECT_TX_RESPONSE ACMP_STATUS_SUCCESS (cr\<lparr>cr_stream_id := u, stream_dest_mac := mac, connection_count := c\<rparr>)
     \<and> split_stream_id u = sid \<and> acmp_talker_state T2 = ACMP_TALKER_WAITING
     \<and> connections (acmp_talker_streams T2 ! n) = insert (listener_guid cr, listener_unique_id cr) (connections (acmp_talker_streams T ! n))"
proof -
  let ?cr = "cr\<lparr>message_type := ACMP_CMD_CONNECT_TX_COMMAND, cr_status := status\<rparr>"
  let ?T1 = "T\<lparr>talker_rcvd := ?cr, acmp_talker_state := ACMP_TALKER_CONNECT\<rparr>"
  define t where "t = (add_connection (listener_guid cr) (listener_unique_id cr) (acmp_talker_streams T ! n))
      \<lparr>ts_stream_id := ucast (snd sid) + push_bit 32 (ucast (fst sid))\<rparr>"
  have mac: "ts_destination_mac t = mac" using assms(13) by (simp add: t_def add_connection_def split: option.splits)
  have con: "connections t = insert (listener_guid cr, listener_unique_id cr) (connections (acmp_talker_streams T ! n))"
    using add_connection_refines [OF assms(10,11)] assms(12) by (simp add: t_def connections_def live_def)
  have T1: "process_avb_1722_1_acmp_packet (drop ETH f1) T = Some ?T1"
    using assms(2-4) by (simp add: carries_def process_avb_1722_1_acmp_packet_def talker_receives acmp_messages)
  obtain T2 f2 where "avb_1722_1_acmp_talker_periodic srp (?T1, m) = Some (T2, m')" "acmp_sent T2 = acmp_sent T @ [f2]"
     "carries f2 ACMP_CMD_CONNECT_TX_RESPONSE ACMP_STATUS_SUCCESS (?cr\<lparr>cr_stream_id := ts_stream_id t,
         stream_dest_mac := mac, connection_count := word_of_int (ts_connection_count t)\<rparr>)"
     "acmp_talker_state T2 = ACMP_TALKER_WAITING" "acmp_talker_streams T2 = (acmp_talker_streams T)[n := t]"
    using talker_answers_connect [of ?T1 ?cr n m sid srp ok m' t] assms(1,5-9,14) mac by (auto simp: acmp_ok_def t_def)
  then show ?thesis
    by (intro exI [of _ ?T1] exI [of _ T2] exI [of _ f2] exI [of _ "ts_stream_id t"] exI [of _ "word_of_int (ts_connection_count t)"])
      (use T1 con assms(6) in \<open>simp add: carries_def t_def\<close>)
qed

lemma listener_handles_response:
  assumes "acmp_ok L" and "acmp_listener_state L = ACMP_LISTENER_WAITING"
    and "carries f ACMP_CMD_CONNECT_TX_RESPONSE status r" and "listener_guid r = my_guid L"
    and "k = unat (listener_unique_id r)" and "k < length (acmp_listener_streams L)"
    and "acmp_get_inflight_from_sequence_id LISTENER (sequence_id r) L = Some i"
    and "cr_flags r AND ACMP_FLAGS_CLASS_B = 0" and "cr_flags r AND ACMP_FLAGS_FAST_CONNECT = 0" and "length (stream_dest_mac r) = 6"
    and "avb_listener_on_talker_connect srp k (stream_dest_mac r) (split_stream_id (cr_stream_id r)) (cr_vlan_id r) m
      = Some (ACMP_STATUS_SUCCESS, m')"
  shows "\<exists>L2 L3 f3. process_avb_1722_1_acmp_packet (drop ETH f) L = Some L2
     \<and> avb_1722_1_acmp_listener_periodic srp (L2, m) = Some (L3, m') \<and> acmp_sent L3 = acmp_sent L @ [f3]
     \<and> carries f3 ACMP_CMD_CONNECT_RX_RESPONSE ACMP_STATUS_SUCCESS (r\<lparr>sequence_id := original_sequence_id (inflight L LISTENER ! i)\<rparr>)
     \<and> acmp_listener_state L3 = ACMP_LISTENER_WAITING
     \<and> acmp_listener_streams L3 ! k = \<lparr>ls_talker_guid = talker_guid r, ls_talker_unique_id = talker_unique_id r,
         ls_connected = 1, ls_stream_id = cr_stream_id r, ls_destination_mac = stream_dest_mac r\<rparr>
     \<and> inflight L3 LISTENER = (inflight L LISTENER)[i := (inflight L LISTENER ! i)\<lparr>if_in_use := False\<rparr>]"
proof -
  let ?r = "r\<lparr>message_type := ACMP_CMD_CONNECT_TX_RESPONSE, cr_status := status\<rparr>"
  let ?L2 = "L\<lparr>listener_rcvd := ?r, acmp_listener_state := ACMP_LISTENER_CONNECT_TX_RESPONSE\<rparr>"
  have L2: "process_avb_1722_1_acmp_packet (drop ETH f) L = Some ?L2"
    using assms(2-4) by (simp add: carries_def process_avb_1722_1_acmp_packet_def listener_receives acmp_messages)
  have fd: "acmp_get_inflight_from_sequence_id LISTENER (sequence_id r) ?L2 = Some i"
    using assms(7) by (simp add: acmp_get_inflight_from_sequence_id_def)
  show ?thesis
    using listener_completes_connect [of ?L2 ?r k i srp m m'] assms(1,5,6,8-11) fd L2 by (auto simp: acmp_ok_def carries_def)
qed

text \<open>C8: the connection handshake between two entities. A listener \<open>L\<close> has a Connect command from a controller for its disabled
  sink, naming a talker \<open>T\<close>. Then it sends a frame; the talker, given that frame and polled, answers with a frame; the
  listener, given that one and polled, answers the controller. At the end both state machines wait again, the controller's answer is a success
  under its own sequence number with the stream identifier of the talker's source, the listener's table names the talker and the stream, the
  talker lists the listener among its connections, and the listener has no more commands in flight than before.\<close>

theorem connect_handshake:
  assumes "acmp_ok L" and "acmp_ok T" and "acmp_listener_state L = ACMP_LISTENER_CONNECT_RX_COMMAND" and "acmp_talker_state T = ACMP_TALKER_WAITING"
    and "listener_rcvd L = cr" and "listener_guid cr = my_guid L" and "talker_guid cr = my_guid T" and "my_guid T \<noteq> my_guid L" and "my_guid L \<noteq> 0"
    and "k = unat (listener_unique_id cr)" and "k < length (acmp_listener_streams L)" and "get_sink_state k mL = Some STATE_DISABLED"
    and "length (stream_dest_mac cr) = 6" and "cr_flags cr AND ACMP_FLAGS_CLASS_B = 0" and "cr_flags cr AND ACMP_FLAGS_FAST_CONNECT = 0"
    and "\<exists>c \<in> set (inflight L LISTENER). \<not> if_in_use c"
    and "\<forall>c \<in> set (inflight L LISTENER). if_in_use c \<longrightarrow> sequence_id (if_command c) \<noteq> next_sequence_id L LISTENER"
    and "n = unat (talker_unique_id cr)" and "n < length (acmp_talker_streams T)" and "connections_ok (acmp_talker_streams T ! n)"
    and "card (connections (acmp_talker_streams T ! n)) < length (connected_listeners (acmp_talker_streams T ! n))"
    and "mac = ts_destination_mac (acmp_talker_streams T ! n)" and "length mac = 6"
    and "get_source_state n mT = Some STATE_DISABLED" and "get_source_id n mT = Some sid"
    and "set_source_state srpT n STATE_POTENTIAL mT = Some (ok, mT')"
    and "avb_listener_on_talker_connect srpL k mac sid (cr_vlan_id cr) mL = Some (ACMP_STATUS_SUCCESS, mL')"
  shows "\<exists>L1 f1 T1 T2 f2 L2 L3 f3 r. avb_1722_1_acmp_listener_periodic srpL (L, mL) = Some (L1, mL) \<and> acmp_sent L1 = acmp_sent L @ [f1]
     \<and> process_avb_1722_1_acmp_packet (drop ETH f1) T = Some T1
     \<and> avb_1722_1_acmp_talker_periodic srpT (T1, mT) = Some (T2, mT') \<and> acmp_sent T2 = acmp_sent T @ [f2]
     \<and> process_avb_1722_1_acmp_packet (drop ETH f2) L1 = Some L2
     \<and> avb_1722_1_acmp_listener_periodic srpL (L2, mL) = Some (L3, mL') \<and> acmp_sent L3 = acmp_sent L @ [f1, f3]
     \<and> acmp_listener_state L3 = ACMP_LISTENER_WAITING \<and> acmp_talker_state T2 = ACMP_TALKER_WAITING
     \<and> carries f3 ACMP_CMD_CONNECT_RX_RESPONSE ACMP_STATUS_SUCCESS r \<and> sequence_id r = sequence_id cr
     \<and> controller_guid r = controller_guid cr \<and> split_stream_id (cr_stream_id r) = sid
     \<and> acmp_listener_streams L3 ! k = \<lparr>ls_talker_guid = my_guid T, ls_talker_unique_id = talker_unique_id cr, ls_connected = 1,
         ls_stream_id = cr_stream_id r, ls_destination_mac = mac\<rparr>
     \<and> connections (acmp_talker_streams T2 ! n) = insert (my_guid L, listener_unique_id cr) (connections (acmp_talker_streams T ! n))
     \<and> filter if_in_use (inflight L3 LISTENER) = filter if_in_use (inflight L LISTENER)"
proof -
  obtain i where i: "find_index (\<lambda>c. \<not> if_in_use c) (inflight L LISTENER) = Some i"
    using assms(16) find_index_None [of "\<lambda>c. \<not> if_in_use c" "inflight L LISTENER"]
    by (cases "find_index (\<lambda>c. \<not> if_in_use c) (inflight L LISTENER)") (auto simp: in_set_conv_nth)
  note i' = find_index_Some [OF i]
  let ?s = "next_sequence_id L LISTENER"
  have "unat (listener_unique_id cr) < length (acmp_listener_streams L)" "get_sink_state (unat (listener_unique_id cr)) mL = Some STATE_DISABLED"
    "talker_guid cr \<noteq> my_guid L" using assms(7,8,10-12) by simp_all
  from listener_forwards_connect [OF assms(1,3,5) this assms(13) i refl, of srpL]
  obtain b f1 e q where L1: "avb_1722_1_acmp_listener_periodic srpL (L, mL) = Some (L\<lparr>listener_rcvd := cr\<lparr>sequence_id := ?s\<rparr>,
       next_sequence_id := q, avb_1722_1_buf := b, acmp_sent := acmp_sent L @ [f1],
       inflight := (inflight L)(LISTENER := (inflight L LISTENER)[i := e]), acmp_listener_state := ACMP_LISTENER_WAITING\<rparr>, mL)"
     "70 \<le> length b" "carries f1 ACMP_CMD_CONNECT_TX_COMMAND ACMP_STATUS_SUCCESS (cr\<lparr>sequence_id := ?s\<rparr>)"
     "if_in_use e" "sequence_id (if_command e) = ?s" "original_sequence_id e = sequence_id cr" by blast
  let ?L1 = "L\<lparr>listener_rcvd := cr\<lparr>sequence_id := ?s\<rparr>, next_sequence_id := q, avb_1722_1_buf := b, acmp_sent := acmp_sent L @ [f1],
       inflight := (inflight L)(LISTENER := (inflight L LISTENER)[i := e]), acmp_listener_state := ACMP_LISTENER_WAITING\<rparr>"
  obtain T1 T2 f2 u c where T: "process_avb_1722_1_acmp_packet (drop ETH f1) T = Some T1"
     "avb_1722_1_acmp_talker_periodic srpT (T1, mT) = Some (T2, mT')" "acmp_sent T2 = acmp_sent T @ [f2]"
     "carries f2 ACMP_CMD_CONNECT_TX_RESPONSE ACMP_STATUS_SUCCESS
       (cr\<lparr>sequence_id := ?s, cr_stream_id := u, stream_dest_mac := mac, connection_count := c\<rparr>)"
     "split_stream_id u = sid" "acmp_talker_state T2 = ACMP_TALKER_WAITING"
     "connections (acmp_talker_streams T2 ! n) = insert (my_guid L, listener_unique_id cr) (connections (acmp_talker_streams T ! n))"
    using talker_handles_connect [OF assms(2,4) L1(3), of n mT sid srpT ok mT' mac] assms(6,7,9,18-26) by auto
  have "acmp_get_inflight_from_sequence_id LISTENER ?s ?L1 = Some i"
    using find_index_update [of "inflight L LISTENER" "\<lambda>c. if_in_use c \<and> sequence_id (if_command c) = ?s" i e] assms(17) i' L1(4,5)
    by (auto simp: acmp_get_inflight_from_sequence_id_def)
  then obtain L2 L3 f3 where L3: "process_avb_1722_1_acmp_packet (drop ETH f2) ?L1 = Some L2"
     "avb_1722_1_acmp_listener_periodic srpL (L2, mL) = Some (L3, mL')" "acmp_sent L3 = acmp_sent L @ [f1, f3]"
     "carries f3 ACMP_CMD_CONNECT_RX_RESPONSE ACMP_STATUS_SUCCESS
       (cr\<lparr>sequence_id := sequence_id cr, cr_stream_id := u, stream_dest_mac := mac, connection_count := c\<rparr>)"
     "acmp_listener_state L3 = ACMP_LISTENER_WAITING"
     "acmp_listener_streams L3 ! k = \<lparr>ls_talker_guid = my_guid T, ls_talker_unique_id = talker_unique_id cr,
         ls_connected = 1, ls_stream_id = u, ls_destination_mac = mac\<rparr>"
     "inflight L3 LISTENER = (inflight L LISTENER)[i := e\<lparr>if_in_use := False\<rparr>]"
    using listener_handles_response [OF _ _ T(4), of ?L1 k i srpL mL mL'] assms(1,6,7,10,11,14,15,23,27) L1(2,6) T(5) i'
    by (auto simp: acmp_ok_def)
  moreover have "filter if_in_use (inflight L3 LISTENER) = filter if_in_use (inflight L LISTENER)"
    using i' L3(7) by (simp add: filter_update_unused)
  ultimately show ?thesis using L1(1) T
    by (intro exI [of _ ?L1] exI [of _ f1] exI [of _ T1] exI [of _ T2] exI [of _ f2] exI [of _ L2] exI [of _ L3] exI [of _ f3]
      exI [of _ "cr\<lparr>sequence_id := sequence_id cr, cr_stream_id := u, stream_dest_mac := mac, connection_count := c\<rparr>"]) simp
qed

text \<open>A listener with a Connect command for the talker with identifier 9, and that talker.\<close>

definition connect_command :: acmp_cmd_resp where
  "connect_command = zero_cmd_resp\<lparr>listener_guid := 5, talker_guid := 9, sequence_id := 300\<rparr>"

definition example_listener :: acmp where
  "example_listener = (entity 5 1 [])\<lparr>acmp_listener_state := ACMP_LISTENER_CONNECT_RX_COMMAND, listener_rcvd := connect_command\<rparr>"

definition example_talker :: acmp where
  "example_talker = entity 9 0 [one_listener]"

lemma example_entities:
  "acmp_ok example_listener" "acmp_listener_state example_listener = ACMP_LISTENER_CONNECT_RX_COMMAND"
  "listener_rcvd example_listener = connect_command" "my_guid example_listener = 5" "length (acmp_listener_streams example_listener) = 1"
  "inflight example_listener LISTENER = replicate 2 zero_inflight" "acmp_sent example_listener = []"
  "acmp_ok example_talker" "acmp_talker_state example_talker = ACMP_TALKER_WAITING" "my_guid example_talker = 9"
  "acmp_talker_streams example_talker = [one_listener]" "acmp_sent example_talker = []"
  "ts_destination_mac one_listener = replicate 6 0" "length (connected_listeners one_listener) = 2"
  "listener_unique_id connect_command = 0" "talker_unique_id connect_command = 0" "listener_guid connect_command = 5" "talker_guid connect_command = 9"
  "cr_flags connect_command = 0" "cr_vlan_id connect_command = 0" "length (stream_dest_mac connect_command) = 6"
  "sequence_id connect_command = 300" "\<not> if_in_use zero_inflight"
  by (simp_all add: example_listener_def example_talker_def connect_command_def entity_def acmp_ok_def one_listener_def zero_cmd_resp_def zero_inflight_def)

theorem connect_handshake_witness:
  "\<exists>mT mL L1 f1 T1 T2 f2 L2 L3 f3.
     avb_1722_1_acmp_listener_periodic idle_srp (example_listener, example_mgr STATE_DISABLED) = Some (L1, example_mgr STATE_DISABLED)
     \<and> process_avb_1722_1_acmp_packet (drop ETH f1) example_talker = Some T1
     \<and> avb_1722_1_acmp_talker_periodic idle_srp (T1, example_mgr STATE_DISABLED) = Some (T2, mT)
     \<and> process_avb_1722_1_acmp_packet (drop ETH f2) L1 = Some L2
     \<and> avb_1722_1_acmp_listener_periodic idle_srp (L2, example_mgr STATE_DISABLED) = Some (L3, mL) \<and> acmp_sent L3 = [f1, f3]
     \<and> connections (acmp_talker_streams T2 ! 0) = {(5, 0), (7, 3)}"
proof -
  let ?m = "example_mgr STATE_DISABLED" and ?sid = "stream_id (example_resv 1)"
  have "set_source_state idle_srp 0 STATE_POTENTIAL ?m \<noteq> None" by code_simp
  then obtain ok mT where T: "set_source_state idle_srp 0 STATE_POTENTIAL ?m = Some (ok, mT)" by auto
  have "avb_listener_on_talker_connect idle_srp 0 (replicate 6 0) ?sid 0 ?m \<noteq> None" by code_simp
  then obtain st mL where L: "avb_listener_on_talker_connect idle_srp 0 (replicate 6 0) ?sid 0 ?m = Some (st, mL)" by auto
  then have st: "st = ACMP_STATUS_SUCCESS" by (auto simp: avb_listener_on_talker_connect_def bind_eq_Some_conv)
  have m: "get_sink_state 0 ?m = Some STATE_DISABLED" "get_source_state 0 ?m = Some STATE_DISABLED" "get_source_id 0 ?m = Some ?sid"
    by (simp_all add: get_sink_state_def get_sink_info_def get_source_state_def get_source_id_def get_source_info_def
        example_mgr_def example_source_def example_sink_def)
  have h: "listener_guid connect_command = my_guid example_listener" "talker_guid connect_command = my_guid example_talker"
     "my_guid example_talker \<noteq> my_guid example_listener" "my_guid example_listener \<noteq> 0"
     "0 = unat (listener_unique_id connect_command)" "0 < length (acmp_listener_streams example_listener)"
     "cr_flags connect_command AND ACMP_FLAGS_CLASS_B = 0" "cr_flags connect_command AND ACMP_FLAGS_FAST_CONNECT = 0"
     "\<exists>c \<in> set (inflight example_listener LISTENER). \<not> if_in_use c"
     "\<forall>c \<in> set (inflight example_listener LISTENER). if_in_use c \<longrightarrow> sequence_id (if_command c) \<noteq> next_sequence_id example_listener LISTENER"
     "0 = unat (talker_unique_id connect_command)" "0 < length (acmp_talker_streams example_talker)"
     "connections_ok (acmp_talker_streams example_talker ! 0)"
     "card (connections (acmp_talker_streams example_talker ! 0)) < length (connected_listeners (acmp_talker_streams example_talker ! 0))"
     "replicate 6 0 = ts_destination_mac (acmp_talker_streams example_talker ! 0)"
     "avb_listener_on_talker_connect idle_srp 0 (replicate 6 0) ?sid (cr_vlan_id connect_command) ?m = Some (ACMP_STATUS_SUCCESS, mL)"
    using L st by (simp_all add: example_entities one_listener_ok)
  show ?thesis
    using connect_handshake [OF example_entities(1,8,2,9,3) h(1-6) m(1) example_entities(21) h(7-15) length_replicate m(2,3) T h(16)]
    by (elim exE conjE) (simp only: example_entities one_listener_ok append_Nil nth_Cons_0, blast)
qed

end
