(* ===== verification/Spec2Isabelle.thy ===== *)
theory Spec2Isabelle
  imports Rx_Defined Srp_Wire Avb_Util Stream_1722 Maap Acmp_Connect
begin

text \<open>
  \<^bold>\<open>A verification library for the XMOS AVB/TSN library (lib\_tsn).\<close>

  lib\_tsn makes a device an end point of an Audio Video Bridging network. Its parts and how they interact:

  \<^item> the \<^emph>\<open>AVB manager\<close> (\<^verbatim>\<open>src/avb/avb.xc\<close>, \<^verbatim>\<open>api/avb.h\<close>) owns the tables of stream sources, sinks and media clocks and
    moves a stream between disabled, potential and enabled; applications and 1722.1 use it through get and set functions;
  \<^item> \<^emph>\<open>SRP and MVRP over MRP\<close> (\<^verbatim>\<open>src/srp/\<close>) register streams and VLANs with the network: a set of attributes, each with an
    applicant and a registrar state machine, encoded into and decoded from MRP PDUs;
  \<^item> \<^emph>\<open>MAAP\<close> (\<^verbatim>\<open>src/1722/maap/\<close>) allocates multicast addresses for the streams;
  \<^item> \<^emph>\<open>1722.1 connection management, ACMP\<close> (\<^verbatim>\<open>src/1722_1/\<close>) lets a controller connect a listener to a talker, through the manager;
  \<^item> the \<^emph>\<open>1722 talker and listener\<close> (\<^verbatim>\<open>src/1722/\<close>) put audio frames into stream packets and take the samples out of received ones; the
    manager configures, starts and stops them;
  \<^item> the \<^emph>\<open>audio output FIFO\<close> (\<^verbatim>\<open>src/audio_buffering/\<close>) carries samples from the stream listener to the audio
    interface and is steered by the media clock server.

  \<^bold>\<open>How the model is built.\<close> A C or XC function is a HOL function on an explicit state record; a trap (a null pointer, an
  access out of bounds, an unset variable) is \<open>None\<close> of the option type, so a result \<open>Some\<close> claims that the code
  does none of these. Static variables are records that extend each other: \<open>clock_env\<close> (the reference timer as an unknown function of
  the number of reads), \<open>avb_state\<close> (manager), \<open>mrp_state\<close> (SRP, MVRP, MRP), \<open>maap\<close> and \<open>acmp\<close>. Pointers into static arrays are
  indices, integers are words of their width where they can wrap, byte buffers are lists of 8-bit words with checked
  access, and frames sent are collected in a list of the state. Code outside the library is a parameter: the reference timer, the
  random generator, and for ACMP the reservation task behind the manager (\<open>srp_if\<close>).

  \<^bold>\<open>The theories.\<close>

  \<^item> \<open>Tsn_Prelude\<close>: arrays with checked access, the two postcondition predicates \<open>post\<close> (if defined) and \<open>tot\<close> (defined, and) with one
    rewrite rule per construct, searches, and the overlay of a block on a buffer.
  \<^item> \<open>Net_Bytes\<close>, \<open>Pdu_Fields\<close>: byte order and bit fields, as in \<^verbatim>\<open>nettypes.h\<close>, \<^verbatim>\<open>avb_1722_common.h\<close> and the \<^verbatim>\<open>SET_BITS\<close> macros.
  \<^item> \<open>Avb_Util\<close>, \<open>Avb_Timer\<close>: \<^verbatim>\<open>avb_util.c\<close>; \<^verbatim>\<open>misc_timer.xc\<close>, with the proof that a timer never fires early.
  \<^item> \<open>Avb_Manager\<close>, \<open>Avb_Api\<close>: \<^verbatim>\<open>avb.xc\<close> and the client functions of \<^verbatim>\<open>api/avb.h\<close>; the locale \<open>guarded_setting\<close> gives the contract
    of the settings that can change only while a stream is disabled.
  \<^item> \<open>Mrp_Types\<close>, \<open>Mrp_Pdu\<close>, \<open>Srp_Table\<close>, \<open>Srp_Encode\<close>, \<open>Mrp_Machine\<close>, \<open>Mrp_List\<close>, \<open>Mvrp\<close>, \<open>Srp\<close>, \<open>Mrp_Task\<close>: the model of
    \<^verbatim>\<open>avb_mrp.c\<close>, \<^verbatim>\<open>avb_srp.c\<close>, \<^verbatim>\<open>avb_mvrp.c\<close> and \<^verbatim>\<open>avb_srp.xc\<close>, bottom up. The event loop of the task is the inductive relation \<open>srp_step\<close>.
  \<^item> \<open>Mrp_Inv\<close>, \<open>Srp_Inv\<close>, \<open>Task_Inv\<close>, \<open>Rx_Defined\<close>: the invariant \<open>mrp_ok\<close> of that state, preserved by every operation, and the proof
    that reception is defined on every packet.
  \<^item> \<open>Srp_Wire\<close>: what the encoders put on the wire and what the receivers read.
  \<^item> \<open>Maap\<close>: \<^verbatim>\<open>avb_1722_maap.xc\<close>.
  \<^item> \<open>Avdecc\<close>, \<open>Acmp\<close>, \<open>Acmp_Talker\<close>, \<open>Acmp_Connect\<close>: the 1722.1 header, \<^verbatim>\<open>avb_1722_1_acmp.c\<close>, \<^verbatim>\<open>avb_1722_1_acmp_periodic.xc\<close> and the
    default hooks of \<^verbatim>\<open>avb_1722_1_app_hooks.xc\<close>.
  \<^item> \<open>Audio_Fifo\<close>: \<^verbatim>\<open>audio_output_fifo.c\<close> and the use \<^verbatim>\<open>audio_buffering.xc\<close> makes of it.
  \<^item> \<open>Avbtp\<close>, \<open>Talker_1722\<close>, \<open>Listener_1722\<close>: the header macros of \<^verbatim>\<open>avb_1722_common.h\<close> and \<^verbatim>\<open>avb_1722_def.h\<close> with the time conversion of
    \<^verbatim>\<open>gptp.xc\<close>; \<^verbatim>\<open>avb_1722_talker_support_audio.c\<close> and \<^verbatim>\<open>avb_1722_talker.xc\<close>; \<^verbatim>\<open>avb_1722_listener_support_audio.c\<close> and \<^verbatim>\<open>avb_1722_listener.xc\<close>.
  \<^item> \<open>Stream_1722\<close>: the way of the samples from talker to listener.
  \<^item> this theory: properties that need the list, the task and the invariants together.

  \<^bold>\<open>What is shown.\<close>

  \<^item> Reservation. Every reachable state of the task satisfies the invariant; a one-port device processes every received packet to completion;
    \<open>sort_attrs\<close>, a program on next pointers, implements a function on lists; the LeaveAll broadcast reaches exactly the addressed attributes; the
    stream table implements a map; declarations of talkers, listeners and domains read back as declared; a registration ends one leave
    period after a Leave; an applicant becomes quiet within three transmit opportunities; a VLAN is joined whenever an entry is usable, and
    leaving undoes joining; the send buffer has room after \<open>mrp_send\<close> for every message but one.
  \<^item> Addresses. A MAAP request is answered by a reservation after finitely many polls; a reserved range is defended against a
    probe by another station, which then chooses again; conflict detection computes the intersection of the two ranges.
  \<^item> Connections. Frames read back as sent; the listeners of a talker are a bounded set; a listener and a talker that exchange the frames
    they send become connected on both sides.
  \<^item> Audio. The output ring implements a bounded queue and stays well formed under every sequence of its operations; the end of the zeroing phase and
    adjustments of the fill level have their intended effect and terminate.
  \<^item> Streams. The samples a talker is given arrive in the FIFOs of a listener, channel by channel and in order; a listener that was just configured
    locks on to a stream within 17 packets; at the rates with a small fraction of a sample per packet the packets keep to the rate.
  \<^item> Faults. Where the code does not do what it means to, a theorem shows it: a missing \<^verbatim>\<open>break\<close>, a buffer
    constant that is too small, null pointers when a table is full, an incomplete sort, a decimal reader that reverses, a random address drawn from
    too large a pool, a listener state machine that a single frame stops, a disconnect that matches a free entry, a packet that is overwritten before it is sent, a stream at
    44.1 kHz that falls behind.

  \<^bold>\<open>Bounds and termination.\<close> Table sizes are lengths of lists, so the theorems hold for every configuration; only concrete examples choose
  sizes. Loops over arrays are \<open>for_each\<close> or structural recursion. Loops that follow pointers or packet lengths (\<open>walk\<close>, the
  loops of \<open>sort_attrs\<close>, \<open>vector_loop\<close>, \<open>message_loop\<close>, the digit loops) are \<open>function\<close>s with a measure or \<open>partial_function (option)\<close>,
  where not returning is \<open>None\<close>; that they return is part of the theorems. No fuel is used.

  \<^bold>\<open>Not modelled.\<close>

  \<^item> AECP (\<^verbatim>\<open>avb_1722_1_aecp*.c/.xc\<close>): its handlers work on the entity descriptors, which the build generates from XML, and on flash through a
    library that is not part of the sources. The descriptor declarations (\<^verbatim>\<open>aem_descriptor_*.h\<close>) are used by it only.
  \<^item> ADP (\<^verbatim>\<open>avb_1722_1_adp.xc\<close>) and the dispatch of 1722.1 packets (\<^verbatim>\<open>avb_1722_1.xc\<close>): the content of an advertisement is generated configuration; the
    modelled connection protocol does not read the table of discovered entities.
  \<^item> gPTP (\<^verbatim>\<open>src/ptp/\<close>) apart from the conversion of timestamps, and media clock recovery (\<^verbatim>\<open>src/media_clock/\<close>): they depend on hardware timestamps
    and measured time, and what makes them right is a statement about real clocks, not about the code alone.
  \<^item> The start-up of the manager (\<^verbatim>\<open>avb_init\<close>, the wiring of units, link status), the fast-connect flash storage (compiled only with
    \<^verbatim>\<open>AVB_1722_1_FAST_CONNECT_ENABLED\<close>), the 1722 router (functions with debug output only), \<^verbatim>\<open>reboot.xc\<close> and the example applications: channel and
    port input and output.
  \<^item> Debug output everywhere, and fields that no code reads.
\<close>

section \<open>Properties of sorting\<close>

text \<open>Listeners of streams with the given identifiers, linked in the order of the list.\<close>

definition listeners :: "nat list \<Rightarrow> ms" where
  "listeners ids = (boot_memory 1 (length ids) (length ids) 0 (\<lambda>i. 0))\<lparr>
     attrs := map (\<lambda>i. zero_attr\<lparr>attribute_type := MSRP_LISTENER, applicant_state := MRP_VO,
        attribute_info := InfoStream i, next_attr := (if Suc i < length ids then Some (Suc i) else None)\<rparr>) [0..<length ids],
     stream_table := map (\<lambda>n. (zero_stream_entry 1)\<lparr>reservation := zero_srp_info\<lparr>stream_id := (0, of_nat n)\<rparr>\<rparr>) ids\<rparr>"

lemma listeners_list: "ids \<noteq> [] \<Longrightarrow> attr_list (listeners ids) [0..<length ids]"
  unfolding attr_list_def
  by (auto simp: listeners_def boot_memory_def nexts_def intro!: chain_upt)

lemma listeners_ok:
  assumes "ids \<noteq> []"
  shows "mrp_ok (listeners ids)"
proof -
  have "\<exists>xs. attr_list (listeners ids) xs" using listeners_list [OF assms] by blast
  then show ?thesis
    unfolding mrp_ok_def
    by (auto simp: listeners_def boot_memory_def sizes_ok_def buf_ok_def body_start_def ETH_HDR_def MRP_HDR_def
        MRP_SEND_BUFFER_SIZE_def attr_ok_def info_ok_def bound_def stream_type_def zero_attr_def entry_ok_def
        zero_stream_entry_def zero_srp_info_def owned_def)
qed

lemma listeners_before:
  assumes "i < length ids" and "j < length ids" and "\<forall>n \<in> set ids. n < 2 ^ 32"
  shows "attr_before (listeners ids) i j \<longleftrightarrow> ids ! i < ids ! j"
proof -
  have "(of_nat (ids ! i) :: u32) < of_nat (ids ! j) \<longleftrightarrow> ids ! i < ids ! j"
    using assms by (simp add: word_less_nat_alt unsigned_of_nat take_bit_eq_mod)
  then show ?thesis
    using assms(1,2)
    by (simp add: attr_before_def compare_attr_def listeners_def avb_srp_compare_listener_attributes_def stream_id_of_def stream_of_def)
qed

text \<open>C3: the pointer program \<open>sort_attrs\<close> always terminates and implements the list function \<open>sort_list\<close>: run on
  the list \<open>xs\<close> of all attributes it produces the list \<open>sort_list (attr_before s) xs\<close>, which holds the
  same attributes; it changes nothing but the links; and a list already in order stays as it is.\<close>

theorem sort_attrs_implements_sort_list:
  assumes "mrp_ok s" and "attr_list s xs"
  shows "\<exists>t. sort_attrs s = Some t \<and> mrp_ok t \<and> relinked s t
     \<and> attr_list t (sort_list (attr_before s) xs) \<and> mset (sort_list (attr_before s) xs) = mset xs
     \<and> (successively (attr_before s) xs \<longrightarrow> attr_list t xs)"
proof -
  obtain t where "sort_attrs s = Some t" "relinked s t" "attr_list t (sort_list (attr_before s) xs)" "mrp_ok t"
    using sort_attrs_refines [OF assms] .
  then show ?thesis using mset_sort_list [of "attr_before s" xs] sort_list_sorted [of "attr_before s" xs] by auto
qed

theorem sort_attrs_implements_sort_list_witness:
  "\<exists>t. sort_attrs (listeners [7, 4]) = Some t \<and> mrp_ok t"
  using sort_attrs_implements_sort_list [OF listeners_ok [of "[7, 4]"] listeners_list [of "[7, 4]"]] by auto

text \<open>One run of \<open>sort_attrs\<close> need not sort: four listeners whose stream identifiers are
  3, 6, 2 and 4 in the order of the list end up in the order 3, 2, 4, 6.\<close>

theorem sort_attrs_incomplete:
  "\<exists>t. sort_attrs (listeners [3, 6, 2, 4]) = Some t \<and> attr_list t [0, 2, 3, 1]
     \<and> \<not> successively (attr_before (listeners [3, 6, 2, 4])) [0, 2, 3, 1]"
proof -
  let ?s = "listeners [3, 6, 2, 4]"
  define c where "c = attr_before ?s"
  have b: "c i j \<longleftrightarrow> [3, 6, 2, 4::nat] ! i < [3, 6, 2, 4] ! j" if "i < 4" "j < 4" for i j
    using listeners_before [of i "[3, 6, 2, 4]" j] that by (simp add: c_def)
  have "[0..<length [3, 6, 2, 4::nat]] = [0, 1, 2, 3]" by (simp add: upt_rec)
  with listeners_list [of "[3, 6, 2, 4]"] have l: "attr_list ?s [0, 1, 2, 3]" by (metis list.discI)
  obtain t where t: "sort_attrs ?s = Some t" "attr_list t (sort_list c [0, 1, 2, 3])"
    by (rule sort_attrs_refines [OF listeners_ok l]) (simp_all add: c_def)
  moreover have "sort_list c [0, 1, 2, 3] = [0, 2, 3, 1]"
    by (simp add: sort_list_def insert_in_def b)
  moreover have "\<not> successively c [0, 2, 3, 1]" by (simp add: b)
  ultimately show ?thesis unfolding c_def by auto
qed

lemma boot_memory_boots: "ports = 1 \<or> ports = 2 \<Longrightarrow> 0 < n \<Longrightarrow> boot (boot_memory ports n k v time)"
  by (auto simp: boot_def boot_memory_def sizes_ok_def zero_attr_def body_start_def)

lemma small_device_starts: "\<exists>s. srp_task_init (replicate 6 0) (boot_memory 1 3 1 1 (\<lambda>i. 0)) = Some s \<and> num_ports s = 1"
proof -
  have "(case srp_task_init (replicate 6 0) (boot_memory 1 3 1 1 (\<lambda>i. 0)) of None \<Rightarrow> False | Some s \<Rightarrow> num_ports s = 1)"
    by code_simp
  then show ?thesis by (auto split: option.splits)
qed

lemma small_device: "\<exists>s. reachable s \<and> num_ports s = 1"
  using small_device_starts reachable.init [OF boot_memory_boots [of 1 3 1 1 "\<lambda>i. 0"]] by auto

text \<open>C1: the invariant of the reservation task. In every state the task reaches from initialisation through
  packets, periodic processing and requests of the manager, the attribute list is a well-formed list of all
  attributes, every attribute in use has a port that exists and points to an existing table
  entry of the kind its type needs, the stream table is well formed and the send pointer lies within the
  send buffer.\<close>

theorem reachable_invariant:
  assumes "reachable s"
  shows "(\<exists>xs. attr_list s xs \<and> distinct xs \<and> set xs = {0..<length (attrs s)})
     \<and> (\<forall>j < length (attrs s). port_num (attrs s ! j) < num_ports s \<and> info_ok s (attrs s ! j)
          \<and> (in_use (attrs s ! j) \<and> attribute_type (attrs s ! j) \<noteq> MSRP_DOMAIN_VECTOR
               \<longrightarrow> attribute_info (attrs s ! j) \<noteq> InfoNull))
     \<and> (\<forall>e \<in> set (stream_table s). entry_ok s e)
     \<and> length (send_buf s) = MRP_SEND_BUFFER_SIZE \<and> body_start \<le> send_ptr s \<and> send_ptr s \<le> MRP_SEND_BUFFER_SIZE"
proof -
  have ok: "mrp_ok s" by (rule reachable_ok) fact
  then obtain xs where "attr_list s xs" by (auto simp: mrp_ok_def)
  then have "attr_list s xs \<and> distinct xs \<and> set xs = {0..<length (attrs s)}"
    by (simp add: attr_list_distinct attr_list_set)
  moreover have "port_num (attrs s ! j) < num_ports s" if "j < length (attrs s)" for j
    using wf_attr_ok [OF ok that] by (simp add: attr_ok_def)
  moreover have "info_ok s (attrs s ! j)" if "j < length (attrs s)" for j
    using wf_attr_ok [OF ok that] by (simp add: attr_ok_def)
  moreover have "\<forall>e \<in> set (stream_table s). entry_ok s e" "buf_ok s" using ok by (simp_all add: mrp_ok_def)
  ultimately show ?thesis using bound_info(2) [OF ok] by (auto simp: buf_ok_def)
qed

theorem reachable_invariant_witness: "\<exists>s. reachable s \<and> length (send_buf s) = MRP_SEND_BUFFER_SIZE"
  using small_device reachable_invariant by blast



text \<open>C9: a LeaveAll reaches every attribute it addresses and no other. In every reachable state the broadcast of a
  received LeaveAll over the linked list of attributes terminates; afterwards each attribute in use of that type and
  port has had exactly one leave transition, so that a registered one is now leaving, and every other attribute is unchanged.\<close>

theorem leave_all_reaches_all:
  assumes "reachable s" and "port < num_ports s"
  shows "\<exists>u. attribute_type_event t MRP_EVENT_RECEIVE_LEAVE_ALL port s = Some u
     \<and> (\<forall>j < length (attrs s).
          if in_use (attrs s ! j) \<and> Some (attribute_type (attrs s ! j)) = t \<and> port_num (attrs s ! j) = port
          then registrar_state (attrs u ! j) = (if registrar_state (attrs s ! j) = MRP_IN then MRP_LV else registrar_state (attrs s ! j))
            \<and> applicant_state (attrs u ! j) = after_receive_leave (applicant_state (attrs s ! j))
          else attrs u ! j = attrs s ! j)"
  using leave_all_effect [OF reachable_ok [OF assms(1)] assms(2), of t] unfolding addressed_def left_all_def by fastforce

theorem leave_all_reaches_all_witness:
  "\<exists>s u. reachable s \<and> attribute_type_event (Some MSRP_LISTENER) MRP_EVENT_RECEIVE_LEAVE_ALL 0 s = Some u"
  using small_device leave_all_reaches_all [of _ 0 "Some MSRP_LISTENER"] by fastforce

end
